(* ===== verification/Hsm_Prelude.thy ===== *)
theory Hsm_Prelude
  imports Main "HOL-Library.Word"
begin

text \<open>
  What every component of the development shares: the machine integers of the firmware, the
  outcome of a Rust computation (\<open>Ok\<close>, \<open>Err\<close> or a panic), the two combinators that stand for
  the \<open>?\<close> operator, byte slices of a fixed memory, little- and big-endian byte strings, and the
  interface of a bitmap with the lemmas its clients need.
\<close>

unbundle bit_operations_syntax

section \<open>Machine integers\<close>

type_synonym u8 = "8 word"
type_synonym u16 = "16 word"
type_synonym u32 = "32 word"
type_synonym u64 = "64 word"
type_synonym u128 = "128 word"
type_synonym bytes = "8 word list"

named_theorems mem_simps \<open>reading and writing slices of a byte memory\<close>
named_theorems res_simps \<open>elimination of the outcome combinators\<close>
named_theorems bit_simps \<open>single bits of masks and flag words\<close>

section \<open>Errors and outcomes\<close>

text \<open>The variants of \<open>HsmErr\<close> that the modelled code returns or inspects.\<close>

datatype (plugins only: code size) hsm_err =
    InvalidArgument
  | NotEnoughSpace
  | DefragNeeded
  | InvalidKeyIndex
  | CannotDeleteKeyInUse
  | CannotDeleteSomeKeysInUse
  | KeyNotFound
  | KeyTagAlreadyExists
  | InvalidPermissions
  | InvalidKeyType
  | InvalidKeyLength
  | SessionNotFound
  | SessionLimitReached
  | SessionNeedsRenegotiation
  | InvalidState
  | InvalidUserCredential
  | LoginFailed
  | DmaAllocFailure
  | DdiEncodeFailed
  | DdiDecodeFailed
  | NonceMismatch
  | AppLimitReached
  | CredentialsNotEstablished
  | PartitionNotProvisioned
  | FunctionNotEnabled
  | SessionNotExpected
  | SessionExpected
  | UnsupportedRevision
  | UnsupportedCmd
  | SqeInvalidPsdt
  | SqeUnknownOp
  | SqeInvalidSrcLen
  | SqeInvalidDstLen
  | SqeInvalidSrcPrpAlgin
  | SqeInvalidDstPrpAlgin
  | InvalidSessionControlOpcode
  | EcdhComputeFailed
  | PartitionCertTooLarge
  | ReachedMaxAesBulkKeys
  | InvalidKeyTableIndex
  | Pending
  | IpcSendFailure
  | IpcResponseError
  | PinDecryptionFailed
  | AesDecryptFailed
  | MaskingBkBootFailed
  | CannotDeleteInternalKeys
  | DrainBusy
  | DrainReady
  | PkaMemoryWipeFailed
  | IoTimeOut
  | InvalidEvent
  | CmdError
  | ExpectedIoQueue
  | ExpectedIoq
  | ExpectedPcieFn
  | ExpectedDmaBuf
  | ExpectedCmdFsm
  | DmaStartError
  | DmaEndErr
  | DmaTagMismatch
  | DmaCompletionEmpty
  | IoChannelRecvNone
  | IoChannelRecvErr
  | IoChannelSendError
  | IoChannelSendCompleteError
  | IoChannelSendCompleteNone
  | PartitionNotEnabled
  | QueueNotEnabled
  | DeferredQueueDeleteNotifyErr
  | InsufficientBuffer
  | PartitionAlreadyProvisioned
  | EccDerKeyShorterThanCurve
  | EccPublicKeyValidationFailed
  | EccMontgomeryConstCalcFailed
  | BeginEccPointValidationFailed
  | EndEccPointValidationFailed
  | EccPointValidationFailed
  | SessionEncryptionKeyGenerateFailed
  | KeyStructuralValidationFailed

text \<open>
  The outcome of a call: a value, an error of the component's error type, or a panic (an index out
  of range, a \<open>copy_from_slice\<close> of the wrong length, an \<open>unreachable!()\<close>).
\<close>

datatype ('e, 'a) outcome = Ok 'a | Err 'e | Panic

type_synonym 'a hsm_result = "(hsm_err, 'a) outcome"

text \<open>The \<open>?\<close> operator inside a function that reads state, and inside one that threads state.\<close>

primrec and_then :: "('e, 'a) outcome \<Rightarrow> ('a \<Rightarrow> ('e, 'b) outcome) \<Rightarrow> ('e, 'b) outcome" where
  "and_then (Ok x) k = k x"
| "and_then (Err e) k = Err e"
| "and_then Panic k = Panic"

primrec try_in ::
  "('e, 'a) outcome \<Rightarrow> 's \<Rightarrow> ('a \<Rightarrow> ('e, 'b) outcome \<times> 's) \<Rightarrow> ('e, 'b) outcome \<times> 's" where
  "try_in (Ok x) s k = k x"
| "try_in (Err e) s k = (Err e, s)"
| "try_in Panic s k = (Panic, s)"

primrec map_ok :: "('a \<Rightarrow> 'b) \<Rightarrow> ('e, 'a) outcome \<Rightarrow> ('e, 'b) outcome" where
  "map_ok f (Ok x) = Ok (f x)"
| "map_ok f (Err e) = Err e"
| "map_ok f Panic = Panic"

primrec is_ok :: "('e, 'a) outcome \<Rightarrow> bool" where
  "is_ok (Ok x) = True"
| "is_ok (Err e) = False"
| "is_ok Panic = False"

text \<open>One stateful call after another, with \<open>?\<close> on the first.\<close>

definition then_op ::
  "('s \<Rightarrow> ('e, 'a) outcome \<times> 's) \<Rightarrow> ('a \<Rightarrow> 's \<Rightarrow> ('e, 'b) outcome \<times> 's) \<Rightarrow> 's \<Rightarrow> ('e, 'b) outcome \<times> 's"
  where "then_op m k s = (case m s of (r, s') \<Rightarrow> try_in r s' (\<lambda>x. k x s'))"

text \<open>\<open>ok_or\<close> of an \<open>Option\<close>.\<close>

definition ok_or :: "'a option \<Rightarrow> 'e \<Rightarrow> ('e, 'a) outcome" where
  "ok_or x e = (case x of Some y \<Rightarrow> Ok y | None \<Rightarrow> Err e)"

lemma ok_or_simps [simp]: "ok_or (Some y) e = Ok y" "ok_or None e = Err e"
  by (simp_all add: ok_or_def)

lemma ok_or_eq [res_simps]:
  "ok_or x e = Ok y \<longleftrightarrow> x = Some y"
  "ok_or x e = Err e' \<longleftrightarrow> x = None \<and> e' = e"
  "ok_or x e \<noteq> Panic"
  by (auto simp: ok_or_def split: option.splits)

lemma and_then_eq [res_simps]:
  "and_then m k = Ok y \<longleftrightarrow> (\<exists>x. m = Ok x \<and> k x = Ok y)"
  "and_then m k = Err e \<longleftrightarrow> m = Err e \<or> (\<exists>x. m = Ok x \<and> k x = Err e)"
  "and_then m k = Panic \<longleftrightarrow> m = Panic \<or> (\<exists>x. m = Ok x \<and> k x = Panic)"
  by (cases m; auto)+

lemma try_in_eq [res_simps]:
  "try_in m s k = (Ok y, s') \<longleftrightarrow> (\<exists>x. m = Ok x \<and> k x = (Ok y, s'))"
  "try_in m s k = (Err e, s') \<longleftrightarrow> (m = Err e \<and> s' = s) \<or> (\<exists>x. m = Ok x \<and> k x = (Err e, s'))"
  "try_in m s k = (Panic, s') \<longleftrightarrow> (m = Panic \<and> s' = s) \<or> (\<exists>x. m = Ok x \<and> k x = (Panic, s'))"
  by (cases m; auto)+

lemma then_op_eq [res_simps]:
  "then_op m k s = (Ok y, t) \<longleftrightarrow> (\<exists>x s'. m s = (Ok x, s') \<and> k x s' = (Ok y, t))"
  "then_op m k s = (Err e, t) \<longleftrightarrow> m s = (Err e, t) \<or> (\<exists>x s'. m s = (Ok x, s') \<and> k x s' = (Err e, t))"
  "then_op m k s = (Panic, t) \<longleftrightarrow> m s = (Panic, t) \<or> (\<exists>x s'. m s = (Ok x, s') \<and> k x s' = (Panic, t))"
  by (auto simp: then_op_def try_in_eq split: prod.splits)

lemma then_op_simps [simp]:
  "m s = (Ok x, s') \<Longrightarrow> then_op m k s = k x s'"
  "m s = (Err e, s') \<Longrightarrow> then_op m k s = (Err e, s')"
  "m s = (Panic, s') \<Longrightarrow> then_op m k s = (Panic, s')"
  by (simp_all add: then_op_def)

lemma map_ok_eq [res_simps]:
  "map_ok f m = Ok y \<longleftrightarrow> (\<exists>x. m = Ok x \<and> y = f x)"
  "map_ok f m = Err e \<longleftrightarrow> m = Err e"
  "map_ok f m = Panic \<longleftrightarrow> m = Panic"
  by (cases m; auto)+

lemma is_ok_iff: "is_ok m \<longleftrightarrow> (\<exists>x. m = Ok x)"
  by (cases m) auto

section \<open>Slices of a byte memory\<close>

text \<open>\<open>&mem[off..off + len]\<close>, which panics out of range.\<close>

definition slice :: "nat \<Rightarrow> nat \<Rightarrow> 'a list \<Rightarrow> 'a list" where
  "slice off len m = take len (drop off m)"

definition slice_get :: "nat \<Rightarrow> nat \<Rightarrow> 'a list \<Rightarrow> ('e, 'a list) outcome" where
  "slice_get off len m = (if off + len \<le> length m then Ok (slice off len m) else Panic)"

text \<open>
  Overwriting a part of the memory, and \<open>mem[off..off + len].copy_from_slice(src)\<close>, which panics
  when the slice is out of range or the lengths differ.
\<close>

definition mem_write :: "nat \<Rightarrow> 'a list \<Rightarrow> 'a list \<Rightarrow> 'a list" where
  "mem_write off src m = take off m @ src @ drop (off + length src) m"

definition copy_into :: "nat \<Rightarrow> nat \<Rightarrow> 'a list \<Rightarrow> 'a list \<Rightarrow> ('e, 'a list) outcome" where
  "copy_into off len src m =
     (if off + len \<le> length m \<and> length src = len then Ok (mem_write off src m) else Panic)"

lemma length_slice [simp]: "off + len \<le> length m \<Longrightarrow> length (slice off len m) = len"
  by (simp add: slice_def)

lemma slice_get_Ok [simp]: "off + len \<le> length m \<Longrightarrow> slice_get off len m = Ok (slice off len m)"
  by (simp add: slice_get_def)

lemma slice_get_eq [res_simps]:
  "slice_get off len m = Ok xs \<longleftrightarrow> off + len \<le> length m \<and> xs = slice off len m"
  "slice_get off len m = Panic \<longleftrightarrow> length m < off + len"
  "slice_get off len m \<noteq> Err e"
  by (auto simp: slice_get_def)

lemma copy_into_eq [res_simps]:
  "copy_into off len src m = Ok m' \<longleftrightarrow>
     off + len \<le> length m \<and> length src = len \<and> m' = mem_write off src m"
  "copy_into off len src m = Panic \<longleftrightarrow> \<not> (off + len \<le> length m \<and> length src = len)"
  "copy_into off len src m \<noteq> Err e"
  by (auto simp: copy_into_def)

lemma length_mem_write [simp]:
  "off + length src \<le> length m \<Longrightarrow> length (mem_write off src m) = length m"
  by (simp add: mem_write_def)

lemma nth_slice [mem_simps]: "k < len \<Longrightarrow> off + len \<le> length m \<Longrightarrow> slice off len m ! k = m ! (off + k)"
  by (simp add: slice_def)

lemma nth_mem_write [mem_simps]:
  assumes "off + length src \<le> length m" and "k < length m"
  shows "mem_write off src m ! k =
    (if off \<le> k \<and> k < off + length src then src ! (k - off) else m ! k)"
  using assms by (auto simp: mem_write_def nth_append)

lemma slice_mem_write_same [mem_simps]:
  "off + length src \<le> length m \<Longrightarrow> slice off (length src) (mem_write off src m) = src"
  by (simp add: slice_def mem_write_def)

lemma slice_eqI:
  assumes "off + len \<le> length m" and "length m' = length m"
    and "\<And>k. off \<le> k \<Longrightarrow> k < off + len \<Longrightarrow> m' ! k = m ! k"
  shows "slice off len m' = slice off len m"
  by (rule nth_equalityI) (use assms in \<open>auto simp: nth_slice\<close>)

lemma slice_mem_write_disjoint [mem_simps]:
  assumes "off + len \<le> length m" and "off' + length src \<le> length m"
    and "off + len \<le> off' \<or> off' + length src \<le> off"
  shows "slice off len (mem_write off' src m) = slice off len m"
  by (rule slice_eqI) (use assms in \<open>auto simp: nth_mem_write\<close>)

lemma slice_add: "slice off (a + b) m = slice off a m @ slice (off + a) b m"
  by (simp add: slice_def take_add add.commute)

lemma slice_all: "length m = n \<Longrightarrow> slice 0 n m = m"
  by (simp add: slice_def)

section \<open>Iterators\<close>

text \<open>\<open>iter().position(p)\<close>: the index of the first element that satisfies a predicate.\<close>

fun position :: "('a \<Rightarrow> bool) \<Rightarrow> 'a list \<Rightarrow> nat option" where
  "position p [] = None"
| "position p (x # xs) = (if p x then Some 0 else map_option Suc (position p xs))"

lemma position_Some:
  "position p xs = Some i \<longleftrightarrow> i < length xs \<and> p (xs ! i) \<and> (\<forall>j < i. \<not> p (xs ! j))"
proof (induction xs arbitrary: i)
  case Nil
  then show ?case by simp
next
  case (Cons x xs)
  show ?case
    by (cases i) (auto simp: Cons.IH less_Suc_eq_0_disj split: if_splits)
qed

lemma position_None: "position p xs = None \<longleftrightarrow> (\<forall>i < length xs. \<not> p (xs ! i))"
  by (induction xs) (auto simp: less_Suc_eq_0_disj nth_Cons' split: if_splits)

section \<open>Byte strings of machine integers\<close>

text \<open>\<open>to_le_bytes\<close>, \<open>from_le_bytes\<close> and their big-endian twins, for a word of \<open>n\<close> bytes.\<close>

primrec le_bytes :: "nat \<Rightarrow> 'a::len word \<Rightarrow> bytes" where
  "le_bytes 0 w = []"
| "le_bytes (Suc n) w = ucast w # le_bytes n (drop_bit 8 w)"

primrec le_word :: "bytes \<Rightarrow> 'a::len word" where
  "le_word [] = 0"
| "le_word (b # bs) = ucast b OR push_bit 8 (le_word bs)"

definition be_bytes :: "nat \<Rightarrow> 'a::len word \<Rightarrow> bytes" where
  "be_bytes n w = rev (le_bytes n w)"

definition be_word :: "bytes \<Rightarrow> 'a::len word" where
  "be_word bs = le_word (rev bs)"

lemma length_le_bytes [simp]: "length (le_bytes n w) = n"
  by (induction n arbitrary: w) auto

lemma length_be_bytes [simp]: "length (be_bytes n w) = n"
  by (simp add: be_bytes_def)

lemma bit_le_word:
  fixes bs :: bytes
  shows "bit (le_word bs :: 'a::len word) i \<longleftrightarrow>
    i < LENGTH('a) \<and> i < 8 * length bs \<and> bit (bs ! (i div 8)) (i mod 8)"
proof (induction bs arbitrary: i)
  case Nil
  then show ?case by simp
next
  case (Cons b bs)
  show ?case
  proof (cases "i < 8")
    case True
    then show ?thesis by (auto simp: bit_or_iff bit_ucast_iff bit_push_bit_iff)
  next
    case False
    then obtain j where j: "i = j + 8" by (metis add.commute le_Suc_ex not_less)
    have "\<not> bit b i" using False by (auto dest: bit_imp_le_length)
    moreover have "(j + 8) div 8 = Suc (j div 8)" by simp
    ultimately show ?thesis using j
      by (auto simp: bit_or_iff bit_ucast_iff bit_push_bit_iff Cons.IH)
  qed
qed

lemma nth_le_bytes: "k < n \<Longrightarrow> le_bytes n w ! k = ucast (drop_bit (8 * k) w)"
  by (induction n arbitrary: w k) (auto simp: nth_Cons' drop_bit_drop_bit algebra_simps le_Suc_eq
      split: nat.splits)

lemma le_word_le_bytes:
  assumes "LENGTH('a) \<le> 8 * n"
  shows "le_word (le_bytes n w) = (w :: 'a::len word)"
proof (rule bit_word_eqI)
  fix i
  assume i: "i < LENGTH('a)"
  with assms have d: "i div 8 < n" by auto
  show "bit (le_word (le_bytes n w) :: 'a word) i = bit w i"
    using i assms d by (simp add: bit_le_word nth_le_bytes bit_ucast_iff bit_drop_bit_eq)
qed

lemma be_word_be_bytes:
  "LENGTH('a) \<le> 8 * n \<Longrightarrow> be_word (be_bytes n w) = (w :: 'a::len word)"
  by (simp add: be_word_def be_bytes_def le_word_le_bytes)

lemma le_bytes_le_word:
  fixes bs :: bytes
  assumes "8 * length bs \<le> LENGTH('a)"
  shows "le_bytes (length bs) (le_word bs :: 'a::len word) = bs"
proof (rule nth_equalityI)
  show "length (le_bytes (length bs) (le_word bs :: 'a word)) = length bs" by simp
  fix k
  assume "k < length (le_bytes (length bs) (le_word bs :: 'a word))"
  then have k: "k < length bs" by simp
  show "le_bytes (length bs) (le_word bs :: 'a word) ! k = bs ! k"
  proof (rule bit_word_eqI)
    fix i
    assume "i < LENGTH(8)"
    then have i: "i < 8" by simp
    then have "8 * k + i < 8 * length bs" using k by linarith
    then show "bit (le_bytes (length bs) (le_word bs :: 'a word) ! k) i = bit (bs ! k) i"
      using i k assms by (simp add: nth_le_bytes bit_ucast_iff bit_drop_bit_eq bit_le_word)
  qed
qed

lemma be_bytes_be_word:
  fixes bs :: bytes
  assumes "8 * length bs \<le> LENGTH('a)"
  shows "be_bytes (length bs) (be_word bs :: 'a::len word) = bs"
  using le_bytes_le_word [where 'a = 'a, of "rev bs"] assms
  by (simp add: be_bytes_def be_word_def)

section \<open>Bitmaps\<close>

text \<open>
  The interface of a bitmap of a fixed number of bits: reading a bit (nothing out of range) and
  writing one (no effect out of range). Clients set and clear runs of bits.
\<close>

locale bitmap =
  fixes bget :: "'m \<Rightarrow> nat \<Rightarrow> bool option"
    and bset :: "nat \<Rightarrow> bool \<Rightarrow> 'm \<Rightarrow> 'm"
    and bsize :: nat
    and binv :: "'m \<Rightarrow> bool"
  assumes bget_dom: "binv m \<Longrightarrow> bget m i = None \<longleftrightarrow> bsize \<le> i"
    and binv_bset: "binv m \<Longrightarrow> binv (bset i x m)"
    and bget_bset: "binv m \<Longrightarrow> bget (bset i x m) j = (if i = j \<and> i < bsize then Some x else bget m j)"
begin

definition bset_run :: "nat list \<Rightarrow> bool \<Rightarrow> 'm \<Rightarrow> 'm" where
  "bset_run is x m = fold (\<lambda>i. bset i x) is m"

lemma binv_bset_run: "binv m \<Longrightarrow> binv (bset_run is x m)"
  by (induction "is" arbitrary: m) (auto simp: bset_run_def binv_bset)

lemma bget_bset_run:
  "binv m \<Longrightarrow> bget (bset_run is x m) j = (if j \<in> set is \<and> j < bsize then Some x else bget m j)"
proof (induction "is" arbitrary: m)
  case Nil
  then show ?case by (simp add: bset_run_def)
next
  case (Cons i "is")
  have "bget (bset_run is x (bset i x m)) j =
      (if j \<in> set is \<and> j < bsize then Some x else bget (bset i x m) j)"
    by (rule Cons.IH) (simp add: binv_bset Cons.prems)
  then show ?case by (auto simp: bset_run_def bget_bset Cons.prems)
qed

end

end
