(* ===== verification/Vault_Entry.thy ===== *)
theory Vault_Entry
  imports Hsm_Prelude
begin

text \<open>
  The data of the key store (\<open>vault/store/entry.rs\<close>, \<open>attributes.rs\<close>, \<open>key_number.rs\<close>): the kinds
  and classes of entries with their sizes, the attributes that are stored in front of every key
  blob and their byte image, the 8-byte metadata record of a table slot, and the 16-bit key number
  made of a table index and an entry index. The lemmas give the block arithmetic of entry sizes,
  the round trip of the attribute bytes and of key numbers, and the laws of the flag word.
\<close>

unbundle bit_operations_syntax

section \<open>Kinds of entries\<close>

definition ENTRY_BLOB_BLOCK_ALIGNMENT :: nat where
  "ENTRY_BLOB_BLOCK_ALIGNMENT = 8"

definition KEY_TAG_UNASSIGNED :: u16 where
  "KEY_TAG_UNASSIGNED = 0"

definition COMMON_ATTRIBUTES_BLOB_SIZE :: nat where
  "COMMON_ATTRIBUTES_BLOB_SIZE = 24"

definition ENTRY_SPECIFIC_ATTRIBUTES_BLOB_SIZE :: nat where
  "ENTRY_SPECIFIC_ATTRIBUTES_BLOB_SIZE = 8"

definition ATTRIBUTES_BLOB_SIZE :: nat where
  "ATTRIBUTES_BLOB_SIZE = COMMON_ATTRIBUTES_BLOB_SIZE + ENTRY_SPECIFIC_ATTRIBUTES_BLOB_SIZE"

text \<open>\<open>VarLenHmacShaKey::KEY_LENGTH_INDEX\<close>: where a variable length key keeps its length.\<close>

definition KEY_LENGTH_INDEX :: nat where
  "KEY_LENGTH_INDEX = 0"

lemmas size_consts =
  ENTRY_BLOB_BLOCK_ALIGNMENT_def COMMON_ATTRIBUTES_BLOB_SIZE_def
  ENTRY_SPECIFIC_ATTRIBUTES_BLOB_SIZE_def ATTRIBUTES_BLOB_SIZE_def KEY_LENGTH_INDEX_def

datatype (plugins only: code size) entry_kind =
    EK_Free
  | EK_Rsa2kPublic | EK_Rsa3kPublic | EK_Rsa4kPublic
  | EK_Rsa2kPrivate | EK_Rsa3kPrivate | EK_Rsa4kPrivate
  | EK_Rsa2kPrivateCrt | EK_Rsa3kPrivateCrt | EK_Rsa4kPrivateCrt
  | EK_Ecc256Public | EK_Ecc384Public | EK_Ecc521Public
  | EK_Ecc256Private | EK_Ecc384Private | EK_Ecc521Private
  | EK_Aes128 | EK_Aes192 | EK_Aes256
  | EK_AesXtsBulk256 | EK_AesGcmBulk256 | EK_AesGcmBulk256Unapproved
  | EK_Secret256 | EK_Secret384 | EK_Secret521
  | EK_EstablishCred | EK_SessionEncryption | EK_Session
  | EK_HmacSha256 | EK_HmacSha384 | EK_HmacSha512
  | EK_MaskingKey
  | EK_VarLenHmacSha256 | EK_VarLenHmacSha384 | EK_VarLenHmacSha512

text \<open>
  The raw size of a key blob; the variable length kinds are \<open>unreachable!()\<close> in the source.
\<close>

primrec raw_key_blob_size :: "entry_kind \<Rightarrow> nat hsm_result" where
  "raw_key_blob_size EK_Free = Ok 0"
| "raw_key_blob_size EK_Rsa2kPublic = Ok 260"
| "raw_key_blob_size EK_Rsa3kPublic = Ok 388"
| "raw_key_blob_size EK_Rsa4kPublic = Ok 516"
| "raw_key_blob_size EK_Rsa2kPrivate = Ok 516"
| "raw_key_blob_size EK_Rsa3kPrivate = Ok 772"
| "raw_key_blob_size EK_Rsa4kPrivate = Ok 1028"
| "raw_key_blob_size EK_Rsa2kPrivateCrt = Ok 1284"
| "raw_key_blob_size EK_Rsa3kPrivateCrt = Ok 1924"
| "raw_key_blob_size EK_Rsa4kPrivateCrt = Ok 2564"
| "raw_key_blob_size EK_Ecc256Public = Ok 64"
| "raw_key_blob_size EK_Ecc384Public = Ok 96"
| "raw_key_blob_size EK_Ecc521Public = Ok 136"
| "raw_key_blob_size EK_Ecc256Private = Ok 32"
| "raw_key_blob_size EK_Ecc384Private = Ok 48"
| "raw_key_blob_size EK_Ecc521Private = Ok 68"
| "raw_key_blob_size EK_Aes128 = Ok 16"
| "raw_key_blob_size EK_Aes192 = Ok 24"
| "raw_key_blob_size EK_Aes256 = Ok 32"
| "raw_key_blob_size EK_AesXtsBulk256 = Ok 2"
| "raw_key_blob_size EK_AesGcmBulk256 = Ok 2"
| "raw_key_blob_size EK_AesGcmBulk256Unapproved = Ok 2"
| "raw_key_blob_size EK_Secret256 = Ok 32"
| "raw_key_blob_size EK_Secret384 = Ok 48"
| "raw_key_blob_size EK_Secret521 = Ok 68"
| "raw_key_blob_size EK_EstablishCred = Ok (96 + 48)"
| "raw_key_blob_size EK_SessionEncryption = Ok (96 + 48)"
| "raw_key_blob_size EK_Session = Ok (8 + 80)"
| "raw_key_blob_size EK_HmacSha256 = Ok 32"
| "raw_key_blob_size EK_HmacSha384 = Ok 48"
| "raw_key_blob_size EK_HmacSha512 = Ok 64"
| "raw_key_blob_size EK_MaskingKey = Ok 80"
| "raw_key_blob_size EK_VarLenHmacSha256 = Panic"
| "raw_key_blob_size EK_VarLenHmacSha384 = Panic"
| "raw_key_blob_size EK_VarLenHmacSha512 = Panic"

text \<open>The raw size rounded up to the block alignment; a given key length replaces the raw size.\<close>

definition aligned_key_blob_size :: "entry_kind \<Rightarrow> nat option \<Rightarrow> nat hsm_result" where
  "aligned_key_blob_size k key_len =
     and_then (case key_len of Some len \<Rightarrow> Ok len | None \<Rightarrow> raw_key_blob_size k)
       (\<lambda>raw_size.
          let alignment = ENTRY_BLOB_BLOCK_ALIGNMENT;
              remainder = raw_size mod alignment
          in Ok (if remainder = 0 then raw_size else raw_size + (alignment - remainder)))"

definition storage_size :: "entry_kind \<Rightarrow> nat option \<Rightarrow> nat hsm_result" where
  "storage_size k key_len = map_ok ((+) ATTRIBUTES_BLOB_SIZE) (aligned_key_blob_size k key_len)"

definition is_bulk_key :: "entry_kind \<Rightarrow> bool" where
  "is_bulk_key k \<longleftrightarrow> k \<in> {EK_AesXtsBulk256, EK_AesGcmBulk256, EK_AesGcmBulk256Unapproved}"

definition is_var_hmac_key :: "entry_kind \<Rightarrow> bool" where
  "is_var_hmac_key k \<longleftrightarrow> k \<in> {EK_VarLenHmacSha256, EK_VarLenHmacSha384, EK_VarLenHmacSha512}"

section \<open>Classes of entries\<close>

datatype (plugins only: code size) entry_class =
    EC_Free | EC_Rsa | EC_RsaCrt | EC_Ecc | EC_Aes | EC_AesXtsBulk | EC_AesGcmBulk
  | EC_AesGcmBulkUnapproved | EC_Secret | EC_Session | EC_Hmac | EC_VarLenHmacSha | EC_MaskingKey

definition class_is_bulk_key :: "entry_class \<Rightarrow> bool" where
  "class_is_bulk_key c \<longleftrightarrow> c \<in> {EC_AesXtsBulk, EC_AesGcmBulk, EC_AesGcmBulkUnapproved}"

primrec class_of_kind :: "entry_kind \<Rightarrow> entry_class" where
  "class_of_kind EK_Rsa2kPublic = EC_Rsa"
| "class_of_kind EK_Rsa3kPublic = EC_Rsa"
| "class_of_kind EK_Rsa4kPublic = EC_Rsa"
| "class_of_kind EK_Rsa2kPrivate = EC_Rsa"
| "class_of_kind EK_Rsa3kPrivate = EC_Rsa"
| "class_of_kind EK_Rsa4kPrivate = EC_Rsa"
| "class_of_kind EK_Rsa2kPrivateCrt = EC_RsaCrt"
| "class_of_kind EK_Rsa3kPrivateCrt = EC_RsaCrt"
| "class_of_kind EK_Rsa4kPrivateCrt = EC_RsaCrt"
| "class_of_kind EK_Ecc256Public = EC_Ecc"
| "class_of_kind EK_Ecc384Public = EC_Ecc"
| "class_of_kind EK_Ecc521Public = EC_Ecc"
| "class_of_kind EK_Ecc256Private = EC_Ecc"
| "class_of_kind EK_Ecc384Private = EC_Ecc"
| "class_of_kind EK_Ecc521Private = EC_Ecc"
| "class_of_kind EK_EstablishCred = EC_Ecc"
| "class_of_kind EK_SessionEncryption = EC_Ecc"
| "class_of_kind EK_Aes128 = EC_Aes"
| "class_of_kind EK_Aes192 = EC_Aes"
| "class_of_kind EK_Aes256 = EC_Aes"
| "class_of_kind EK_AesXtsBulk256 = EC_AesXtsBulk"
| "class_of_kind EK_AesGcmBulk256 = EC_AesGcmBulk"
| "class_of_kind EK_AesGcmBulk256Unapproved = EC_AesGcmBulkUnapproved"
| "class_of_kind EK_Secret256 = EC_Secret"
| "class_of_kind EK_Secret384 = EC_Secret"
| "class_of_kind EK_Secret521 = EC_Secret"
| "class_of_kind EK_Session = EC_Session"
| "class_of_kind EK_HmacSha256 = EC_Hmac"
| "class_of_kind EK_HmacSha384 = EC_Hmac"
| "class_of_kind EK_HmacSha512 = EC_Hmac"
| "class_of_kind EK_Free = EC_Free"
| "class_of_kind EK_MaskingKey = EC_MaskingKey"
| "class_of_kind EK_VarLenHmacSha256 = EC_VarLenHmacSha"
| "class_of_kind EK_VarLenHmacSha384 = EC_VarLenHmacSha"
| "class_of_kind EK_VarLenHmacSha512 = EC_VarLenHmacSha"

section \<open>Variable length HMAC kinds\<close>

datatype var_hmac_kind = VarLenHmacShaKey256 | VarLenHmacShaKey384 | VarLenHmacShaKey512

primrec max_length :: "var_hmac_kind \<Rightarrow> nat" where
  "max_length VarLenHmacShaKey256 = 64"
| "max_length VarLenHmacShaKey384 = 128"
| "max_length VarLenHmacShaKey512 = 128"

primrec min_length :: "var_hmac_kind \<Rightarrow> nat" where
  "min_length VarLenHmacShaKey256 = 32"
| "min_length VarLenHmacShaKey384 = 48"
| "min_length VarLenHmacShaKey512 = 64"

primrec entry_of_var_hmac_kind :: "var_hmac_kind \<Rightarrow> entry_kind" where
  "entry_of_var_hmac_kind VarLenHmacShaKey256 = EK_VarLenHmacSha256"
| "entry_of_var_hmac_kind VarLenHmacShaKey384 = EK_VarLenHmacSha384"
| "entry_of_var_hmac_kind VarLenHmacShaKey512 = EK_VarLenHmacSha512"

definition var_hmac_kind_of_entry :: "entry_kind \<Rightarrow> var_hmac_kind hsm_result" where
  "var_hmac_kind_of_entry k =
     (case k of
        EK_VarLenHmacSha256 \<Rightarrow> Ok VarLenHmacShaKey256
      | EK_VarLenHmacSha384 \<Rightarrow> Ok VarLenHmacShaKey384
      | EK_VarLenHmacSha512 \<Rightarrow> Ok VarLenHmacShaKey512
      | _ \<Rightarrow> Err InvalidKeyType)"

section \<open>Attributes\<close>

text \<open>
  The flags of an entry, one bit each from the least significant bit of a 64-bit word, in the
  order of the declaration; the upper 47 bits are reserved.
\<close>

datatype (plugins only: code size) attr_flag =
    AF_internal | AF_session | AF_private | AF_modifiable | AF_destroyable | AF_local
  | AF_extractable | AF_never_extractable | AF_trusted | AF_wrap_with_trusted | AF_encrypt
  | AF_decrypt | AF_sign | AF_verify | AF_wrap | AF_unwrap | AF_derive

primrec flag_pos :: "attr_flag \<Rightarrow> nat" where
  "flag_pos AF_internal = 0"
| "flag_pos AF_session = 1"
| "flag_pos AF_private = 2"
| "flag_pos AF_modifiable = 3"
| "flag_pos AF_destroyable = 4"
| "flag_pos AF_local = 5"
| "flag_pos AF_extractable = 6"
| "flag_pos AF_never_extractable = 7"
| "flag_pos AF_trusted = 8"
| "flag_pos AF_wrap_with_trusted = 9"
| "flag_pos AF_encrypt = 10"
| "flag_pos AF_decrypt = 11"
| "flag_pos AF_sign = 12"
| "flag_pos AF_verify = 13"
| "flag_pos AF_wrap = 14"
| "flag_pos AF_unwrap = 15"
| "flag_pos AF_derive = 16"

definition flag_get :: "attr_flag \<Rightarrow> u64 \<Rightarrow> bool" where
  "flag_get f w \<longleftrightarrow> bit w (flag_pos f)"

definition flag_set :: "attr_flag \<Rightarrow> bool \<Rightarrow> u64 \<Rightarrow> u64" where
  "flag_set f x w = (if x then set_bit (flag_pos f) w else unset_bit (flag_pos f) w)"

record entry_attributes =
  attr_flags :: u64
  attr_rsvd :: bytes
  entry_specific :: bytes

definition default_attributes :: entry_attributes where
  "default_attributes =
     \<lparr>attr_flags = 0,
      attr_rsvd = replicate (COMMON_ATTRIBUTES_BLOB_SIZE - 8) 0,
      entry_specific = replicate ENTRY_SPECIFIC_ATTRIBUTES_BLOB_SIZE 0\<rparr>"

text \<open>The two byte arrays have the lengths their Rust types fix.\<close>

definition attributes_wf :: "entry_attributes \<Rightarrow> bool" where
  "attributes_wf a \<longleftrightarrow>
     length (attr_rsvd a) = COMMON_ATTRIBUTES_BLOB_SIZE - 8 \<and>
     length (entry_specific a) = ENTRY_SPECIFIC_ATTRIBUTES_BLOB_SIZE"

text \<open>The byte image of the \<open>repr(C)\<close> structure on the little-endian target, and back.\<close>

definition attributes_as_bytes :: "entry_attributes \<Rightarrow> bytes" where
  "attributes_as_bytes a = le_bytes 8 (attr_flags a) @ attr_rsvd a @ entry_specific a"

definition attributes_of_bytes :: "bytes \<Rightarrow> entry_attributes" where
  "attributes_of_bytes bs =
     \<lparr>attr_flags = le_word (slice 0 8 bs),
      attr_rsvd = slice 8 (COMMON_ATTRIBUTES_BLOB_SIZE - 8) bs,
      entry_specific = slice COMMON_ATTRIBUTES_BLOB_SIZE ENTRY_SPECIFIC_ATTRIBUTES_BLOB_SIZE bs\<rparr>"

section \<open>Metadata of a table slot\<close>

record entry_flags =
  ef_disabled :: bool
  ef_session :: bool

definition default_entry_flags :: entry_flags where
  "default_entry_flags = \<lparr>ef_disabled = False, ef_session = False\<rparr>"

definition entry_flags_of :: "u64 \<Rightarrow> entry_flags" where
  "entry_flags_of w = default_entry_flags\<lparr>ef_session := flag_get AF_session w\<rparr>"

record physical_entry =
  pe_offset :: u16
  pe_flags :: entry_flags
  pe_session_id_or_key_tag :: u16
  pe_kind :: entry_kind
  pe_app_id :: u8

definition free_entry :: physical_entry where
  "free_entry =
     \<lparr>pe_offset = 0, pe_flags = default_entry_flags, pe_session_id_or_key_tag = 0,
      pe_kind = EK_Free, pe_app_id = 0\<rparr>"

definition raw_block_offset :: "physical_entry \<Rightarrow> u16" where
  "raw_block_offset e = pe_offset e"

definition attributes_bytes_offset :: "physical_entry \<Rightarrow> nat" where
  "attributes_bytes_offset e = unat (pe_offset e) * ENTRY_BLOB_BLOCK_ALIGNMENT"

definition key_blob_bytes_offset :: "physical_entry \<Rightarrow> nat" where
  "key_blob_bytes_offset e = attributes_bytes_offset e + ATTRIBUTES_BLOB_SIZE"

definition pe_session_id :: "physical_entry \<Rightarrow> u16 option" where
  "pe_session_id e =
     (if ef_session (pe_flags e) then Some (pe_session_id_or_key_tag e) else None)"

definition pe_key_tag :: "physical_entry \<Rightarrow> u16 option" where
  "pe_key_tag e =
     (if ef_session (pe_flags e) \<or> pe_session_id_or_key_tag e = KEY_TAG_UNASSIGNED then None
      else Some (pe_session_id_or_key_tag e))"

definition pe_is_empty :: "physical_entry \<Rightarrow> bool" where
  "pe_is_empty e \<longleftrightarrow> pe_kind e = EK_Free"

definition pe_disabled :: "physical_entry \<Rightarrow> bool" where
  "pe_disabled e \<longleftrightarrow> ef_disabled (pe_flags e)"

definition pe_disable :: "physical_entry \<Rightarrow> physical_entry" where
  "pe_disable e = e\<lparr>pe_flags := (pe_flags e)\<lparr>ef_disabled := True\<rparr>\<rparr>"

definition pe_enable :: "physical_entry \<Rightarrow> physical_entry" where
  "pe_enable e = e\<lparr>pe_flags := (pe_flags e)\<lparr>ef_disabled := False\<rparr>\<rparr>"

section \<open>Key numbers\<close>

definition key_number :: "u8 \<Rightarrow> u8 \<Rightarrow> u16" where
  "key_number table_index entry_index = push_bit 8 (ucast table_index) OR ucast entry_index"

definition key_number_table :: "u16 \<Rightarrow> u8" where
  "key_number_table n = ucast (drop_bit 8 n)"

definition key_number_entry :: "u16 \<Rightarrow> u8" where
  "key_number_entry n = ucast (n AND 0xff)"

section \<open>Facts about the data\<close>

lemma class_is_bulk_key_iff: "class_is_bulk_key (class_of_kind k) \<longleftrightarrow> is_bulk_key k"
  by (cases k) (auto simp: class_is_bulk_key_def is_bulk_key_def)

lemma raw_key_blob_size_Panic: "raw_key_blob_size k = Panic \<longleftrightarrow> is_var_hmac_key k"
  by (cases k) (auto simp: is_var_hmac_key_def)

lemma raw_key_blob_size_not_Err [simp]: "raw_key_blob_size k \<noteq> Err e"
  by (cases k) auto

lemma raw_key_blob_size_le: "raw_key_blob_size k = Ok n \<Longrightarrow> n \<le> 2564"
  by (cases k) auto

lemma raw_key_blob_size_pos: "raw_key_blob_size k = Ok n \<Longrightarrow> k \<noteq> EK_Free \<Longrightarrow> 2 \<le> n"
  by (cases k) auto

lemma is_var_hmac_key_cases:
  assumes "is_var_hmac_key k"
  obtains v where "k = entry_of_var_hmac_kind v" and "var_hmac_kind_of_entry k = Ok v"
proof -
  from assms consider "k = EK_VarLenHmacSha256" | "k = EK_VarLenHmacSha384" | "k = EK_VarLenHmacSha512"
    by (auto simp: is_var_hmac_key_def)
  then show ?thesis
    by cases (use that [of VarLenHmacShaKey256] that [of VarLenHmacShaKey384]
        that [of VarLenHmacShaKey512] in \<open>auto simp: var_hmac_kind_of_entry_def\<close>)
qed

lemma var_hmac_kind_roundtrip: "var_hmac_kind_of_entry (entry_of_var_hmac_kind v) = Ok v"
  by (cases v) (auto simp: var_hmac_kind_of_entry_def)

lemma var_hmac_bounds: "min_length v \<le> max_length v" "max_length v \<le> 128" "32 \<le> min_length v"
  by (cases v; simp)+

text \<open>Rounding up to whole blocks.\<close>

definition align8 :: "nat \<Rightarrow> nat" where
  "align8 n = (n + 7) div 8 * 8"

lemma align8_parts:
  assumes "r < 8"
  shows "align8 (8 * q + r) = (if r = 0 then 8 * q else 8 * q + 8)"
proof -
  have "(8 * q + r + 7) div 8 = q + (r + 7) div 8"
    using div_mult_self4 [of 8 q "r + 7"] by (simp add: add.assoc)
  moreover have "(r + 7) div 8 = (if r = 0 then 0 else 1)"
    using assms by (auto simp: div_nat_eqI)
  ultimately show ?thesis by (simp add: align8_def)
qed

lemma mod8_cases:
  fixes n :: nat
  obtains q r where "n = 8 * q + r" and "r < 8" and "n mod 8 = r"
  by (rule that [of "n div 8" "n mod 8"]) simp_all

lemma round_up_align8: "(if n mod 8 = 0 then n else n + (8 - n mod 8)) = align8 n"
  by (rule mod8_cases [of n]) (simp add: align8_parts)

lemma align8_bounds: "n \<le> align8 n" "align8 n < n + 8" "align8 n mod 8 = 0"
  by (rule mod8_cases [of n], simp add: align8_parts)+

lemma aligned_key_blob_size_eq:
  "aligned_key_blob_size k key_len =
     map_ok align8 (case key_len of Some len \<Rightarrow> Ok len | None \<Rightarrow> raw_key_blob_size k)"
  by (cases "case key_len of Some len \<Rightarrow> Ok len | None \<Rightarrow> raw_key_blob_size k")
     (auto simp: aligned_key_blob_size_def size_consts Let_def round_up_align8)

lemma storage_size_Some: "storage_size k (Some n) = Ok (32 + align8 n)"
  by (simp add: storage_size_def aligned_key_blob_size_eq size_consts)

lemma storage_size_None: "raw_key_blob_size k = Ok n \<Longrightarrow> storage_size k None = Ok (32 + align8 n)"
  by (simp add: storage_size_def aligned_key_blob_size_eq size_consts)

text \<open>Whole blocks taken by a blob of a given length, attributes included.\<close>

definition blocks_for :: "nat \<Rightarrow> nat" where
  "blocks_for n = (32 + align8 n) div 8"

lemma blocks_for_eq: "blocks_for n * 8 = 32 + align8 n"
  unfolding blocks_for_def align8_def by simp

lemma blocks_for_pos: "4 \<le> blocks_for n"
  unfolding blocks_for_def by simp

lemma blocks_for_fits: "32 + n \<le> blocks_for n * 8"
  using align8_bounds(1) [of n] by (simp add: blocks_for_eq)

subsection \<open>Flags\<close>

lemma flag_pos_less: "flag_pos f < 64"
  by (cases f) auto

lemma flag_pos_eq [simp]: "flag_pos f = flag_pos g \<longleftrightarrow> f = g"
  by (cases f; cases g) simp_all

lemma flag_get_set [simp]: "flag_get f (flag_set g x w) = (if f = g then x else flag_get f w)"
  using flag_pos_less [of f]
  by (auto simp: flag_get_def flag_set_def bit_set_bit_iff bit_unset_bit_iff)

lemma flag_get_zero [simp]: "\<not> flag_get f 0"
  by (simp add: flag_get_def)

lemma flag_set_commute: "f \<noteq> g \<Longrightarrow> flag_set f x (flag_set g y w) = flag_set g y (flag_set f x w)"
  by (rule bit_word_eqI) (auto simp: flag_set_def bit_set_bit_iff bit_unset_bit_iff)

subsection \<open>The byte image of the attributes\<close>

lemma attributes_wf_default [simp]: "attributes_wf default_attributes"
  by (simp add: attributes_wf_def default_attributes_def)

lemma length_attributes_as_bytes [simp]:
  "attributes_wf a \<Longrightarrow> length (attributes_as_bytes a) = ATTRIBUTES_BLOB_SIZE"
  by (simp add: attributes_as_bytes_def attributes_wf_def size_consts)

lemma attributes_of_as_bytes [simp]:
  "attributes_wf a \<Longrightarrow> attributes_of_bytes (attributes_as_bytes a) = a"
  by (cases a) (simp add: attributes_of_bytes_def attributes_as_bytes_def attributes_wf_def
      size_consts slice_def le_word_le_bytes)

lemma attributes_wf_of_bytes [simp]:
  "length bs = ATTRIBUTES_BLOB_SIZE \<Longrightarrow> attributes_wf (attributes_of_bytes bs)"
  by (simp add: attributes_wf_def attributes_of_bytes_def size_consts)

lemma attributes_as_of_bytes:
  assumes "length bs = ATTRIBUTES_BLOB_SIZE"
  shows "attributes_as_bytes (attributes_of_bytes bs) = bs"
proof -
  have "length (slice 0 8 bs) = 8" using assms by (simp add: size_consts)
  then have "le_bytes 8 (le_word (slice 0 8 bs) :: u64) = slice 0 8 bs"
    using le_bytes_le_word [where 'a = 64, of "slice 0 8 bs"] by simp
  moreover have "slice 0 8 bs @ slice 8 16 bs @ slice 24 8 bs = bs"
    using slice_all [of bs 32] slice_add [of 0 24 8 bs] slice_add [of 0 8 16 bs] assms
    by (simp add: size_consts)
  ultimately show ?thesis
    by (simp add: attributes_as_bytes_def attributes_of_bytes_def size_consts)
qed

lemma key_length_byte:
  assumes "length bs = ATTRIBUTES_BLOB_SIZE"
  shows "entry_specific (attributes_of_bytes bs) ! KEY_LENGTH_INDEX = bs ! 24"
  using assms by (simp add: attributes_of_bytes_def size_consts nth_slice)

subsection \<open>Key numbers\<close>

lemma key_number_table_number [simp]: "key_number_table (key_number ti ei) = ti"
  by (rule bit_word_eqI)
     (auto simp: key_number_table_def key_number_def bit_simps bit_ucast_iff bit_drop_bit_eq
       bit_or_iff bit_push_bit_iff dest: bit_imp_le_length)

lemma key_number_entry_ucast: "key_number_entry n = ucast n"
proof -
  have "(0xff :: u16) = mask 8" by (simp add: mask_eq_exp_minus_1)
  then have "n AND 0xff = take_bit 8 n" by (simp only: take_bit_eq_mask)
  then show ?thesis
    by (simp only: key_number_entry_def) (rule bit_word_eqI, simp add: bit_ucast_iff bit_take_bit_iff)
qed

lemma key_number_entry_number [simp]: "key_number_entry (key_number ti ei) = ei"
  by (rule bit_word_eqI)
     (auto simp: key_number_entry_ucast key_number_def bit_ucast_iff bit_or_iff bit_push_bit_iff)

lemma key_number_parts [simp]: "key_number (key_number_table n) (key_number_entry n) = n"
proof (rule bit_word_eqI)
  fix i
  assume "i < LENGTH(16)"
  then have "i < 16" by simp
  then show "bit (key_number (key_number_table n) (key_number_entry n)) i = bit n i"
    by (cases "i < 8") (auto simp: key_number_def key_number_table_def key_number_entry_ucast
        bit_ucast_iff bit_or_iff bit_push_bit_iff bit_drop_bit_eq)
qed

lemma key_number_inject [simp]: "key_number a b = key_number c d \<longleftrightarrow> a = c \<and> b = d"
  by (metis key_number_table_number key_number_entry_number)

end
