(* ===== verification/Block_Tracker.thy ===== *)
theory Block_Tracker
  imports Vault_Entry
begin

text \<open>
  The layout constants of a table and the tracker of its used blocks (\<open>vault/store/mod.rs\<close>, the
  constants of \<open>table.rs\<close>, \<open>tracker.rs\<close>): 64 words of 32 bits, of which the first 1888 bits each
  stand for an 8-byte block of the key memory. The tracker is a bitmap in the sense of the
  prelude; the search of \<open>PhysicalTable::add_entry\<close> for a run of free blocks is proved to find the
  first run that is long enough, and to count the free blocks when there is none.
\<close>

unbundle bit_operations_syntax

section \<open>Layout\<close>

definition MAX_TABLE_COUNT :: nat where
  "MAX_TABLE_COUNT = 65"

definition MAX_TABLE_ENTRY_COUNT :: nat where
  "MAX_TABLE_ENTRY_COUNT = 256"

definition TOTAL_TABLE_LEN :: nat where
  "TOTAL_TABLE_LEN = 17 * 1024"

definition METADATA_LIST_OFFSET :: nat where
  "METADATA_LIST_OFFSET = 0"

definition METADATA_LIST_SIZE_BYTES :: nat where
  "METADATA_LIST_SIZE_BYTES = 2048"

definition USED_BLOCK_TRACKING_OFFSET :: nat where
  "USED_BLOCK_TRACKING_OFFSET = METADATA_LIST_OFFSET + METADATA_LIST_SIZE_BYTES"

definition USED_BLOCK_TRACKING_SIZE_BYTES :: nat where
  "USED_BLOCK_TRACKING_SIZE_BYTES = 256"

definition USED_BLOCK_TRACKING_SIZE_WORDS :: nat where
  "USED_BLOCK_TRACKING_SIZE_WORDS = USED_BLOCK_TRACKING_SIZE_BYTES div 4"

definition BLOB_MEMORY_OFFSET :: nat where
  "BLOB_MEMORY_OFFSET = USED_BLOCK_TRACKING_OFFSET + USED_BLOCK_TRACKING_SIZE_BYTES"

definition BLOB_MEMORY_SIZE_BYTES :: nat where
  "BLOB_MEMORY_SIZE_BYTES = TOTAL_TABLE_LEN - BLOB_MEMORY_OFFSET"

lemma layout_values:
  "USED_BLOCK_TRACKING_SIZE_WORDS = 64" "BLOB_MEMORY_OFFSET = 2304"
  "BLOB_MEMORY_SIZE_BYTES = 15104" "TOTAL_TABLE_LEN = 17408" "MAX_TABLE_ENTRY_COUNT = 256"
  "MAX_TABLE_COUNT = 65" "ENTRY_BLOB_BLOCK_ALIGNMENT = 8"
  by (simp_all add: USED_BLOCK_TRACKING_SIZE_WORDS_def BLOB_MEMORY_OFFSET_def
      BLOB_MEMORY_SIZE_BYTES_def TOTAL_TABLE_LEN_def USED_BLOCK_TRACKING_SIZE_BYTES_def
      USED_BLOCK_TRACKING_OFFSET_def METADATA_LIST_OFFSET_def METADATA_LIST_SIZE_BYTES_def
      MAX_TABLE_ENTRY_COUNT_def MAX_TABLE_COUNT_def ENTRY_BLOB_BLOCK_ALIGNMENT_def)

section \<open>The tracker\<close>

type_synonym used_blocks = "u32 list"

definition tracker_get :: "used_blocks \<Rightarrow> nat \<Rightarrow> bool option" where
  "tracker_get ub i =
     (if i \<ge> USED_BLOCK_TRACKING_SIZE_WORDS * 32 then None
      else if i \<ge> BLOB_MEMORY_SIZE_BYTES div ENTRY_BLOB_BLOCK_ALIGNMENT then None
      else let w = ub ! (i div 32); b = i mod 32
           in Some (w AND push_bit b 1 \<noteq> 0))"

definition tracker_set :: "nat \<Rightarrow> bool \<Rightarrow> used_blocks \<Rightarrow> used_blocks" where
  "tracker_set i x ub =
     (if i \<ge> USED_BLOCK_TRACKING_SIZE_WORDS * 32 then ub
      else if i \<ge> BLOB_MEMORY_SIZE_BYTES div ENTRY_BLOB_BLOCK_ALIGNMENT then ub
      else let w = ub ! (i div 32); b = i mod 32
           in ub[i div 32 := (if x then w OR push_bit b 1 else w AND NOT (push_bit b 1))])"

definition tracker_inv :: "used_blocks \<Rightarrow> bool" where
  "tracker_inv ub \<longleftrightarrow> length ub = USED_BLOCK_TRACKING_SIZE_WORDS"

lemma and_exp_iff: "(w :: 'a::len word) AND 2 ^ b \<noteq> 0 \<longleftrightarrow> bit w b"
proof (cases "bit w b")
  case True
  then have "bit (w AND 2 ^ b) b"
    by (auto simp: bit_and_iff bit_exp_iff dest: bit_imp_le_length)
  then show ?thesis using True by auto
next
  case False
  have "w AND 2 ^ b = 0"
    by (rule bit_word_eqI) (use False in \<open>auto simp: bit_and_iff bit_exp_iff\<close>)
  then show ?thesis using False by simp
qed

lemma tracker_get_bit:
  "tracker_get ub i = (if i < 1888 then Some (bit (ub ! (i div 32)) (i mod 32)) else None)"
  by (simp add: tracker_get_def layout_values Let_def and_exp_iff)

lemma tracker_set_bit:
  "tracker_set i x ub = (if i < 1888
     then ub[i div 32 := (if x then set_bit (i mod 32) (ub ! (i div 32))
                          else unset_bit (i mod 32) (ub ! (i div 32)))]
     else ub)"
  by (simp add: tracker_set_def layout_values Let_def set_bit_eq_or unset_bit_eq_and_not)

lemma tracker_get_set:
  assumes "tracker_inv ub"
  shows "tracker_get (tracker_set i x ub) j =
    (if i = j \<and> i < 1888 then Some x else tracker_get ub j)"
proof (cases "i < 1888 \<and> j < 1888")
  case False
  then show ?thesis by (auto simp: tracker_get_bit tracker_set_bit)
next
  case True
  then have len: "i div 32 < length ub" "j div 32 < length ub"
    using assms by (auto simp: tracker_inv_def layout_values)
  have same: "i = j \<longleftrightarrow> i div 32 = j div 32 \<and> i mod 32 = j mod 32"
    by (metis div_mult_mod_eq)
  show ?thesis
    using True len same
    by (auto simp: tracker_get_bit tracker_set_bit nth_list_update bit_set_bit_iff
        bit_unset_bit_iff)
qed

lemma tracker_inv_set: "tracker_inv ub \<Longrightarrow> tracker_inv (tracker_set i x ub)"
  by (simp add: tracker_inv_def tracker_set_bit)

lemma tracker_get_None: "tracker_get ub i = None \<longleftrightarrow> 1888 \<le> i"
  by (simp add: tracker_get_bit)

interpretation tracker: bitmap tracker_get tracker_set 1888 tracker_inv
  by unfold_locales (rule tracker_get_None tracker_inv_set tracker_get_set; assumption?)+

section \<open>The search for free blocks\<close>

text \<open>
  The loop of \<open>add_entry\<close> over all blocks. The locals \<open>last_consecutive_free_slots_count\<close>,
  \<open>last_consecutive_free_slots_started_at\<close> and \<open>total_free_slots_count\<close> are carried along; the
  result is the run's first and last block when a run of \<open>need\<close> free blocks is complete (the
  \<open>break\<close>), together with the total of free blocks seen.
\<close>

function search_slot ::
  "used_blocks \<Rightarrow> nat \<Rightarrow> nat \<Rightarrow> nat \<Rightarrow> nat \<Rightarrow> nat \<Rightarrow> (nat \<times> nat) option \<times> nat" where
  "search_slot ub need index count started tot =
     (if index < BLOB_MEMORY_SIZE_BYTES div ENTRY_BLOB_BLOCK_ALIGNMENT then
        let used = (case tracker_get ub index of Some u \<Rightarrow> u | None \<Rightarrow> True);
            started' = (if used then 0 else if count = 0 then index else started);
            count' = (if used then 0 else count + 1);
            tot' = (if used then tot else tot + 1)
        in if need = count' then (Some (started', index), tot')
           else search_slot ub need (Suc index) count' started' tot'
      else (None, tot))"
  by pat_completeness auto
termination
  by (relation "measure (\<lambda>(ub, need, index, count, started, tot).
        BLOB_MEMORY_SIZE_BYTES div ENTRY_BLOB_BLOCK_ALIGNMENT - index)") auto

declare search_slot.simps [simp del]

text \<open>A block is free when its bit is present and clear; a run of free blocks.\<close>

definition blk_free :: "used_blocks \<Rightarrow> nat \<Rightarrow> bool" where
  "blk_free ub b \<longleftrightarrow> tracker_get ub b = Some False"

definition free_run :: "used_blocks \<Rightarrow> nat \<Rightarrow> nat \<Rightarrow> bool" where
  "free_run ub s n \<longleftrightarrow> (\<forall>b. s \<le> b \<and> b < s + n \<longrightarrow> blk_free ub b)"

definition free_below :: "used_blocks \<Rightarrow> nat \<Rightarrow> nat" where
  "free_below ub i = card {b. b < i \<and> blk_free ub b}"

lemma free_below_0 [simp]: "free_below ub 0 = 0"
  by (simp add: free_below_def)

lemma free_below_Suc [simp]:
  "free_below ub (Suc i) = free_below ub i + (if blk_free ub i then 1 else 0)"
proof -
  have "{b. b < Suc i \<and> blk_free ub b} =
      {b. b < i \<and> blk_free ub b} \<union> (if blk_free ub i then {i} else {})"
    by (auto simp: less_Suc_eq)
  then show ?thesis by (auto simp: free_below_def)
qed

lemma blk_free_less: "blk_free ub b \<Longrightarrow> b < 1888"
  by (auto simp: blk_free_def tracker_get_bit split: if_splits)

lemma free_run_less: "free_run ub s n \<Longrightarrow> 0 < n \<Longrightarrow> s + n \<le> 1888"
  using blk_free_less [of ub "s + n - 1"] by (auto simp: free_run_def)

text \<open>
  What the loop knows before block \<open>index\<close>: the current run ends there and is as long as
  possible, it is too short, no earlier run is long enough, and the free blocks are counted.
\<close>

definition search_inv :: "used_blocks \<Rightarrow> nat \<Rightarrow> nat \<Rightarrow> nat \<Rightarrow> nat \<Rightarrow> nat \<Rightarrow> bool" where
  "search_inv ub need index count started tot \<longleftrightarrow>
     count \<le> index \<and> count < need \<and>
     (0 < count \<longrightarrow> started = index - count) \<and>
     free_run ub (index - count) count \<and>
     (count < index \<longrightarrow> \<not> blk_free ub (index - count - 1)) \<and>
     (\<forall>s. s + need \<le> index \<longrightarrow> \<not> free_run ub s need) \<and>
     tot = free_below ub index"

lemma search_inv_start: "0 < need \<Longrightarrow> search_inv ub need 0 0 0 0"
  by (auto simp: search_inv_def free_run_def)

lemma no_run_over_used:
  assumes "\<not> blk_free ub i" and "\<And>s. s + need \<le> i \<Longrightarrow> \<not> free_run ub s need"
    and "0 < need" and "s + need \<le> Suc i"
  shows "\<not> free_run ub s need"
proof (cases "s + need \<le> i")
  case True
  then show ?thesis by (rule assms(2))
next
  case False
  then have "s \<le> i" "i < s + need" using assms(3,4) by auto
  then show ?thesis using assms(1) by (auto simp: free_run_def)
qed

lemma search_inv_used:
  assumes "search_inv ub need i count started tot" and "\<not> blk_free ub i"
  shows "search_inv ub need (Suc i) 0 0 tot"
proof -
  have "0 < need" using assms(1) by (auto simp: search_inv_def)
  then show ?thesis
    using assms no_run_over_used [OF assms(2), of need]
    by (auto simp: search_inv_def free_run_def)
qed

lemma search_inv_free:
  assumes inv: "search_inv ub need i count started tot" and free: "blk_free ub i"
    and short: "need \<noteq> count + 1"
  shows "search_inv ub need (Suc i) (count + 1) (if count = 0 then i else started) (tot + 1)"
proof -
  have run: "free_run ub (Suc i - (count + 1)) (count + 1)"
    using inv free by (auto simp: search_inv_def free_run_def less_Suc_eq)
  have "\<not> free_run ub s need" if "s + need \<le> Suc i" for s
  proof (cases "s + need \<le> i")
    case True
    then show ?thesis using inv by (auto simp: search_inv_def)
  next
    case False
    with that have s: "s + need = Suc i" by simp
    have c: "count < i" "\<not> blk_free ub (i - count - 1)"
      using inv short s by (auto simp: search_inv_def)
    have "count + 1 < need" using inv short by (auto simp: search_inv_def)
    then have "s \<le> i - count - 1" "i - count - 1 < s + need" using s c(1) by auto
    then show ?thesis using c(2) by (auto simp: free_run_def)
  qed
  then show ?thesis using inv run free short by (auto simp: search_inv_def)
qed

lemma search_slot_spec:
  assumes "search_inv ub need index count started tot" and "index \<le> 1888"
  shows "(\<exists>s. search_slot ub need index count started tot =
              (Some (s, s + need - 1), free_below ub (s + need)) \<and>
            free_run ub s need \<and> (\<forall>s' < s. \<not> free_run ub s' need))
       \<or> (search_slot ub need index count started tot = (None, free_below ub 1888) \<and>
            (\<forall>s. \<not> free_run ub s need))"
  using assms
proof (induction ub need index count started tot rule: search_slot.induct)
  case (1 ub need index count started tot)
  note inv = "1.prems"(1)
  have pos: "0 < need" using inv by (auto simp: search_inv_def)
  show ?case
  proof (cases "index < 1888")
    case False
    then have end_eq: "index = 1888" using "1.prems"(2) by simp
    have "search_slot ub need index count started tot = (None, tot)"
      using False by (simp add: search_slot.simps [of ub need index] layout_values)
    moreover have "\<forall>s. \<not> free_run ub s need"
      using inv free_run_less [OF _ pos, of ub] end_eq by (auto simp: search_inv_def)
    ultimately show ?thesis using inv end_eq by (simp add: search_inv_def)
  next
    case True
    have used: "(case tracker_get ub index of Some u \<Rightarrow> u | None \<Rightarrow> True) \<longleftrightarrow> \<not> blk_free ub index"
      by (auto simp: blk_free_def split: option.splits)
    show ?thesis
    proof (cases "blk_free ub index")
      case False
      have next_inv: "search_inv ub need (Suc index) 0 0 tot"
        by (rule search_inv_used [OF inv False])
      from "1.IH" [OF _ refl refl refl refl] True False next_inv pos used show ?thesis
        by (simp add: search_slot.simps [of ub need index] layout_values Let_def)
    next
      case free: True
      show ?thesis
      proof (cases "need = count + 1")
        case last: True
        have run: "free_run ub (index - count) need"
          using inv free last by (auto simp: search_inv_def free_run_def less_Suc_eq)
        have first: "\<not> free_run ub s' need" if "s' < index - count" for s'
          using that inv last by (auto simp: search_inv_def)
        have "search_slot ub need index count started tot =
            (Some (index - count, index - count + need - 1), free_below ub (index - count + need))"
        proof -
          have "search_slot ub need index count started tot =
              (Some (if count = 0 then index else started, index), tot + 1)"
            using True free last used by (subst search_slot.simps) (simp add: layout_values Let_def)
          moreover have "(if count = 0 then index else started) = index - count"
            "count \<le> index" "tot = free_below ub index"
            using inv by (auto simp: search_inv_def)
          ultimately show ?thesis using last free by simp
        qed
        then show ?thesis using run first by blast
      next
        case more: False
        have next_inv:
          "search_inv ub need (Suc index) (count + 1) (if count = 0 then index else started) (tot + 1)"
          by (rule search_inv_free [OF inv free more])
        from "1.IH" [OF _ refl refl refl refl] True free next_inv more used show ?thesis
          by (simp add: search_slot.simps [of ub need index] layout_values Let_def)
      qed
    qed
  qed
qed

end
