(* ===== verification/Physical_Table.thy ===== *)
theory Physical_Table
  imports Block_Tracker
begin

text \<open>
  One table of the key store (\<open>vault/store/table.rs\<close>): 256 slots of metadata, the tracker of used
  blocks and the key memory in which every entry owns a run of 8-byte blocks holding its
  attributes and its key blob. Every operation of \<open>PhysicalTable\<close> is a definition; the ones that
  take \<open>&mut self\<close> return the outcome and the table left behind, also when they fail.

  The invariant \<open>table_wf\<close> says that the runs of the entries are inside the memory and pairwise
  disjoint, that the tracker marks exactly the blocks of the entries, and that every byte outside
  a used block is zero, so no key material outlives its entry.
\<close>

unbundle bit_operations_syntax

section \<open>State\<close>

text \<open>
  \<open>pt_addr\<close> is the address the table is mapped at. The code never reads it, but the typed view of
  the attribute bytes (\<open>EntryAttributes::ref_from_bytes\<close>) is refused where it is not aligned.
\<close>

record physical_table =
  pt_addr :: nat
  entry_list :: "physical_entry list"
  used_block_tracking_memory :: used_blocks
  key_data_memory :: bytes

type_synonym 'a table_op = "physical_table \<Rightarrow> 'a hsm_result \<times> physical_table"

definition set_entry :: "u8 \<Rightarrow> physical_entry \<Rightarrow> physical_table \<Rightarrow> physical_table" where
  "set_entry i e t = t\<lparr>entry_list := (entry_list t)[unat i := e]\<rparr>"

section \<open>Reading\<close>

definition get_entry :: "physical_table \<Rightarrow> u8 \<Rightarrow> bool \<Rightarrow> physical_entry hsm_result" where
  "get_entry t entry_index allow_disabled =
     (let entry = entry_list t ! unat entry_index
      in if pe_is_empty entry then Err InvalidKeyIndex
         else if \<not> allow_disabled \<and> pe_disabled entry then Err InvalidKeyIndex
         else Ok entry)"

text \<open>The alignment of \<open>EntryAttributes\<close>, whose first field is a 64-bit integer.\<close>

definition ENTRY_ATTRIBUTES_ALIGN :: nat where
  "ENTRY_ATTRIBUTES_ALIGN = 8"

definition get_attributes_from_entry ::
  "physical_table \<Rightarrow> physical_entry \<Rightarrow> entry_attributes hsm_result" where
  "get_attributes_from_entry t entry =
     (let attributes_offset = attributes_bytes_offset entry
      in and_then (slice_get attributes_offset ATTRIBUTES_BLOB_SIZE (key_data_memory t))
           (\<lambda>attributes_slice.
              if (pt_addr t + BLOB_MEMORY_OFFSET + attributes_offset) mod ENTRY_ATTRIBUTES_ALIGN = 0
              then Ok (attributes_of_bytes attributes_slice)
              else Err InvalidKeyIndex))"

definition get_entry_attributes ::
  "physical_table \<Rightarrow> u8 \<Rightarrow> bool \<Rightarrow> entry_attributes hsm_result" where
  "get_entry_attributes t entry_index allow_disabled =
     and_then (get_entry t entry_index allow_disabled) (get_attributes_from_entry t)"

definition get_entry_blob :: "physical_table \<Rightarrow> u8 \<Rightarrow> bytes hsm_result" where
  "get_entry_blob t entry_index =
     and_then (get_entry t entry_index True) (\<lambda>entry.
       let kind = pe_kind entry in
       and_then
         (if is_var_hmac_key kind
          then map_ok (\<lambda>a. unat (entry_specific a ! KEY_LENGTH_INDEX)) (get_attributes_from_entry t entry)
          else raw_key_blob_size kind)
         (\<lambda>key_blob_size. slice_get (key_blob_bytes_offset entry) key_blob_size (key_data_memory t)))"

definition get_entry_index_by_tag :: "physical_table \<Rightarrow> u8 \<Rightarrow> u16 \<Rightarrow> u8 hsm_result" where
  "get_entry_index_by_tag t app_id key_tag =
     (if key_tag = KEY_TAG_UNASSIGNED then Err InvalidArgument
      else map_ok of_nat
             (ok_or (position (\<lambda>e. \<not> pe_is_empty e \<and> \<not> pe_disabled e \<and> pe_app_id e = app_id \<and>
                                    pe_key_tag e = Some key_tag) (entry_list t))
                    KeyNotFound))"

section \<open>Adding an entry\<close>

text \<open>The checks on the blob that come before the search.\<close>

definition expected_key_len :: "entry_attributes \<Rightarrow> entry_kind \<Rightarrow> nat hsm_result" where
  "expected_key_len attributes kind =
     (if is_var_hmac_key kind then
        let key_len = unat (entry_specific attributes ! KEY_LENGTH_INDEX)
        in and_then (var_hmac_kind_of_entry kind) (\<lambda>var_hmac_key_kind.
             if key_len < min_length var_hmac_key_kind \<or> key_len > max_length var_hmac_key_kind
             then Err InvalidArgument else Ok key_len)
      else raw_key_blob_size kind)"

definition add_entry ::
  "entry_attributes \<Rightarrow> u16 \<Rightarrow> entry_kind \<Rightarrow> u8 \<Rightarrow> bytes \<Rightarrow> u8 table_op" where
  "add_entry attributes session_id_or_key_tag kind app_id blob t =
     try_in (expected_key_len attributes kind) t (\<lambda>key_len.
       if length blob \<noteq> key_len then (Err InvalidArgument, t)
       else if kind = EK_Free then (Err InvalidArgument, t)
       else
         try_in (storage_size kind (if is_var_hmac_key kind then Some (length blob) else None)) t
           (\<lambda>size_needed.
             let blocks_needed = size_needed div ENTRY_BLOB_BLOCK_ALIGNMENT in
             try_in (ok_or (position pe_is_empty (entry_list t)) NotEnoughSpace) t
               (\<lambda>entry_number_to_use.
                 case search_slot (used_block_tracking_memory t) blocks_needed 0 0 0 0 of
                   (None, total_free_slots_count) \<Rightarrow>
                     (if blocks_needed > total_free_slots_count then (Err NotEnoughSpace, t)
                      else (Err DefragNeeded, t))
                 | (Some (started_at, ended_at), _) \<Rightarrow>
                     let t1 = t\<lparr>used_block_tracking_memory :=
                            fold (\<lambda>i. tracker_set i True) [started_at..<Suc ended_at]
                              (used_block_tracking_memory t)\<rparr>;
                         offset = (of_nat started_at :: u16);
                         entry_index = (of_nat entry_number_to_use :: u8);
                         attributes_offset = unat offset * ENTRY_BLOB_BLOCK_ALIGNMENT;
                         key_blob_offset = attributes_offset + ATTRIBUTES_BLOB_SIZE
                     in try_in (copy_into attributes_offset ATTRIBUTES_BLOB_SIZE
                                  (attributes_as_bytes attributes) (key_data_memory t1)) t1 (\<lambda>mem1.
                        let t2 = t1\<lparr>key_data_memory := mem1\<rparr>
                        in try_in (copy_into key_blob_offset (length blob) blob mem1) t2 (\<lambda>mem2.
                           let entry = \<lparr>pe_offset = offset,
                                        pe_flags = entry_flags_of (attr_flags attributes),
                                        pe_session_id_or_key_tag = session_id_or_key_tag,
                                        pe_kind = kind, pe_app_id = app_id\<rparr>
                           in (Ok entry_index,
                               t2\<lparr>key_data_memory := mem2,
                                  entry_list := (entry_list t2)[entry_number_to_use := entry]\<rparr>))))))"

section \<open>Changing and removing entries\<close>

definition enable_entry :: "u8 \<Rightarrow> unit table_op" where
  "enable_entry entry_index t =
     try_in (get_entry t entry_index True) t (\<lambda>entry.
       (Ok (), set_entry entry_index (pe_enable entry) t))"

definition disable_entry :: "u8 \<Rightarrow> unit table_op" where
  "disable_entry entry_index t =
     try_in (get_entry t entry_index True) t (\<lambda>entry.
       (Ok (), set_entry entry_index (pe_disable entry) t))"

definition remove_entry :: "(u16 \<Rightarrow> bool) \<Rightarrow> u8 \<Rightarrow> u8 \<Rightarrow> unit table_op" where
  "remove_entry key_in_use_cb table_index entry_index t =
     try_in (get_entry_attributes t entry_index True) t (\<lambda>attributes.
     let key_length_in_attributes = unat (entry_specific attributes ! KEY_LENGTH_INDEX) in
     try_in (get_entry t entry_index True) t (\<lambda>entry.
       if key_in_use_cb (key_number table_index entry_index)
       then (Err CannotDeleteKeyInUse, set_entry entry_index (pe_disable entry) t)
       else
         let entry_storage_offset = attributes_bytes_offset entry;
             kind = pe_kind entry
         in try_in (storage_size kind
                      (if is_var_hmac_key kind then Some key_length_in_attributes else None)) t
              (\<lambda>size.
                let entry_raw_offset = unat (raw_block_offset entry);
                    t1 = set_entry entry_index free_entry t
                in try_in (copy_into entry_storage_offset size (replicate size 0) (key_data_memory t1))
                     t1 (\<lambda>mem.
                       (Ok (), t1\<lparr>key_data_memory := mem,
                                  used_block_tracking_memory :=
                                    fold (\<lambda>i. tracker_set (entry_raw_offset + i) False)
                                      [0..<size div ENTRY_BLOB_BLOCK_ALIGNMENT]
                                      (used_block_tracking_memory t1)\<rparr>)))))"

text \<open>
  The loop shared by the two bulk removals: over all slots, remove the non-empty ones that
  satisfy a predicate and count successes and failures in 8-bit counters.
\<close>

fun remove_matching ::
  "(physical_entry \<Rightarrow> bool) \<Rightarrow> (u16 \<Rightarrow> bool) \<Rightarrow> u8 \<Rightarrow> nat list \<Rightarrow> u8 \<Rightarrow> u8 \<Rightarrow> (u8 \<times> u8) table_op" where
  "remove_matching p cb table_index [] delete_count failed_delete_count t =
     (Ok (delete_count, failed_delete_count), t)"
| "remove_matching p cb table_index (i # is) delete_count failed_delete_count t =
     (let entry = entry_list t ! i in
      if pe_is_empty entry then remove_matching p cb table_index is delete_count failed_delete_count t
      else if p entry then
        (case remove_entry cb table_index (of_nat i) t of
           (Ok _, t') \<Rightarrow> remove_matching p cb table_index is (delete_count + 1) failed_delete_count t'
         | (Err _, t') \<Rightarrow> remove_matching p cb table_index is delete_count (failed_delete_count + 1) t'
         | (Panic, t') \<Rightarrow> (Panic, t'))
      else remove_matching p cb table_index is delete_count failed_delete_count t)"

definition bulk_result :: "u8 \<times> u8 \<Rightarrow> u8 hsm_result" where
  "bulk_result r =
     (if snd r = 0 then Ok (fst r)
      else if snd r = 1 then Err CannotDeleteKeyInUse
      else Err CannotDeleteSomeKeysInUse)"

definition remove_all_session_only_entries :: "(u16 \<Rightarrow> bool) \<Rightarrow> u8 \<Rightarrow> u16 \<Rightarrow> u8 table_op" where
  "remove_all_session_only_entries key_in_use_cb table_index session_id t =
     (case remove_matching
             (\<lambda>e. ef_session (pe_flags e) \<and> pe_session_id e = Some session_id)
             key_in_use_cb table_index [0..<MAX_TABLE_ENTRY_COUNT] 0 0 t of
        (r, t') \<Rightarrow> (and_then r bulk_result, t'))"

definition remove_all_entries_for_app :: "(u16 \<Rightarrow> bool) \<Rightarrow> u8 \<Rightarrow> u8 \<Rightarrow> u8 table_op" where
  "remove_all_entries_for_app key_in_use_cb table_index app_id t =
     (case remove_matching (\<lambda>e. pe_app_id e = app_id)
             key_in_use_cb table_index [0..<MAX_TABLE_ENTRY_COUNT] 0 0 t of
        (r, t') \<Rightarrow> (and_then r bulk_result, t'))"

definition nuke :: "physical_table \<Rightarrow> physical_table" where
  "nuke t = t\<lparr>entry_list := map (\<lambda>_. free_entry) (entry_list t),
              used_block_tracking_memory := map (\<lambda>_. 0) (used_block_tracking_memory t),
              key_data_memory := map (\<lambda>_. 0) (key_data_memory t)\<rparr>"

end
