(* ===== verification/Key_Map.thy ===== *)
theory Key_Map
  imports Vault_Entry
begin

text \<open>
  What the key store promises to its callers, without offsets, blocks or tables: a map from key
  identifiers to stored keys, the effect of every operation on that map, and the contract
  \<open>key_map\<close> between an implementation and the map. The contract is met twice: by a single table
  (\<open>Table_Correct\<close>, identifiers are slots) and by the whole store (\<open>Key_Store\<close>, identifiers are
  key numbers).
\<close>

section \<open>Stored keys\<close>

record stored_key =
  sk_kind :: entry_kind
  sk_app_id :: u8
  sk_session_id_or_key_tag :: u16
  sk_flags :: entry_flags
  sk_attributes :: entry_attributes
  sk_blob :: bytes

definition new_key :: "entry_attributes \<Rightarrow> u16 \<Rightarrow> entry_kind \<Rightarrow> u8 \<Rightarrow> bytes \<Rightarrow> stored_key" where
  "new_key attributes session_id_or_key_tag kind app_id blob =
     \<lparr>sk_kind = kind, sk_app_id = app_id, sk_session_id_or_key_tag = session_id_or_key_tag,
      sk_flags = entry_flags_of (attr_flags attributes), sk_attributes = attributes, sk_blob = blob\<rparr>"

definition sk_disabled :: "stored_key \<Rightarrow> bool" where
  "sk_disabled k = ef_disabled (sk_flags k)"

definition sk_set_disabled :: "bool \<Rightarrow> stored_key \<Rightarrow> stored_key" where
  "sk_set_disabled x k = k\<lparr>sk_flags := (sk_flags k)\<lparr>ef_disabled := x\<rparr>\<rparr>"

lemma sk_set_disabled_simps [simp]:
  "sk_disabled (sk_set_disabled x k) = x"
  "sk_kind (sk_set_disabled x k) = sk_kind k" "sk_app_id (sk_set_disabled x k) = sk_app_id k"
  "sk_session_id_or_key_tag (sk_set_disabled x k) = sk_session_id_or_key_tag k"
  "ef_session (sk_flags (sk_set_disabled x k)) = ef_session (sk_flags k)"
  "sk_attributes (sk_set_disabled x k) = sk_attributes k" "sk_blob (sk_set_disabled x k) = sk_blob k"
  by (simp_all add: sk_disabled_def sk_set_disabled_def)

text \<open>The tag of a key that is not bound to a session, and the session of one that is.\<close>

definition sk_key_tag :: "stored_key \<Rightarrow> u16 option" where
  "sk_key_tag k =
     (if ef_session (sk_flags k) \<or> sk_session_id_or_key_tag k = KEY_TAG_UNASSIGNED then None
      else Some (sk_session_id_or_key_tag k))"

definition sk_session_id :: "stored_key \<Rightarrow> u16 option" where
  "sk_session_id k = (if ef_session (sk_flags k) then Some (sk_session_id_or_key_tag k) else None)"

section \<open>The effect of the operations on the map\<close>

type_synonym 'k kmap = "'k \<Rightarrow> stored_key option"

definition spec_set_disabled :: "bool \<Rightarrow> 'k \<Rightarrow> 'k kmap \<Rightarrow> unit hsm_result \<times> 'k kmap" where
  "spec_set_disabled x i m =
     (case m i of None \<Rightarrow> (Err InvalidKeyIndex, m)
      | Some k \<Rightarrow> (Ok (), m(i \<mapsto> sk_set_disabled x k)))"

text \<open>A key in use is not removed but disabled.\<close>

definition spec_remove :: "('k \<Rightarrow> bool) \<Rightarrow> 'k \<Rightarrow> 'k kmap \<Rightarrow> unit hsm_result \<times> 'k kmap" where
  "spec_remove busy i m =
     (case m i of None \<Rightarrow> (Err InvalidKeyIndex, m)
      | Some k \<Rightarrow> if busy i then (Err CannotDeleteKeyInUse, m(i \<mapsto> sk_set_disabled True k))
                 else (Ok (), m(i := None)))"

definition spec_attributes :: "'k \<Rightarrow> bool \<Rightarrow> 'k kmap \<Rightarrow> entry_attributes hsm_result" where
  "spec_attributes i allow_disabled m =
     (case m i of None \<Rightarrow> Err InvalidKeyIndex
      | Some k \<Rightarrow> if \<not> allow_disabled \<and> sk_disabled k then Err InvalidKeyIndex
                 else Ok (sk_attributes k))"

definition spec_blob :: "'k \<Rightarrow> 'k kmap \<Rightarrow> bytes hsm_result" where
  "spec_blob i m = (case m i of None \<Rightarrow> Err InvalidKeyIndex | Some k \<Rightarrow> Ok (sk_blob k))"

text \<open>Removing every selected key: the ones in use stay behind, disabled.\<close>

definition bulk_entry :: "(stored_key \<Rightarrow> bool) \<Rightarrow> bool \<Rightarrow> stored_key option \<Rightarrow> stored_key option" where
  "bulk_entry sel busy k =
     (case k of None \<Rightarrow> None
      | Some k \<Rightarrow> if sel k then (if busy then Some (sk_set_disabled True k) else None) else Some k)"

definition bulk_map :: "(stored_key \<Rightarrow> bool) \<Rightarrow> ('k \<Rightarrow> bool) \<Rightarrow> 'k kmap \<Rightarrow> 'k kmap" where
  "bulk_map sel busy m = (\<lambda>i. bulk_entry sel (busy i) (m i))"

definition is_selected :: "(stored_key \<Rightarrow> bool) \<Rightarrow> stored_key option \<Rightarrow> bool" where
  "is_selected sel k = (case k of None \<Rightarrow> False | Some k \<Rightarrow> sel k)"

definition of_session :: "u16 \<Rightarrow> stored_key \<Rightarrow> bool" where
  "of_session session_id k \<longleftrightarrow> sk_session_id k = Some session_id"

definition of_app :: "u8 \<Rightarrow> stored_key \<Rightarrow> bool" where
  "of_app app_id k \<longleftrightarrow> sk_app_id k = app_id"

section \<open>The contract\<close>

text \<open>
  An operation on the implementation state follows an operation on the map: from a good state it
  ends in a good state, with the result and the map of the specification.
\<close>

definition follows ::
  "('s \<Rightarrow> bool) \<Rightarrow> ('s \<Rightarrow> 'm) \<Rightarrow> ('s \<Rightarrow> 'r \<times> 's) \<Rightarrow> ('m \<Rightarrow> 'r \<times> 'm) \<Rightarrow> bool" where
  "follows good view step spec \<longleftrightarrow>
     (\<forall>s. good s \<longrightarrow> good (snd (step s)) \<and> (fst (step s), view (snd (step s))) = spec (view s))"

lemma followsI:
  assumes "\<And>s. good s \<Longrightarrow> good (snd (step s))"
    and "\<And>s. good s \<Longrightarrow> (fst (step s), view (snd (step s))) = spec (view s)"
  shows "follows good view step spec"
  using assms by (simp add: follows_def)

lemma followsD:
  assumes "follows good view step spec" and "good s" and "step s = (r, s')"
  shows "good s'" and "r = fst (spec (view s))" and "view s' = snd (spec (view s))"
proof -
  have "good s' \<and> (r, view s') = spec (view s)" using assms unfolding follows_def by force
  then show "good s'" "r = fst (spec (view s))" "view s' = snd (spec (view s))" by (metis fst_conv snd_conv)+
qed

locale key_map =
  fixes good :: "'s \<Rightarrow> bool"
    and view :: "'s \<Rightarrow> 'k kmap"
    and number :: "'k \<Rightarrow> u16"
    and add :: "entry_attributes \<Rightarrow> u16 \<Rightarrow> entry_kind \<Rightarrow> u8 \<Rightarrow> bytes \<Rightarrow> 's \<Rightarrow> 'k hsm_result \<times> 's"
    and enable :: "'k \<Rightarrow> 's \<Rightarrow> unit hsm_result \<times> 's"
    and disable :: "'k \<Rightarrow> 's \<Rightarrow> unit hsm_result \<times> 's"
    and remove :: "(u16 \<Rightarrow> bool) \<Rightarrow> 'k \<Rightarrow> 's \<Rightarrow> unit hsm_result \<times> 's"
    and wipe :: "'s \<Rightarrow> 's"
    and attributes :: "'s \<Rightarrow> 'k \<Rightarrow> bool \<Rightarrow> entry_attributes hsm_result"
    and blob :: "'s \<Rightarrow> 'k \<Rightarrow> bytes hsm_result"
  assumes add_Ok: "good s \<Longrightarrow> attributes_wf a \<Longrightarrow> add a tag kind app b s = (Ok i, s') \<Longrightarrow>
            good s' \<and> view s i = None \<and> view s' = (view s)(i \<mapsto> new_key a tag kind app b)"
    and add_fail: "good s \<Longrightarrow> attributes_wf a \<Longrightarrow> add a tag kind app b s = (r, s') \<Longrightarrow> \<not> is_ok r \<Longrightarrow>
            s' = s \<and> r \<noteq> Panic"
    and enable: "follows good view (enable i) (spec_set_disabled False i)"
    and disable: "follows good view (disable i) (spec_set_disabled True i)"
    and remove: "follows good view (remove cb i) (spec_remove (\<lambda>i. cb (number i)) i)"
    and wipe: "good s \<Longrightarrow> good (wipe s) \<and> view (wipe s) = Map.empty"
    and attributes: "good s \<Longrightarrow> attributes s i allow = spec_attributes i allow (view s)"
    and blob: "good s \<Longrightarrow> blob s i = spec_blob i (view s)"
begin

text \<open>One operation of a client.\<close>

inductive client_step :: "'k set \<Rightarrow> 's \<Rightarrow> 's \<Rightarrow> bool" where
  step_add: "attributes_wf a \<Longrightarrow> add a tag kind app b s = (r, s') \<Longrightarrow> client_step {} s s'"
| step_enable: "enable i s = (r, s') \<Longrightarrow> client_step {i} s s'"
| step_disable: "disable i s = (r, s') \<Longrightarrow> client_step {i} s s'"
| step_remove: "remove cb i s = (r, s') \<Longrightarrow> client_step {i} s s'"
| step_wipe: "client_step UNIV s (wipe s)"

text \<open>Any number of operations, with the identifiers they name.\<close>

inductive client_run :: "'k set \<Rightarrow> 's \<Rightarrow> 's \<Rightarrow> bool" where
  run_refl: "client_run {} s s"
| run_step: "client_run A s s' \<Longrightarrow> client_step B s' s'' \<Longrightarrow> client_run (A \<union> B) s s''"

lemma client_step_good: "client_step A s s' \<Longrightarrow> good s \<Longrightarrow> good s'"
proof (induction rule: client_step.induct)
  case (step_add a tag kind app b s r s')
  then show ?case
    using add_Ok [of s a tag kind app b _ s'] add_fail [of s a tag kind app b r s']
    by (cases r) auto
qed (use followsD(1) [OF enable] followsD(1) [OF disable] followsD(1) [OF remove] wipe in blast)+

lemma client_step_keeps:
  "client_step A s s' \<Longrightarrow> good s \<Longrightarrow> i \<notin> A \<Longrightarrow> view s i = Some k \<Longrightarrow> view s' i = Some k"
proof (induction rule: client_step.induct)
  case (step_add a tag kind app b s r s')
  then show ?case
    using add_Ok [of s a tag kind app b _ s'] add_fail [of s a tag kind app b r s']
    by (cases r) auto
next
  case (step_enable j s r s')
  then show ?case
    using followsD(3) [OF enable step_enable(2,1)] by (simp add: spec_set_disabled_def split: option.splits)
next
  case (step_disable j s r s')
  then show ?case
    using followsD(3) [OF disable step_disable(2,1)] by (simp add: spec_set_disabled_def split: option.splits)
next
  case (step_remove cb j s r s')
  then show ?case
    using followsD(3) [OF remove step_remove(2,1)] by (simp add: spec_remove_def split: option.splits)
qed simp

lemma client_run_good: "client_run A s s' \<Longrightarrow> good s \<Longrightarrow> good s'"
  by (induction rule: client_run.induct) (auto intro: client_step_good)

text \<open>
  A key that was added reads back the same after any operations that do not name it.
\<close>

lemma client_run_keeps:
  "client_run A s s' \<Longrightarrow> good s \<Longrightarrow> i \<notin> A \<Longrightarrow> view s i = Some k \<Longrightarrow> view s' i = Some k"
  by (induction rule: client_run.induct) (auto intro: client_step_keeps client_run_good)

lemma added_key_reads_back:
  assumes "good s" and "attributes_wf a" and "add a tag kind app b s = (Ok i, s1)"
    and "client_run A s1 s2" and "i \<notin> A"
  shows "blob s2 i = Ok b" and "attributes s2 i True = Ok a"
proof -
  have s1: "good s1" "view s1 i = Some (new_key a tag kind app b)"
    using add_Ok [OF assms(1-3)] by auto
  have "view s2 i = Some (new_key a tag kind app b)" "good s2"
    using client_run_keeps [OF assms(4) s1(1) assms(5) s1(2)] client_run_good [OF assms(4) s1(1)] by auto
  then show "blob s2 i = Ok b" "attributes s2 i True = Ok a"
    by (simp_all add: blob attributes spec_blob_def spec_attributes_def new_key_def)
qed

lemma removed_key_is_gone:
  assumes "good s" and "remove cb i s = (Ok (), s')"
  shows "view s' i = None" and "blob s' i = Err InvalidKeyIndex"
proof -
  show "view s' i = None"
    using followsD(2,3) [OF remove assms] by (auto simp: spec_remove_def split: option.splits if_splits)
  then show "blob s' i = Err InvalidKeyIndex"
    using followsD(1) [OF remove assms] by (simp add: blob spec_blob_def)
qed

end

end
