(* ===== verification/Table_Correct.thy ===== *)
theory Table_Correct
  imports Physical_Table Key_Map
begin

text \<open>
  Correctness of one table of the key store. The entries of a table are read back as a map from
  slots to stored keys (\<open>table_view\<close>), which forgets offsets and blocks; under the invariant
  \<open>table_wf\<close> every operation of \<open>Physical_Table\<close> acts on that map the way its name says, keeps the
  invariant and never panics.
\<close>

section \<open>The map of stored keys\<close>

definition entry_key_len :: "bytes \<Rightarrow> physical_entry \<Rightarrow> nat" where
  "entry_key_len mem e =
     (if is_var_hmac_key (pe_kind e) then unat (mem ! (attributes_bytes_offset e + 24))
      else case raw_key_blob_size (pe_kind e) of Ok n \<Rightarrow> n | _ \<Rightarrow> 0)"

definition stored_of :: "bytes \<Rightarrow> physical_entry \<Rightarrow> stored_key" where
  "stored_of mem e =
     \<lparr>sk_kind = pe_kind e, sk_app_id = pe_app_id e,
      sk_session_id_or_key_tag = pe_session_id_or_key_tag e, sk_flags = pe_flags e,
      sk_attributes = attributes_of_bytes (slice (attributes_bytes_offset e) ATTRIBUTES_BLOB_SIZE mem),
      sk_blob = slice (key_blob_bytes_offset e) (entry_key_len mem e) mem\<rparr>"

definition table_view :: "physical_table \<Rightarrow> u8 \<Rightarrow> stored_key option" where
  "table_view t i =
     (let e = entry_list t ! unat i
      in if pe_is_empty e then None else Some (stored_of (key_data_memory t) e))"

section \<open>The invariant\<close>

definition entry_first :: "physical_entry \<Rightarrow> nat" where
  "entry_first e = unat (pe_offset e)"

definition entry_span :: "bytes \<Rightarrow> physical_entry \<Rightarrow> nat" where
  "entry_span mem e = blocks_for (entry_key_len mem e)"

text \<open>The entry owns the block.\<close>

definition owns :: "bytes \<Rightarrow> physical_entry \<Rightarrow> nat \<Rightarrow> bool" where
  "owns mem e b \<longleftrightarrow> \<not> pe_is_empty e \<and> entry_first e \<le> b \<and> b < entry_first e + entry_span mem e"

definition entry_wf :: "bytes \<Rightarrow> physical_entry \<Rightarrow> bool" where
  "entry_wf mem e =
     (if pe_is_empty e then e = free_entry
      else entry_first e + entry_span mem e \<le> 1888 \<and>
           (is_var_hmac_key (pe_kind e) \<longrightarrow>
              (case var_hmac_kind_of_entry (pe_kind e) of
                 Ok v \<Rightarrow> min_length v \<le> entry_key_len mem e \<and> entry_key_len mem e \<le> max_length v
               | _ \<Rightarrow> False)))"

definition table_wf :: "physical_table \<Rightarrow> bool" where
  "table_wf t \<longleftrightarrow>
     length (entry_list t) = MAX_TABLE_ENTRY_COUNT \<and>
     tracker_inv (used_block_tracking_memory t) \<and>
     length (key_data_memory t) = BLOB_MEMORY_SIZE_BYTES \<and>
     pt_addr t mod ENTRY_ATTRIBUTES_ALIGN = 0 \<and>
     (\<forall>i < 256. entry_wf (key_data_memory t) (entry_list t ! i)) \<and>
     (\<forall>i < 256. \<forall>j < 256. \<forall>b < 1888. i \<noteq> j \<longrightarrow>
        \<not> (owns (key_data_memory t) (entry_list t ! i) b \<and> owns (key_data_memory t) (entry_list t ! j) b)) \<and>
     (\<forall>b < 1888. blk_free (used_block_tracking_memory t) b \<longleftrightarrow>
        \<not> (\<exists>i < 256. owns (key_data_memory t) (entry_list t ! i) b)) \<and>
     (\<forall>b < 1888. blk_free (used_block_tracking_memory t) b \<longrightarrow>
        (\<forall>k < 8. key_data_memory t ! (8 * b + k) = 0))"

lemmas table_consts =
  layout_values size_consts ENTRY_ATTRIBUTES_ALIGN_def

lemma table_wf_lengths:
  assumes "table_wf t"
  shows "length (entry_list t) = 256" "length (key_data_memory t) = 15104"
    "tracker_inv (used_block_tracking_memory t)" "pt_addr t mod 8 = 0"
  using assms by (simp_all add: table_wf_def table_consts)

lemma table_wf_entry: "table_wf t \<Longrightarrow> i < 256 \<Longrightarrow> entry_wf (key_data_memory t) (entry_list t ! i)"
  by (simp add: table_wf_def)

lemma table_wf_disjoint:
  assumes "table_wf t" and "owns (key_data_memory t) (entry_list t ! i) b"
    and "owns (key_data_memory t) (entry_list t ! j) b" and "i < 256" "j < 256" "b < 1888"
  shows "i = j"
  using assms unfolding table_wf_def by blast

lemma table_wf_free:
  "table_wf t \<Longrightarrow> b < 1888 \<Longrightarrow> blk_free (used_block_tracking_memory t) b \<longleftrightarrow>
    \<not> (\<exists>i < 256. owns (key_data_memory t) (entry_list t ! i) b)"
  by (simp add: table_wf_def)

lemma table_wf_zero:
  "table_wf t \<Longrightarrow> b < 1888 \<Longrightarrow> blk_free (used_block_tracking_memory t) b \<Longrightarrow> k < 8 \<Longrightarrow>
    key_data_memory t ! (8 * b + k) = 0"
  by (simp add: table_wf_def)

lemma table_wfI:
  assumes "length (entry_list t) = 256" "length (key_data_memory t) = 15104"
    "tracker_inv (used_block_tracking_memory t)" "pt_addr t mod 8 = 0"
    and "\<And>i. i < 256 \<Longrightarrow> entry_wf (key_data_memory t) (entry_list t ! i)"
    and "\<And>i j b. i < 256 \<Longrightarrow> j < 256 \<Longrightarrow> b < 1888 \<Longrightarrow> owns (key_data_memory t) (entry_list t ! i) b \<Longrightarrow>
           owns (key_data_memory t) (entry_list t ! j) b \<Longrightarrow> i = j"
    and "\<And>b. b < 1888 \<Longrightarrow> blk_free (used_block_tracking_memory t) b \<longleftrightarrow>
           \<not> (\<exists>i < 256. owns (key_data_memory t) (entry_list t ! i) b)"
    and "\<And>b k. b < 1888 \<Longrightarrow> blk_free (used_block_tracking_memory t) b \<Longrightarrow> k < 8 \<Longrightarrow>
           key_data_memory t ! (8 * b + k) = 0"
  shows "table_wf t"
  unfolding table_wf_def table_consts using assms by simp blast

section \<open>Entries depend only on their own blocks\<close>

lemma entry_offsets:
  "attributes_bytes_offset e = 8 * entry_first e" "key_blob_bytes_offset e = 8 * entry_first e + 32"
  by (simp_all add: attributes_bytes_offset_def key_blob_bytes_offset_def entry_first_def size_consts)

lemma entry_span_bounds:
  "4 \<le> entry_span mem e" "32 + entry_key_len mem e \<le> 8 * entry_span mem e"
  using blocks_for_pos blocks_for_fits by (simp_all add: entry_span_def mult.commute)

text \<open>Two memories agree on the blocks of an entry.\<close>

definition agree_on :: "nat \<Rightarrow> nat \<Rightarrow> bytes \<Rightarrow> bytes \<Rightarrow> bool" where
  "agree_on s n mem mem' \<longleftrightarrow> (\<forall>k. 8 * s \<le> k \<and> k < 8 * (s + n) \<longrightarrow> mem' ! k = mem ! k)"

lemma entry_key_len_cong:
  assumes "agree_on (entry_first e) (entry_span mem e) mem mem'"
  shows "entry_key_len mem' e = entry_key_len mem e"
proof -
  have "mem' ! (8 * entry_first e + 24) = mem ! (8 * entry_first e + 24)"
    using assms entry_span_bounds(1) [of mem e] by (simp add: agree_on_def)
  then show ?thesis by (simp add: entry_key_len_def entry_offsets)
qed

lemma entry_cong:
  assumes agree: "agree_on (entry_first e) (entry_span mem e) mem mem'"
  shows "entry_span mem' e = entry_span mem e" "owns mem' e = owns mem e"
    "entry_wf mem' e = entry_wf mem e"
  unfolding entry_span_def owns_def entry_wf_def entry_key_len_cong [OF agree] by (rule refl)+

lemma stored_of_cong:
  assumes agree: "agree_on (entry_first e) (entry_span mem e) mem mem'"
    and len: "length mem' = length mem" "8 * (entry_first e + entry_span mem e) \<le> length mem"
  shows "stored_of mem' e = stored_of mem e"
proof -
  have "slice (8 * entry_first e) 32 mem' = slice (8 * entry_first e) 32 mem"
    by (rule slice_eqI) (use agree len entry_span_bounds [of mem e] in \<open>auto simp: agree_on_def\<close>)
  moreover have "slice (8 * entry_first e + 32) (entry_key_len mem e) mem' =
      slice (8 * entry_first e + 32) (entry_key_len mem e) mem"
    by (rule slice_eqI) (use agree len entry_span_bounds [of mem e] in \<open>auto simp: agree_on_def\<close>)
  ultimately show ?thesis
    by (simp add: stored_of_def entry_offsets entry_key_len_cong [OF agree] size_consts)
qed

lemma owns_iff:
  "owns mem e b \<longleftrightarrow> \<not> pe_is_empty e \<and> entry_first e \<le> b \<and> b < entry_first e + entry_span mem e"
  by (rule owns_def)

lemma pe_is_empty_free [simp]: "pe_is_empty free_entry"
  by (simp add: pe_is_empty_def free_entry_def)

lemma owns_free [simp]: "\<not> owns mem free_entry b"
  by (simp add: owns_def)

lemma entry_wf_free [simp]: "entry_wf mem free_entry"
  by (simp add: entry_wf_def)

text \<open>
  A change of the memory inside a run of blocks that an entry does not own leaves it alone.
\<close>

lemma agree_outside:
  assumes out: "\<And>k. k < length mem \<Longrightarrow> k < 8 * s \<or> 8 * (s + n) \<le> k \<Longrightarrow> mem' ! k = mem ! k"
    and fits: "8 * (entry_first e + entry_span mem e) \<le> length mem"
    and disj: "\<And>b. s \<le> b \<Longrightarrow> b < s + n \<Longrightarrow> \<not> (entry_first e \<le> b \<and> b < entry_first e + entry_span mem e)"
  shows "agree_on (entry_first e) (entry_span mem e) mem mem'"
  unfolding agree_on_def
proof (intro allI impI)
  fix k assume k: "8 * entry_first e \<le> k \<and> k < 8 * (entry_first e + entry_span mem e)"
  have "\<not> (s \<le> k div 8 \<and> k div 8 < s + n)"
    using disj [of "k div 8"] k by (auto simp: div_less_iff_less_mult less_eq_div_iff_mult_less_eq mult.commute)
  then have "k < 8 * s \<or> 8 * (s + n) \<le> k"
    by (auto simp: div_less_iff_less_mult less_eq_div_iff_mult_less_eq mult.commute not_less)
  then show "mem' ! k = mem ! k" using out k fits by simp
qed


lemma entry_fits:
  assumes "table_wf t" and "i < 256" and "\<not> pe_is_empty (entry_list t ! i)"
  shows "entry_first (entry_list t ! i) + entry_span (key_data_memory t) (entry_list t ! i) \<le> 1888"
  using table_wf_entry [OF assms(1,2)] assms(3) by (simp add: entry_wf_def)

text \<open>
  The two changes of a table that matter: an entry appears in an empty slot on free blocks, and
  an entry leaves. \<open>outside\<close> says that the memory changed only in the blocks concerned.
\<close>

definition outside :: "nat \<Rightarrow> nat \<Rightarrow> bytes \<Rightarrow> bytes \<Rightarrow> bool" where
  "outside s n mem mem' \<longleftrightarrow> length mem' = length mem \<and>
     (\<forall>k < length mem. k < 8 * s \<or> 8 * (s + n) \<le> k \<longrightarrow> mem' ! k = mem ! k)"

lemma outside_block:
  assumes "outside s n mem mem'" and "\<not> (s \<le> b \<and> b < s + n)" and "k < 8" and "8 * b + k < length mem"
  shows "mem' ! (8 * b + k) = mem ! (8 * b + k)"
proof -
  have "8 * b + k < 8 * s \<or> 8 * (s + n) \<le> 8 * b + k" using assms(2,3) by auto
  then show ?thesis using assms(1,4) unfolding outside_def by blast
qed

lemma other_entry_agrees:
  assumes wf: "table_wf t" and out: "outside s n (key_data_memory t) mem'"
    and i: "i < 256" "\<not> pe_is_empty (entry_list t ! i)"
    and disj: "\<And>b. s \<le> b \<Longrightarrow> b < s + n \<Longrightarrow> \<not> owns (key_data_memory t) (entry_list t ! i) b"
  shows "agree_on (entry_first (entry_list t ! i))
    (entry_span (key_data_memory t) (entry_list t ! i)) (key_data_memory t) mem'"
  by (rule agree_outside [where s = s and n = n])
     (use out disj i entry_fits [OF wf i] table_wf_lengths [OF wf] in \<open>auto simp: outside_def owns_def\<close>)

lemma other_entry_same:
  assumes wf: "table_wf t" and out: "outside s n (key_data_memory t) mem'"
    and i: "i < 256"
    and disj: "\<And>b. s \<le> b \<Longrightarrow> b < s + n \<Longrightarrow> \<not> owns (key_data_memory t) (entry_list t ! i) b"
  shows "owns mem' (entry_list t ! i) = owns (key_data_memory t) (entry_list t ! i)"
    and "entry_wf mem' (entry_list t ! i) = entry_wf (key_data_memory t) (entry_list t ! i)"
    and "\<not> pe_is_empty (entry_list t ! i) \<Longrightarrow>
      stored_of mem' (entry_list t ! i) = stored_of (key_data_memory t) (entry_list t ! i)"
proof -
  have agree: "agree_on (entry_first (entry_list t ! i))
      (entry_span (key_data_memory t) (entry_list t ! i)) (key_data_memory t) mem'"
    if "\<not> pe_is_empty (entry_list t ! i)"
    by (rule other_entry_agrees [OF wf out i that disj])
  show "owns mem' (entry_list t ! i) = owns (key_data_memory t) (entry_list t ! i)"
    using entry_cong(2) [OF agree] by (cases "pe_is_empty (entry_list t ! i)") (auto simp: owns_def)
  show "entry_wf mem' (entry_list t ! i) = entry_wf (key_data_memory t) (entry_list t ! i)"
    using entry_cong(3) [OF agree]
    by (cases "pe_is_empty (entry_list t ! i)") (auto simp: entry_wf_def)
  show "stored_of mem' (entry_list t ! i) = stored_of (key_data_memory t) (entry_list t ! i)"
    if ne: "\<not> pe_is_empty (entry_list t ! i)"
    by (rule stored_of_cong [OF agree [OF ne]])
       (use out entry_fits [OF wf i ne] table_wf_lengths [OF wf] in \<open>auto simp: outside_def\<close>)
qed

lemma table_wf_insert:
  assumes wf: "table_wf t" and n: "n < 256" and empty: "pe_is_empty (entry_list t ! n)"
    and free: "free_run (used_block_tracking_memory t) s need"
    and e: "\<not> pe_is_empty e" "entry_first e = s" "entry_span mem' e = need" "entry_wf mem' e"
    and out: "outside s need (key_data_memory t) mem'"
    and ub: "tracker_inv ub'"
      "\<And>b. b < 1888 \<Longrightarrow> blk_free ub' b \<longleftrightarrow> \<not> (s \<le> b \<and> b < s + need) \<and> blk_free (used_block_tracking_memory t) b"
  shows "table_wf (t\<lparr>used_block_tracking_memory := ub', key_data_memory := mem',
                     entry_list := (entry_list t)[n := e]\<rparr>)"
    and "i < 256 \<Longrightarrow> i \<noteq> n \<Longrightarrow> \<not> pe_is_empty (entry_list t ! i) \<Longrightarrow>
      stored_of mem' (entry_list t ! i) = stored_of (key_data_memory t) (entry_list t ! i)"
proof -
  have disj: "\<not> owns (key_data_memory t) (entry_list t ! i) b"
    if "i < 256" "s \<le> b" "b < s + need" for i b
  proof -
    have "blk_free (used_block_tracking_memory t) b" using free that by (auto simp: free_run_def)
    then show ?thesis using table_wf_free [OF wf] blk_free_less that(1) by blast
  qed
  note same = other_entry_same [OF wf out _ disj]
  have new: "owns mem' e b \<longleftrightarrow> s \<le> b \<and> b < s + need" for b
    using e by (auto simp: owns_def)
  have len: "length (entry_list t) = 256" by (rule table_wf_lengths [OF wf])
  have nth: "(entry_list t)[n := e] ! i = (if i = n then e else entry_list t ! i)" if "i < 256" for i
    using that len by (simp add: nth_list_update)
  have owns': "owns mem' ((entry_list t)[n := e] ! i) b \<longleftrightarrow>
      (if i = n then s \<le> b \<and> b < s + need else owns (key_data_memory t) (entry_list t ! i) b)"
    if "i < 256" for i b
    using that new same(1) [of i] by (simp add: nth)
  have not_n: "\<not> owns (key_data_memory t) (entry_list t ! n) b" for b
    using empty by (simp add: owns_def)
  show "table_wf (t\<lparr>used_block_tracking_memory := ub', key_data_memory := mem',
                     entry_list := (entry_list t)[n := e]\<rparr>)"
  proof (rule table_wfI, goal_cases)
    case (5 i)
    then show ?case using e same(2) table_wf_entry [OF wf] by (simp add: nth)
  next
    case (6 i j b)
    then have "i = n \<or> j = n \<Longrightarrow> i = j" using owns' disj by (auto split: if_splits)
    then show ?case using 6 owns' table_wf_disjoint [OF wf] by (auto split: if_splits)
  next
    case (7 b)
    then show ?case using ub(2) [OF 7] table_wf_free [OF wf 7] owns' not_n n by auto
  next
    case (8 b k)
    then have f: "\<not> (s \<le> b \<and> b < s + need)" "blk_free (used_block_tracking_memory t) b"
      using ub(2) by auto
    then show ?case
      using outside_block [OF out f(1) 8(3)] table_wf_zero [OF wf 8(1) f(2) 8(3)] 8 table_wf_lengths [OF wf]
      by simp
  qed (use out ub table_wf_lengths [OF wf] in \<open>simp_all add: outside_def\<close>)
  show "stored_of mem' (entry_list t ! i) = stored_of (key_data_memory t) (entry_list t ! i)"
    if "i < 256" "i \<noteq> n" "\<not> pe_is_empty (entry_list t ! i)"
    using same(3) that by blast
qed

lemma table_wf_delete:
  assumes wf: "table_wf t" and n: "n < 256" and used: "\<not> pe_is_empty (entry_list t ! n)"
    and e: "entry_first (entry_list t ! n) = s" "entry_span (key_data_memory t) (entry_list t ! n) = need"
    and out: "outside s need (key_data_memory t) mem'"
    and zero: "\<And>k. 8 * s \<le> k \<Longrightarrow> k < 8 * (s + need) \<Longrightarrow> mem' ! k = 0"
    and ub: "tracker_inv ub'"
      "\<And>b. b < 1888 \<Longrightarrow> blk_free ub' b \<longleftrightarrow> s \<le> b \<and> b < s + need \<or> blk_free (used_block_tracking_memory t) b"
  shows "table_wf (t\<lparr>entry_list := (entry_list t)[n := free_entry], key_data_memory := mem',
                     used_block_tracking_memory := ub'\<rparr>)"
    and "i < 256 \<Longrightarrow> i \<noteq> n \<Longrightarrow> \<not> pe_is_empty (entry_list t ! i) \<Longrightarrow>
      stored_of mem' (entry_list t ! i) = stored_of (key_data_memory t) (entry_list t ! i)"
proof -
  have own: "owns (key_data_memory t) (entry_list t ! n) b \<longleftrightarrow> s \<le> b \<and> b < s + need" for b
    using used e by (simp add: owns_def)
  have inside: "s + need \<le> 1888" using entry_fits [OF wf n used] e by simp
  have disj: "\<not> owns (key_data_memory t) (entry_list t ! i) b"
    if "i < 256" "i \<noteq> n" "s \<le> b" "b < s + need" for i b
    using table_wf_disjoint [OF wf _ _ that(1) n, of b] own [of b] that inside by auto
  note same = other_entry_same [OF wf out _ disj]
  have len: "length (entry_list t) = 256" by (rule table_wf_lengths [OF wf])
  have nth: "(entry_list t)[n := free_entry] ! i = (if i = n then free_entry else entry_list t ! i)"
    if "i < 256" for i
    using that len by (simp add: nth_list_update)
  have owns': "owns mem' ((entry_list t)[n := free_entry] ! i) b \<longleftrightarrow>
      i \<noteq> n \<and> owns (key_data_memory t) (entry_list t ! i) b"
    if "i < 256" for i b
    using that same(1) [of i] by (simp add: nth)
  show "table_wf (t\<lparr>entry_list := (entry_list t)[n := free_entry], key_data_memory := mem',
                     used_block_tracking_memory := ub'\<rparr>)"
  proof (rule table_wfI, goal_cases)
    case (5 i)
    then show ?case using same(2) table_wf_entry [OF wf] by (simp add: nth)
  next
    case (6 i j b)
    then show ?case using owns' table_wf_disjoint [OF wf] by auto
  next
    case (7 b)
    have "(\<exists>i < 256. i \<noteq> n \<and> owns (key_data_memory t) (entry_list t ! i) b) \<longleftrightarrow>
        (\<exists>i < 256. owns (key_data_memory t) (entry_list t ! i) b) \<and> \<not> (s \<le> b \<and> b < s + need)"
      using own disj n by blast
    then show ?case using ub(2) [OF 7] table_wf_free [OF wf 7] owns' by auto
  next
    case (8 b k)
    show ?case
    proof (cases "s \<le> b \<and> b < s + need")
      case True
      then show ?thesis using zero [of "8 * b + k"] 8(3) by simp
    next
      case False
      then show ?thesis
        using outside_block [OF out False 8(3)] table_wf_zero [OF wf 8(1) _ 8(3)] 8 ub(2) [OF 8(1)]
          table_wf_lengths [OF wf]
        by auto
    qed
  qed (use out ub table_wf_lengths [OF wf] in \<open>simp_all add: outside_def\<close>)
  show "stored_of mem' (entry_list t ! i) = stored_of (key_data_memory t) (entry_list t ! i)"
    if "i < 256" "i \<noteq> n" "\<not> pe_is_empty (entry_list t ! i)"
    using same(3) that by blast
qed


section \<open>Reading\<close>

lemma u8_index [simp]: "unat (i :: u8) < 256"
proof -
  have "(unsigned i :: nat) < 2 ^ LENGTH(8)" by (rule unsigned_less)
  then show ?thesis by simp
qed

lemma u8_index_eq [simp]: "unat i = unat (j :: u8) \<longleftrightarrow> i = j"
  by (rule word_eq_iff_unsigned [symmetric])

lemma u8_of_nat [simp]: "n < 256 \<Longrightarrow> unat (of_nat n :: u8) = n"
  by (simp add: unat_of_nat)

lemma u16_of_nat [simp]: "n < 1888 \<Longrightarrow> unat (of_nat n :: u16) = n"
  by (simp add: unat_of_nat)

lemma get_entry_eq:
  "get_entry t i allow =
     (if pe_is_empty (entry_list t ! unat i) \<or> \<not> allow \<and> pe_disabled (entry_list t ! unat i)
      then Err InvalidKeyIndex else Ok (entry_list t ! unat i))"
  by (simp add: get_entry_def Let_def)

lemma stored_key_length:
  assumes "8 * entry_first e + 32 \<le> length mem"
  shows "entry_specific (sk_attributes (stored_of mem e)) ! KEY_LENGTH_INDEX = mem ! (8 * entry_first e + 24)"
  using assms key_length_byte [of "slice (8 * entry_first e) 32 mem"]
  by (simp add: stored_of_def entry_offsets size_consts nth_slice)

lemma get_attributes_from_entry_eq:
  assumes wf: "table_wf t" and i: "i < 256" "\<not> pe_is_empty (entry_list t ! i)"
  shows "get_attributes_from_entry t (entry_list t ! i) =
    Ok (sk_attributes (stored_of (key_data_memory t) (entry_list t ! i)))"
proof -
  let ?e = "entry_list t ! i"
  have "8 * entry_first ?e + 32 \<le> 15104"
    using entry_fits [OF wf i] entry_span_bounds(1) [of "key_data_memory t" ?e] by simp
  moreover have "(pt_addr t + 2304 + 8 * entry_first ?e) mod 8 = 0"
    using table_wf_lengths(4) [OF wf] by presburger
  ultimately show ?thesis
    using table_wf_lengths [OF wf]
    by (simp add: get_attributes_from_entry_def stored_of_def entry_offsets slice_get_def table_consts)
qed

lemma stored_var_length:
  assumes wf: "table_wf t" and i: "i < 256" "\<not> pe_is_empty (entry_list t ! i)"
    and var: "is_var_hmac_key (pe_kind (entry_list t ! i))"
  shows "unat (entry_specific (sk_attributes (stored_of (key_data_memory t) (entry_list t ! i))) !
      KEY_LENGTH_INDEX) = entry_key_len (key_data_memory t) (entry_list t ! i)"
  using entry_fits [OF wf i] entry_span_bounds(1) [of "key_data_memory t" "entry_list t ! i"]
    table_wf_lengths [OF wf] var
  by (simp add: stored_key_length entry_key_len_def entry_offsets)

lemma raw_size_cases:
  obtains "is_var_hmac_key k" | n where "\<not> is_var_hmac_key k" "raw_key_blob_size k = Ok n"
  using raw_key_blob_size_Panic [of k] by (cases "raw_key_blob_size k") auto

lemma storage_size_entry:
  "storage_size (pe_kind e) (if is_var_hmac_key (pe_kind e) then Some (entry_key_len mem e) else None) =
     Ok (8 * entry_span mem e)"
  by (cases "pe_kind e" rule: raw_size_cases)
     (simp_all add: storage_size_Some storage_size_None entry_span_def blocks_for_eq mult.commute [of 8]
       entry_key_len_def)

lemma get_entry_attributes_view:
  assumes "table_wf t"
  shows "get_entry_attributes t i allow =
    (case table_view t i of None \<Rightarrow> Err InvalidKeyIndex
     | Some k \<Rightarrow> if \<not> allow \<and> ef_disabled (sk_flags k) then Err InvalidKeyIndex
                 else Ok (sk_attributes k))"
  using get_attributes_from_entry_eq [OF assms, of "unat i"]
  by (simp add: get_entry_attributes_def get_entry_eq table_view_def Let_def pe_disabled_def)
     (simp add: stored_of_def)

lemma get_entry_blob_view:
  assumes wf: "table_wf t"
  shows "get_entry_blob t i =
    (case table_view t i of None \<Rightarrow> Err InvalidKeyIndex | Some k \<Rightarrow> Ok (sk_blob k))"
proof (cases "pe_is_empty (entry_list t ! unat i)")
  case True
  then show ?thesis by (simp add: get_entry_blob_def get_entry_eq table_view_def)
next
  case False
  let ?e = "entry_list t ! unat i" and ?m = "key_data_memory t"
  have "8 * entry_first ?e + 32 + entry_key_len ?m ?e \<le> 15104"
    using entry_fits [OF wf u8_index False] entry_span_bounds(2) [of ?m ?e] by simp
  then have get: "slice_get (key_blob_bytes_offset ?e) (entry_key_len ?m ?e) ?m =
      Ok (sk_blob (stored_of ?m ?e))"
    using table_wf_lengths [OF wf] by (simp add: slice_get_def entry_offsets stored_of_def)
  have "and_then (if is_var_hmac_key (pe_kind ?e)
          then map_ok (\<lambda>a. unat (entry_specific a ! KEY_LENGTH_INDEX)) (get_attributes_from_entry t ?e)
          else raw_key_blob_size (pe_kind ?e)) f = f (entry_key_len ?m ?e)"
    for f :: "nat \<Rightarrow> bytes hsm_result"
    using get_attributes_from_entry_eq [OF wf u8_index False] stored_var_length [OF wf u8_index False]
    by (cases "pe_kind ?e" rule: raw_size_cases) (simp_all add: entry_key_len_def)
  then show ?thesis
    using False get by (simp add: get_entry_blob_def get_entry_eq table_view_def Let_def)
qed


section \<open>Adding an entry\<close>

text \<open>The arguments pass the checks on kind and length.\<close>

definition add_valid :: "entry_attributes \<Rightarrow> entry_kind \<Rightarrow> bytes \<Rightarrow> bool" where
  "add_valid attributes kind blob \<longleftrightarrow>
     kind \<noteq> EK_Free \<and> expected_key_len attributes kind = Ok (length blob)"

lemma expected_key_len_cases:
  obtains n where "expected_key_len a k = Ok n" | "expected_key_len a k = Err InvalidArgument"
proof (cases k rule: raw_size_cases)
  case 1
  then obtain v where "var_hmac_kind_of_entry k = Ok v" by (rule is_var_hmac_key_cases)
  then have "expected_key_len a k \<in> {Ok (unat (entry_specific a ! KEY_LENGTH_INDEX)), Err InvalidArgument}"
    using 1 by (simp add: expected_key_len_def Let_def)
  then show ?thesis using that by blast
next
  case (2 n)
  then show ?thesis using that by (simp add: expected_key_len_def)
qed

lemma add_entry_invalid:
  assumes "\<not> add_valid a kind blob"
  shows "add_entry a tag kind app blob t = (Err InvalidArgument, t)"
  using assms by (cases a kind rule: expected_key_len_cases) (auto simp: add_entry_def add_valid_def)

lemma add_valid_storage:
  assumes "add_valid a kind blob"
  shows "storage_size kind (if is_var_hmac_key kind then Some (length blob) else None) =
    Ok (8 * blocks_for (length blob))"
  using assms
  by (cases kind rule: raw_size_cases)
     (auto simp: add_valid_def expected_key_len_def storage_size_Some storage_size_None
       blocks_for_eq mult.commute [of 8])

definition add_written ::
  "entry_attributes \<Rightarrow> u16 \<Rightarrow> entry_kind \<Rightarrow> u8 \<Rightarrow> bytes \<Rightarrow> nat \<Rightarrow> nat \<Rightarrow> physical_table \<Rightarrow> physical_table" where
  "add_written a tag kind app blob n s t =
     t\<lparr>used_block_tracking_memory :=
         fold (\<lambda>i. tracker_set i True) [s..<s + blocks_for (length blob)] (used_block_tracking_memory t),
       key_data_memory :=
         mem_write (8 * s + 32) blob (mem_write (8 * s) (attributes_as_bytes a) (key_data_memory t)),
       entry_list := (entry_list t)[n := \<lparr>pe_offset = of_nat s, pe_flags = entry_flags_of (attr_flags a),
                                        pe_session_id_or_key_tag = tag, pe_kind = kind, pe_app_id = app\<rparr>]\<rparr>"

lemma blk_free_fold_set:
  assumes "tracker_inv ub" and "\<And>i. i \<in> set is \<Longrightarrow> i < 1888"
  shows "blk_free (fold (\<lambda>i. tracker_set i x) is ub) b \<longleftrightarrow> (if b \<in> set is then \<not> x else blk_free ub b)"
  using assms tracker.bget_bset_run [OF assms(1), of "is" x b]
  by (auto simp: blk_free_def tracker.bset_run_def)

lemma tracker_inv_fold: "tracker_inv ub \<Longrightarrow> tracker_inv (fold (\<lambda>i. tracker_set i x) is ub)"
  using tracker.binv_bset_run [of ub "is" x] by (simp add: tracker.bset_run_def)

lemma add_written_facts:
  fixes tag :: u16 and app :: u8 and n :: nat
  assumes wf: "table_wf t" and a: "attributes_wf a" and valid: "add_valid a kind blob"
    and fits: "s + blocks_for (length blob) \<le> 1888"
  defines "mem \<equiv> key_data_memory (add_written a tag kind app blob n s t)"
  defines "e \<equiv> \<lparr>pe_offset = of_nat s, pe_flags = entry_flags_of (attr_flags a),
                pe_session_id_or_key_tag = tag, pe_kind = kind, pe_app_id = app\<rparr>"
  shows "outside s (blocks_for (length blob)) (key_data_memory t) mem"
    and "\<not> pe_is_empty e" "entry_first e = s" "entry_key_len mem e = length blob"
    and "entry_wf mem e" and "stored_of mem e = new_key a tag kind app blob"
proof -
  let ?m = "key_data_memory t" and ?ab = "attributes_as_bytes a"
  have len: "length ?m = 15104" by (rule table_wf_lengths [OF wf])
  have ab: "length ?ab = 32" using a by (simp add: size_consts)
  have room: "8 * s + 32 + length blob \<le> 8 * (s + blocks_for (length blob))"
    using blocks_for_fits [of "length blob"] by simp
  have s: "s < 1888" using fits blocks_for_pos [of "length blob"] by simp
  have mem: "mem = mem_write (8 * s + 32) blob (mem_write (8 * s) ?ab ?m)"
    by (simp add: mem_def add_written_def)
  have lw: "length (mem_write (8 * s) ?ab ?m) = 15104" "length mem = 15104"
    using len ab room fits by (simp_all add: mem)
  have at: "slice (8 * s) 32 mem = ?ab"
    using slice_mem_write_same [of "8 * s" ?ab ?m] len ab room fits lw
    by (simp add: mem slice_mem_write_disjoint)
  have bl: "slice (8 * s + 32) (length blob) mem = blob"
    using slice_mem_write_same [of "8 * s + 32" blob "mem_write (8 * s) ?ab ?m"] lw room fits
    by (simp add: mem)
  show "outside s (blocks_for (length blob)) (key_data_memory t) mem"
    using len ab room fits lw by (auto simp: outside_def mem nth_mem_write)
  show "\<not> pe_is_empty e" using valid by (simp add: e_def pe_is_empty_def add_valid_def)
  show first: "entry_first e = s" using s by (simp add: e_def entry_first_def)
  have "mem ! (8 * s + 24) = slice (8 * s) 32 mem ! 24"
    using lw s room fits by (simp add: nth_slice)
  then have byte: "mem ! (8 * s + 24) = entry_specific a ! KEY_LENGTH_INDEX"
    using key_length_byte [of ?ab] a ab at by (simp add: size_consts)
  show kl: "entry_key_len mem e = length blob"
    using valid byte first
    by (cases kind rule: raw_size_cases)
       (auto simp: entry_key_len_def entry_offsets e_def add_valid_def expected_key_len_def Let_def
         res_simps split: if_splits)
  show "entry_wf mem e"
    using valid fits first kl \<open>\<not> pe_is_empty e\<close>
    by (auto simp: entry_wf_def entry_span_def e_def add_valid_def expected_key_len_def Let_def res_simps
        split: if_splits)
  show "stored_of mem e = new_key a tag kind app blob"
    using first kl at bl a by (simp add: stored_of_def entry_offsets new_key_def size_consts) (simp add: e_def)
qed

lemma add_written_wf:
  assumes wf: "table_wf t" and a: "attributes_wf a" and valid: "add_valid a kind blob"
    and n: "n < 256" "pe_is_empty (entry_list t ! n)"
    and free: "free_run (used_block_tracking_memory t) s (blocks_for (length blob))"
  shows "table_wf (add_written a tag kind app blob n s t)"
    and "table_view (add_written a tag kind app blob n s t) =
      (table_view t)(of_nat n \<mapsto> new_key a tag kind app blob)"
proof -
  have fits: "s + blocks_for (length blob) \<le> 1888"
    using free_run_less [OF free] blocks_for_pos [of "length blob"] by simp
  note facts = add_written_facts [OF wf a valid fits]
  have ub: "tracker_inv (fold (\<lambda>i. tracker_set i True) [s..<s + blocks_for (length blob)] (used_block_tracking_memory t))"
    by (rule tracker_inv_fold) (rule table_wf_lengths [OF wf])
  have ins: "b < 1888 \<Longrightarrow> blk_free (fold (\<lambda>i. tracker_set i True) [s..<s + blocks_for (length blob)]
        (used_block_tracking_memory t)) b \<longleftrightarrow>
      \<not> (s \<le> b \<and> b < s + blocks_for (length blob)) \<and> blk_free (used_block_tracking_memory t) b" for b
    using blk_free_fold_set [OF table_wf_lengths(3) [OF wf], of "[s..<s + blocks_for (length blob)]" True b] fits
    by auto
  note insert = table_wf_insert [OF wf n free facts(2,3) _ facts(5,1) ub ins]
  have span: "entry_span (key_data_memory (add_written a tag kind app blob n s t))
      \<lparr>pe_offset = of_nat s, pe_flags = entry_flags_of (attr_flags a),
       pe_session_id_or_key_tag = tag, pe_kind = kind, pe_app_id = app\<rparr> = blocks_for (length blob)"
    using facts(4) by (simp add: entry_span_def)
  show "table_wf (add_written a tag kind app blob n s t)"
    using insert(1) [OF span] by (simp add: add_written_def)
  show "table_view (add_written a tag kind app blob n s t) =
      (table_view t)(of_nat n \<mapsto> new_key a tag kind app blob)"
  proof
    fix i :: u8
    have at: "entry_list (add_written a tag kind app blob n s t) ! unat i =
        (if unat i = n then \<lparr>pe_offset = of_nat s, pe_flags = entry_flags_of (attr_flags a),
           pe_session_id_or_key_tag = tag, pe_kind = kind, pe_app_id = app\<rparr> else entry_list t ! unat i)"
      using table_wf_lengths(1) [OF wf] n(1) by (simp add: add_written_def nth_list_update)
    show "table_view (add_written a tag kind app blob n s t) i =
        ((table_view t)(of_nat n \<mapsto> new_key a tag kind app blob)) i"
    proof (cases "unat i = n")
      case True
      then have "of_nat n = i" by auto
      then show ?thesis using True facts(2,6) at by (simp add: table_view_def)
    next
      case False
      then have "of_nat n \<noteq> i" using n(1) by auto
      then show ?thesis using False at insert(2) [OF span, of "unat i"] by (simp add: table_view_def Let_def)
    qed
  qed
qed


text \<open>
  The table has room for a blob: an empty slot and a run of free blocks. The four cases of
  \<open>add_entry\<close>.
\<close>

definition has_slot :: "physical_table \<Rightarrow> bool" where
  "has_slot t \<longleftrightarrow> (\<exists>i < 256. pe_is_empty (entry_list t ! i))"

definition has_run :: "physical_table \<Rightarrow> nat \<Rightarrow> bool" where
  "has_run t need \<longleftrightarrow> (\<exists>s. free_run (used_block_tracking_memory t) s need)"

definition free_total :: "physical_table \<Rightarrow> nat" where
  "free_total t = free_below (used_block_tracking_memory t) 1888"

lemma add_entry_no_slot:
  assumes "table_wf t" and "add_valid a kind blob" and "\<not> has_slot t"
  shows "add_entry a tag kind app blob t = (Err NotEnoughSpace, t)"
proof -
  have "position pe_is_empty (entry_list t) = None"
    using assms(1,3) by (simp add: position_None has_slot_def table_wf_lengths)
  then show ?thesis
    using assms(2) add_valid_storage [OF assms(2)] by (simp add: add_entry_def add_valid_def)
qed

lemma add_entry_no_run:
  assumes "table_wf t" and "add_valid a kind blob" and "has_slot t"
    and "\<not> has_run t (blocks_for (length blob))"
  shows "add_entry a tag kind app blob t =
    (Err (if blocks_for (length blob) > free_total t then NotEnoughSpace else DefragNeeded), t)"
proof -
  have "position pe_is_empty (entry_list t) \<noteq> None"
    using assms(1,3) by (auto simp: position_None has_slot_def table_wf_lengths)
  then obtain n where "position pe_is_empty (entry_list t) = Some n" by auto
  moreover have "0 < blocks_for (length blob)" using blocks_for_pos [of "length blob"] by simp
  then have "search_slot (used_block_tracking_memory t) (blocks_for (length blob)) 0 0 0 0 =
      (None, free_total t)"
    using search_slot_spec [OF search_inv_start, of "blocks_for (length blob)" "used_block_tracking_memory t"]
      assms(4)
    by (auto simp: has_run_def free_total_def)
  ultimately show ?thesis
    using assms(2) add_valid_storage [OF assms(2)]
    by (simp add: add_entry_def add_valid_def size_consts)
qed

lemma add_entry_written:
  assumes wf: "table_wf t" and a: "attributes_wf a" and valid: "add_valid a kind blob" and slot: "has_slot t"
    and run: "has_run t (blocks_for (length blob))"
  obtains n s where "add_entry a tag kind app blob t = (Ok (of_nat n), add_written a tag kind app blob n s t)"
    and "n < 256" "pe_is_empty (entry_list t ! n)" "\<And>j. j < n \<Longrightarrow> \<not> pe_is_empty (entry_list t ! j)"
    and "free_run (used_block_tracking_memory t) s (blocks_for (length blob))"
    and "\<And>s'. s' < s \<Longrightarrow> \<not> free_run (used_block_tracking_memory t) s' (blocks_for (length blob))"
proof -
  let ?need = "blocks_for (length blob)" and ?ub = "used_block_tracking_memory t"
  have "position pe_is_empty (entry_list t) \<noteq> None"
    using wf slot by (auto simp: position_None has_slot_def table_wf_lengths)
  then obtain n where n: "position pe_is_empty (entry_list t) = Some n" by auto
  have pos: "0 < ?need" using blocks_for_pos [of "length blob"] by simp
  obtain s where s: "search_slot ?ub ?need 0 0 0 0 = (Some (s, s + ?need - 1), free_below ?ub (s + ?need))"
    "free_run ?ub s ?need" "\<And>s'. s' < s \<Longrightarrow> \<not> free_run ?ub s' ?need"
    using search_slot_spec [OF search_inv_start [OF pos], of ?ub] run by (auto simp: has_run_def)
  have fits: "s + ?need \<le> 1888" by (rule free_run_less [OF s(2) pos])
  then have s16: "unat (of_nat s :: u16) = s" using pos by simp
  have last: "Suc (s + ?need - 1) = s + ?need" using pos by simp
  have room: "8 * s + 32 + length blob \<le> 15104"
    using blocks_for_fits [of "length blob"] fits by simp
  have ab: "length (attributes_as_bytes a) = 32" using a by (simp add: size_consts)
  have len: "length (key_data_memory t) = 15104" by (rule table_wf_lengths [OF wf])
  have m1: "copy_into (8 * s) 32 (attributes_as_bytes a) (key_data_memory t) =
      (Ok (mem_write (8 * s) (attributes_as_bytes a) (key_data_memory t)) :: bytes hsm_result)"
    using room ab len by (simp add: copy_into_def)
  have m2: "copy_into (8 * s + 32) (length blob) blob (mem_write (8 * s) (attributes_as_bytes a) (key_data_memory t)) =
      (Ok (mem_write (8 * s + 32) blob (mem_write (8 * s) (attributes_as_bytes a) (key_data_memory t))) :: bytes hsm_result)"
    using room ab len by (simp add: copy_into_def)
  have "add_entry a tag kind app blob t = (Ok (of_nat n), add_written a tag kind app blob n s t)"
    using valid add_valid_storage [OF valid] n s(1) s16 last m1 m2
    by (simp add: add_entry_def add_valid_def size_consts Let_def mult.commute [of s 8] add_written_def
        del: upt_Suc)
  moreover have "n < 256" "pe_is_empty (entry_list t ! n)" "\<And>j. j < n \<Longrightarrow> \<not> pe_is_empty (entry_list t ! j)"
    using n table_wf_lengths(1) [OF wf] by (auto simp: position_Some)
  ultimately show ?thesis using that s(2,3) by blast
qed

lemma add_entry_Ok:
  assumes wf: "table_wf t" and a: "attributes_wf a"
    and ok: "add_entry a tag kind app blob t = (Ok i, t')"
  shows "add_valid a kind blob" "table_wf t'" "table_view t i = None"
    "table_view t' = (table_view t)(i \<mapsto> new_key a tag kind app blob)"
proof -
  show valid: "add_valid a kind blob"
    using ok add_entry_invalid [of a kind blob] by (cases "add_valid a kind blob") auto
  have slot: "has_slot t"
    using ok add_entry_no_slot [OF wf valid] by (cases "has_slot t") auto
  have run: "has_run t (blocks_for (length blob))"
    using ok add_entry_no_run [OF wf valid slot] by (cases "has_run t (blocks_for (length blob))") auto
  obtain n s where eq: "add_entry a tag kind app blob t = (Ok (of_nat n), add_written a tag kind app blob n s t)"
    and n: "n < 256" "pe_is_empty (entry_list t ! n)"
    and free: "free_run (used_block_tracking_memory t) s (blocks_for (length blob))"
    by (rule add_entry_written [OF wf a valid slot run]) blast
  have i: "i = of_nat n" and t': "t' = add_written a tag kind app blob n s t" using eq ok by auto
  show "table_wf t'" "table_view t' = (table_view t)(i \<mapsto> new_key a tag kind app blob)"
    using add_written_wf [OF wf a valid n free] i t' by simp_all
  show "table_view t i = None" using n i by (simp add: table_view_def)
qed

lemma add_entry_not_Ok:
  assumes wf: "table_wf t" and a: "attributes_wf a"
    and r: "add_entry a tag kind app blob t = (r, t')" "\<not> is_ok r"
  shows "t' = t" and "r \<in> {Err InvalidArgument, Err NotEnoughSpace, Err DefragNeeded}"
proof -
  have "t' = t \<and> r \<in> {Err InvalidArgument, Err NotEnoughSpace, Err DefragNeeded}"
  proof (cases "add_valid a kind blob \<and> has_slot t \<and> has_run t (blocks_for (length blob))")
    case True
    then obtain n t1 where "add_entry a tag kind app blob t = (Ok n, t1)"
      using add_entry_written [OF wf a] by metis
    then show ?thesis using r by auto
  next
    case False
    then consider "\<not> add_valid a kind blob" | "add_valid a kind blob" "\<not> has_slot t"
      | "add_valid a kind blob" "has_slot t" "\<not> has_run t (blocks_for (length blob))" by blast
    then show ?thesis
      by cases (use r in \<open>auto simp: add_entry_invalid add_entry_no_slot [OF wf] add_entry_no_run [OF wf] split: if_splits\<close>)
  qed
  then show "t' = t" "r \<in> {Err InvalidArgument, Err NotEnoughSpace, Err DefragNeeded}" by auto
qed


section \<open>Enabling, disabling and removing\<close>

lemma set_flags_wf:
  assumes wf: "table_wf t" and ne: "\<not> pe_is_empty (entry_list t ! unat i)"
    and e: "e = (entry_list t ! unat i)\<lparr>pe_flags := (pe_flags (entry_list t ! unat i))\<lparr>ef_disabled := x\<rparr>\<rparr>"
  shows "table_wf (set_entry i e t)"
    "table_view (set_entry i e t) =
       (table_view t)(i \<mapsto> sk_set_disabled x (stored_of (key_data_memory t) (entry_list t ! unat i)))"
proof -
  let ?f = "entry_list t ! unat i" and ?m = "key_data_memory t"
  have fields: "pe_kind e = pe_kind ?f" "entry_first e = entry_first ?f" "pe_is_empty e = pe_is_empty ?f"
    by (simp_all add: e entry_first_def pe_is_empty_def)
  have kl: "entry_key_len ?m e = entry_key_len ?m ?f"
    using fields by (simp add: entry_key_len_def entry_offsets)
  have "owns ?m e = owns ?m ?f" unfolding owns_def entry_span_def fields kl ..
  moreover have "entry_wf ?m e"
    using table_wf_entry [OF wf u8_index, of i] ne unfolding entry_wf_def entry_span_def fields kl by simp
  ultimately have same: "owns ?m e = owns ?m ?f" "entry_wf ?m e" by simp_all
  have st: "stored_of ?m e = sk_set_disabled x (stored_of ?m ?f)"
    using fields kl by (simp add: stored_of_def sk_set_disabled_def entry_offsets) (simp add: e)
  have nth: "(entry_list t)[unat i := e] ! j = (if j = unat i then e else entry_list t ! j)"
    if "j < 256" for j
    using that table_wf_lengths(1) [OF wf] by (simp add: nth_list_update)
  have owns_nth: "owns ?m ((entry_list t)[unat i := e] ! j) = owns ?m (entry_list t ! j)"
    if "j < 256" for j
    using that same nth by simp
  show "table_wf (set_entry i e t)"
  proof (rule table_wfI, goal_cases)
    case (5 j)
    then show ?case using same table_wf_entry [OF wf] by (simp add: set_entry_def nth)
  next
    case (6 j k b)
    then show ?case using owns_nth table_wf_disjoint [OF wf] by (simp add: set_entry_def)
  next
    case (7 b)
    then show ?case using owns_nth table_wf_free [OF wf] by (simp add: set_entry_def)
  next
    case (8 b k)
    then show ?case using table_wf_zero [OF wf] by (simp add: set_entry_def)
  qed (use table_wf_lengths [OF wf] in \<open>simp_all add: set_entry_def\<close>)
  show "table_view (set_entry i e t) =
       (table_view t)(i \<mapsto> sk_set_disabled x (stored_of ?m ?f))"
    using ne fields st by (auto simp: table_view_def set_entry_def nth fun_eq_iff Let_def)
qed

lemma enable_entry_follows:
  "follows table_wf table_view (enable_entry i) (spec_set_disabled False i)"
proof (rule followsI)
  fix t assume wf: "table_wf t"
  show "table_wf (snd (enable_entry i t))"
    using wf set_flags_wf(1) [OF wf, of i "pe_enable (entry_list t ! unat i)" False]
    by (simp add: enable_entry_def get_entry_eq pe_enable_def)
  show "(fst (enable_entry i t), table_view (snd (enable_entry i t))) =
      spec_set_disabled False i (table_view t)"
    using set_flags_wf(2) [OF wf, of i "pe_enable (entry_list t ! unat i)" False]
    by (simp add: enable_entry_def get_entry_eq pe_enable_def spec_set_disabled_def)
       (simp add: table_view_def Let_def)
qed

lemma disable_entry_follows:
  "follows table_wf table_view (disable_entry i) (spec_set_disabled True i)"
proof (rule followsI)
  fix t assume wf: "table_wf t"
  show "table_wf (snd (disable_entry i t))"
    using wf set_flags_wf(1) [OF wf, of i "pe_disable (entry_list t ! unat i)" True]
    by (simp add: disable_entry_def get_entry_eq pe_disable_def)
  show "(fst (disable_entry i t), table_view (snd (disable_entry i t))) =
      spec_set_disabled True i (table_view t)"
    using set_flags_wf(2) [OF wf, of i "pe_disable (entry_list t ! unat i)" True]
    by (simp add: disable_entry_def get_entry_eq pe_disable_def spec_set_disabled_def)
       (simp add: table_view_def Let_def)
qed


text \<open>The state after a removal.\<close>

definition removed :: "u8 \<Rightarrow> physical_table \<Rightarrow> physical_table" where
  "removed i t =
     (let e = entry_list t ! unat i; n = entry_span (key_data_memory t) e
      in t\<lparr>entry_list := (entry_list t)[unat i := free_entry],
           key_data_memory := mem_write (8 * entry_first e) (replicate (8 * n) 0) (key_data_memory t),
           used_block_tracking_memory :=
             fold (\<lambda>b. tracker_set (entry_first e + b) False) [0..<n] (used_block_tracking_memory t)\<rparr>)"

lemma fold_tracker_shift:
  "fold (\<lambda>b. tracker_set (s + b) x) [0..<n] ub = fold (\<lambda>b. tracker_set b x) [s..<s + n] ub"
proof -
  have "[s..<s + n] = map (\<lambda>b. s + b) [0..<n]" by (simp add: map_add_upt add.commute [of s])
  then show ?thesis by (simp add: fold_map comp_def)
qed

lemma removed_wf:
  assumes wf: "table_wf t" and ne: "\<not> pe_is_empty (entry_list t ! unat i)"
  shows "table_wf (removed i t)" "table_view (removed i t) = (table_view t)(i := None)"
proof -
  let ?e = "entry_list t ! unat i" and ?m = "key_data_memory t"
  define s n where "s = entry_first ?e" and "n = entry_span ?m ?e"
  define m' where "m' = mem_write (8 * s) (replicate (8 * n) 0) ?m"
  define ub' where "ub' = fold (\<lambda>b. tracker_set b False) [s..<s + n] (used_block_tracking_memory t)"
  have fits: "s + n \<le> 1888" using entry_fits [OF wf u8_index ne] by (simp add: s_def n_def)
  have len: "length ?m = 15104" by (rule table_wf_lengths [OF wf])
  have out: "outside s n ?m m'" using fits len by (auto simp: outside_def m'_def nth_mem_write)
  have zero: "m' ! k = 0" if "8 * s \<le> k" "k < 8 * (s + n)" for k
    using that fits len by (simp add: m'_def nth_mem_write)
  have ub: "tracker_inv ub'" unfolding ub'_def by (rule tracker_inv_fold) (rule table_wf_lengths [OF wf])
  have free: "blk_free ub' b \<longleftrightarrow> s \<le> b \<and> b < s + n \<or> blk_free (used_block_tracking_memory t) b"
    if "b < 1888" for b
    using blk_free_fold_set [OF table_wf_lengths(3) [OF wf], of "[s..<s + n]" False b] fits
    by (auto simp: ub'_def)
  note del = table_wf_delete [OF wf u8_index ne s_def [symmetric] n_def [symmetric] out zero ub free]
  have eq: "removed i t = t\<lparr>entry_list := (entry_list t)[unat i := free_entry], key_data_memory := m',
      used_block_tracking_memory := ub'\<rparr>"
    by (simp add: removed_def Let_def s_def n_def m'_def ub'_def fold_tracker_shift)
  show "table_wf (removed i t)" unfolding eq by (rule del(1))
  show "table_view (removed i t) = (table_view t)(i := None)"
    using del(2) table_wf_lengths(1) [OF wf]
    by (auto simp: eq table_view_def Let_def nth_list_update fun_eq_iff)
qed

lemma remove_entry_cases:
  assumes wf: "table_wf t"
  shows "remove_entry cb ti i t =
    (if pe_is_empty (entry_list t ! unat i) then (Err InvalidKeyIndex, t)
     else if cb (key_number ti i)
     then (Err CannotDeleteKeyInUse, set_entry i (pe_disable (entry_list t ! unat i)) t)
     else (Ok (), removed i t))"
proof (cases "pe_is_empty (entry_list t ! unat i)")
  case True
  then show ?thesis by (simp add: remove_entry_def get_entry_attributes_def get_entry_eq)
next
  case False
  let ?e = "entry_list t ! unat i" and ?m = "key_data_memory t"
  let ?a = "sk_attributes (stored_of ?m ?e)"
  have attr: "get_entry_attributes t i True = Ok ?a"
    using get_attributes_from_entry_eq [OF wf u8_index False] False
    by (simp add: get_entry_attributes_def get_entry_eq)
  have size: "storage_size (pe_kind ?e)
      (if is_var_hmac_key (pe_kind ?e) then Some (unat (entry_specific ?a ! KEY_LENGTH_INDEX)) else None) =
      Ok (8 * entry_span ?m ?e)"
    using storage_size_entry [of ?e ?m] stored_var_length [OF wf u8_index False] by (simp split: if_splits)
  have "8 * entry_first ?e + 8 * entry_span ?m ?e \<le> length ?m"
    using entry_fits [OF wf u8_index False] table_wf_lengths [OF wf] by simp
  then have zero: "copy_into (attributes_bytes_offset ?e) (8 * entry_span ?m ?e)
      (replicate (8 * entry_span ?m ?e) 0) ?m =
      (Ok (mem_write (8 * entry_first ?e) (replicate (8 * entry_span ?m ?e) 0) ?m) :: bytes hsm_result)"
    by (simp add: copy_into_def entry_offsets)
  have raw: "unat (raw_block_offset ?e) = entry_first ?e"
    by (simp add: raw_block_offset_def entry_first_def)
  show ?thesis
    using False
    by (cases "cb (key_number ti i)")
       (simp_all add: remove_entry_def get_entry_eq attr size zero raw Let_def set_entry_def removed_def
         ENTRY_BLOB_BLOCK_ALIGNMENT_def split del: if_split)
qed

lemma remove_entry_follows:
  "follows table_wf table_view (remove_entry cb ti i) (spec_remove (\<lambda>i. cb (key_number ti i)) i)"
proof (rule followsI)
  fix t assume wf: "table_wf t"
  note dis = set_flags_wf [OF wf, of i "pe_disable (entry_list t ! unat i)" True]
  show "table_wf (snd (remove_entry cb ti i t))"
    using wf dis(1) removed_wf(1) [OF wf, of i] by (simp add: remove_entry_cases pe_disable_def)
  show "(fst (remove_entry cb ti i t), table_view (snd (remove_entry cb ti i t))) =
      spec_remove (\<lambda>i. cb (key_number ti i)) i (table_view t)"
    using dis(2) removed_wf(2) [OF wf, of i]
    by (simp add: remove_entry_cases [OF wf] pe_disable_def spec_remove_def)
       (simp add: table_view_def Let_def)
qed

section \<open>Clearing the table\<close>

lemma nuke_wf:
  assumes "table_wf t"
  shows "table_wf (nuke t)" "table_view (nuke t) = Map.empty"
    "set (key_data_memory (nuke t)) \<subseteq> {0}"
proof -
  have free: "blk_free (map (\<lambda>_. 0) (used_block_tracking_memory t)) b" if "b < 1888" for b
    using that table_wf_lengths(3) [OF assms]
    by (simp add: blk_free_def tracker_get_bit tracker_inv_def layout_values)
  show "table_wf (nuke t)"
    by (rule table_wfI)
       (use table_wf_lengths [OF assms] free in \<open>auto simp: nuke_def tracker_inv_def\<close>)
  show "table_view (nuke t) = Map.empty"
    using table_wf_lengths(1) [OF assms] by (simp add: nuke_def table_view_def fun_eq_iff)
  show "set (key_data_memory (nuke t)) \<subseteq> {0}" by (auto simp: nuke_def)
qed

interpretation table_keys: key_map table_wf table_view "key_number ti" add_entry enable_entry disable_entry
  "\<lambda>cb i. remove_entry cb ti i" nuke get_entry_attributes get_entry_blob for ti
proof unfold_locales
  fix t a tag kind app b r t'
  assume "table_wf t" "attributes_wf a" "add_entry a tag kind app b t = (r, t')" "\<not> is_ok r"
  from add_entry_not_Ok [OF this] show "t' = t \<and> r \<noteq> Panic" by auto
next
  fix t i allow
  assume wf: "table_wf t"
  show "get_entry_attributes t i allow = spec_attributes i allow (table_view t)"
    by (simp add: get_entry_attributes_view [OF wf] spec_attributes_def sk_disabled_def split: option.split)
  show "get_entry_blob t i = spec_blob i (table_view t)"
    by (simp add: get_entry_blob_view [OF wf] spec_blob_def)
  show "table_wf (nuke t) \<and> table_view (nuke t) = Map.empty"
    using nuke_wf [OF wf] by simp
next
  fix t a tag kind app b i t'
  assume "table_wf t" "attributes_wf a" "add_entry a tag kind app b t = (Ok i, t')"
  from add_entry_Ok [OF this] show "table_wf t' \<and> table_view t i = None \<and>
      table_view t' = (table_view t)(i \<mapsto> new_key a tag kind app b)" by simp
qed (rule enable_entry_follows disable_entry_follows remove_entry_follows)+


section \<open>Bulk removal\<close>

text \<open>Which slots of a list a bulk removal frees, and which it fails on.\<close>

definition bulk_freed :: "(stored_key \<Rightarrow> bool) \<Rightarrow> (u16 \<Rightarrow> bool) \<Rightarrow> u8 \<Rightarrow> nat list \<Rightarrow> physical_table \<Rightarrow> nat" where
  "bulk_freed sel cb ti is t =
     length (filter (\<lambda>i. is_selected sel (table_view t (of_nat i)) \<and> \<not> cb (key_number ti (of_nat i))) is)"

definition bulk_failed :: "(stored_key \<Rightarrow> bool) \<Rightarrow> (u16 \<Rightarrow> bool) \<Rightarrow> u8 \<Rightarrow> nat list \<Rightarrow> physical_table \<Rightarrow> nat" where
  "bulk_failed sel cb ti is t =
     length (filter (\<lambda>i. is_selected sel (table_view t (of_nat i)) \<and> cb (key_number ti (of_nat i))) is)"

lemma bulk_counts_cong:
  assumes "\<And>i. i \<in> set is \<Longrightarrow> table_view t' (of_nat i) = table_view t (of_nat i)"
  shows "bulk_freed sel cb ti is t' = bulk_freed sel cb ti is t"
    "bulk_failed sel cb ti is t' = bulk_failed sel cb ti is t"
  using assms by (auto simp: bulk_freed_def bulk_failed_def intro!: arg_cong [where f = length] filter_cong)

lemma is_selected_iff:
  "i < 256 \<Longrightarrow> is_selected sel (table_view t (of_nat i)) \<longleftrightarrow>
     \<not> pe_is_empty (entry_list t ! i) \<and> sel (stored_of (key_data_memory t) (entry_list t ! i))"
  by (simp add: is_selected_def table_view_def Let_def)

lemma remove_selected:
  assumes wf: "table_wf t" and i: "i < 256" and sel: "is_selected sel (table_view t (of_nat i))"
  obtains t' where
    "remove_entry cb ti (of_nat i) t =
       (if cb (key_number ti (of_nat i)) then Err CannotDeleteKeyInUse else Ok (), t')"
    "table_wf t'"
    "table_view t' = (table_view t)(of_nat i := bulk_entry sel (cb (key_number ti (of_nat i))) (table_view t (of_nat i)))"
proof -
  obtain r t' where rem: "remove_entry cb ti (of_nat i) t = (r, t')" by fastforce
  note d = followsD [OF remove_entry_follows wf rem]
  show ?thesis
    by (rule that [of t'])
       (use rem d sel in \<open>auto simp: is_selected_def spec_remove_def bulk_entry_def split: option.splits\<close>)
qed

lemma remove_matching_spec:
  assumes "table_wf t" and "distinct is" and "\<forall>i \<in> set is. i < 256"
    and p: "\<And>mem e. p e \<longleftrightarrow> sel (stored_of mem e)"
  shows "\<exists>t'. remove_matching p cb ti is dc fc t =
      (Ok (dc + of_nat (bulk_freed sel cb ti is t), fc + of_nat (bulk_failed sel cb ti is t)), t') \<and>
    table_wf t' \<and>
    (\<forall>j. table_view t' j =
       (if unat j \<in> set is then bulk_entry sel (cb (key_number ti j)) (table_view t j) else table_view t j))"
  using assms(1-3)
proof (induction "is" arbitrary: t dc fc)
  case Nil
  then show ?case by (simp add: bulk_freed_def bulk_failed_def)
next
  case (Cons i "is")
  let ?sel = "is_selected sel (table_view t (of_nat i))" and ?busy = "cb (key_number ti (of_nat i))"
  have i: "i < 256" and rest: "distinct is" "\<forall>i \<in> set is. i < 256" "i \<notin> set is" using Cons.prems by auto
  have at: "j = of_nat i \<longleftrightarrow> unat j = i" for j :: u8 using i by auto
  show ?case
  proof (cases ?sel)
    case False
    then have step: "remove_matching p cb ti (i # is) dc fc t = remove_matching p cb ti is dc fc t"
      using i by (auto simp: is_selected_iff Let_def p [of _ "key_data_memory t"])
    have counts: "bulk_freed sel cb ti (i # is) t = bulk_freed sel cb ti is t"
      "bulk_failed sel cb ti (i # is) t = bulk_failed sel cb ti is t"
      using False by (simp_all add: bulk_freed_def bulk_failed_def)
    have "bulk_entry sel b (table_view t (of_nat i)) = table_view t (of_nat i)" for b
      using False by (auto simp: bulk_entry_def is_selected_def split: option.splits)
    then have keep: "unat j = i \<Longrightarrow> bulk_entry sel b (table_view t j) = table_view t j" for j b
      using at by metis
    obtain t' where t': "remove_matching p cb ti is dc fc t =
        (Ok (dc + of_nat (bulk_freed sel cb ti is t), fc + of_nat (bulk_failed sel cb ti is t)), t')"
      "table_wf t'" "\<And>j. table_view t' j = (if unat j \<in> set is
         then bulk_entry sel (cb (key_number ti j)) (table_view t j) else table_view t j)"
      using Cons.IH [OF Cons.prems(1) rest(1,2), of dc fc] by blast
    show ?thesis
      by (rule exI [of _ t']) (use t' keep rest(3) in \<open>simp add: step counts del: remove_matching.simps\<close>)
  next
    case True
    obtain t1 where rem: "remove_entry cb ti (of_nat i) t = (if ?busy then Err CannotDeleteKeyInUse else Ok (), t1)"
      and wf1: "table_wf t1"
      and view1: "table_view t1 = (table_view t)(of_nat i := bulk_entry sel ?busy (table_view t (of_nat i)))"
      by (rule remove_selected [OF Cons.prems(1) i True])
    have step: "remove_matching p cb ti (i # is) dc fc t =
        remove_matching p cb ti is (if ?busy then dc else dc + 1) (if ?busy then fc + 1 else fc) t1"
      using i True rem by (auto simp: is_selected_iff Let_def p [of _ "key_data_memory t"])
    have same: "table_view t1 (of_nat j) = table_view t (of_nat j)" if "j \<in> set is" for j
      using that rest i view1 by (auto simp: at)
    have counts: "bulk_freed sel cb ti is t1 = bulk_freed sel cb ti is t"
      "bulk_failed sel cb ti is t1 = bulk_failed sel cb ti is t"
      using bulk_counts_cong [of "is" t1 t] same by blast+
    have more: "bulk_freed sel cb ti (i # is) t = (if ?busy then 0 else 1) + bulk_freed sel cb ti is t"
      "bulk_failed sel cb ti (i # is) t = (if ?busy then 1 else 0) + bulk_failed sel cb ti is t"
      using True by (simp_all add: bulk_freed_def bulk_failed_def)
    obtain t' where t': "remove_matching p cb ti is (if ?busy then dc else dc + 1) (if ?busy then fc + 1 else fc) t1 =
        (Ok ((if ?busy then dc else dc + 1) + of_nat (bulk_freed sel cb ti is t1),
             (if ?busy then fc + 1 else fc) + of_nat (bulk_failed sel cb ti is t1)), t')"
      "table_wf t'" "\<And>j. table_view t' j = (if unat j \<in> set is
         then bulk_entry sel (cb (key_number ti j)) (table_view t1 j) else table_view t1 j)"
      using Cons.IH [OF wf1 rest(1,2), of "if ?busy then dc else dc + 1" "if ?busy then fc + 1 else fc"] by blast
    have "table_view t' j = (if unat j \<in> set (i # is)
        then bulk_entry sel (cb (key_number ti j)) (table_view t j) else table_view t j)" for j
      using t'(3) [of j] rest(3) view1 at [of j] by (cases "unat j = i") auto
    then show ?thesis
      using t'(1,2) unfolding step more by (intro exI [of _ t']) (simp add: add.assoc counts)
  qed
qed

lemma stored_of_session: "sk_session_id (stored_of mem e) = pe_session_id e"
  by (simp add: sk_session_id_def stored_of_def pe_session_id_def)

lemma stored_of_app: "sk_app_id (stored_of mem e) = pe_app_id e"
  by (simp add: stored_of_def)

lemma remove_all_session_spec:
  assumes "table_wf t"
  shows "\<exists>t'. remove_all_session_only_entries cb ti session_id t =
      (bulk_result (of_nat (bulk_freed (of_session session_id) cb ti [0..<256] t),
                    of_nat (bulk_failed (of_session session_id) cb ti [0..<256] t)), t') \<and>
    table_wf t' \<and>
    table_view t' = bulk_map (of_session session_id) (\<lambda>i. cb (key_number ti i)) (table_view t)"
proof -
  have "ef_session (pe_flags e) \<and> pe_session_id e = Some session_id \<longleftrightarrow> of_session session_id (stored_of mem e)"
    for mem e
    by (auto simp: of_session_def stored_of_session) (auto simp: pe_session_id_def split: if_splits)
  from remove_matching_spec [where sel = "of_session session_id" and
      p = "\<lambda>e. ef_session (pe_flags e) \<and> pe_session_id e = Some session_id", OF assms _ _ this,
      of "[0..<256]" cb ti 0 0]
  show ?thesis
    by (auto simp: remove_all_session_only_entries_def layout_values bulk_map_def fun_eq_iff)
qed

lemma remove_all_app_spec:
  assumes "table_wf t"
  shows "\<exists>t'. remove_all_entries_for_app cb ti app_id t =
      (bulk_result (of_nat (bulk_freed (of_app app_id) cb ti [0..<256] t),
                    of_nat (bulk_failed (of_app app_id) cb ti [0..<256] t)), t') \<and>
    table_wf t' \<and>
    table_view t' = bulk_map (of_app app_id) (\<lambda>i. cb (key_number ti i)) (table_view t)"
proof -
  have "pe_app_id e = app_id \<longleftrightarrow> of_app app_id (stored_of mem e)" for mem e
    by (simp add: of_app_def stored_of_app)
  from remove_matching_spec [where sel = "of_app app_id" and p = "\<lambda>e. pe_app_id e = app_id",
      OF assms _ _ this, of "[0..<256]" cb ti 0 0]
  show ?thesis
    by (auto simp: remove_all_entries_for_app_def layout_values bulk_map_def fun_eq_iff)
qed

end
