(* ===== verification/Table_Props.thy ===== *)
theory Table_Props
  imports Table_Correct
begin

text \<open>
  The properties of one table of the key store, over the contract proved in \<open>Table_Correct\<close>, with
  two tables to apply them to: an empty one, and one whose 256 slots all hold an AES bulk key.
\<close>

section \<open>Two tables\<close>

definition empty_table :: "nat \<Rightarrow> physical_table" where
  "empty_table addr =
     \<lparr>pt_addr = addr, entry_list = replicate 256 free_entry,
      used_block_tracking_memory = replicate 64 0, key_data_memory = replicate 15104 0\<rparr>"

lemma empty_table_free: "b < 1888 \<Longrightarrow> blk_free (replicate 64 0) b"
  by (simp add: blk_free_def tracker_get_bit)

lemma empty_table_wf [simp]: "addr mod 8 = 0 \<Longrightarrow> table_wf (empty_table addr)"
  by (rule table_wfI) (auto simp: empty_table_def tracker_inv_def layout_values empty_table_free)

lemma empty_table_room: "has_slot (empty_table addr)" "n \<le> 1888 \<Longrightarrow> has_run (empty_table addr) n"
  by (auto simp: has_slot_def empty_table_def has_run_def free_run_def empty_table_free
      intro!: exI [of _ "0::nat"])

lemma empty_table_view [simp]: "table_view (empty_table addr) = Map.empty"
  by (simp add: table_view_def empty_table_def fun_eq_iff)

definition full_entry :: "nat \<Rightarrow> physical_entry" where
  "full_entry i = \<lparr>pe_offset = of_nat (5 * i), pe_flags = default_entry_flags,
     pe_session_id_or_key_tag = 0, pe_kind = EK_AesGcmBulk256, pe_app_id = 1\<rparr>"

definition full_table :: physical_table where
  "full_table = \<lparr>pt_addr = 0, entry_list = map full_entry [0..<256],
     used_block_tracking_memory = replicate 40 (- 1) @ replicate 24 0,
     key_data_memory = replicate 15104 0\<rparr>"

lemma full_entry_at: "i < 256 \<Longrightarrow> entry_list full_table ! i = full_entry i"
  by (simp add: full_table_def)

lemma full_entry_simps [simp]:
  "pe_kind (full_entry i) = EK_AesGcmBulk256" "\<not> pe_is_empty (full_entry i)"
  "pe_app_id (full_entry i) = 1" "pe_flags (full_entry i) = default_entry_flags"
  by (simp_all add: full_entry_def pe_is_empty_def)

lemma full_entry_first: "i < 256 \<Longrightarrow> entry_first (full_entry i) = 5 * i"
  using u16_of_nat [of "5 * i"] by (simp add: entry_first_def full_entry_def del: of_nat_mult)

lemma full_entry_span: "entry_span mem (full_entry i) = 5"
  by (simp add: entry_span_def entry_key_len_def is_var_hmac_key_def blocks_for_def align8_def)

lemma full_owns: "i < 256 \<Longrightarrow> owns mem (full_entry i) b \<longleftrightarrow> b div 5 = i"
  by (auto simp: owns_def full_entry_first full_entry_span)

lemma full_table_wf: "table_wf full_table"
proof (rule table_wfI, goal_cases)
  case (5 i)
  then show ?case
    by (simp add: full_entry_at entry_wf_def full_entry_first full_entry_span is_var_hmac_key_def)
next
  case (6 i j b)
  then show ?case by (simp add: full_entry_at full_owns)
next
  case (7 b)
  have "blk_free (used_block_tracking_memory full_table) b \<longleftrightarrow> \<not> b div 5 < 256"
    using 7 by (auto simp: full_table_def blk_free_def tracker_get_bit nth_append)
  then show ?case by (auto simp: full_entry_at full_owns)
next
  case (8 b k)
  then show ?case by (simp add: full_table_def)
qed (simp_all add: full_table_def tracker_inv_def layout_values)


lemma full_table_view: "table_view full_table i = Some (stored_of (key_data_memory full_table) (full_entry (unat i)))"
  by (simp add: table_view_def full_entry_at Let_def)

section \<open>Properties\<close>

text \<open>
  C1: Adding an entry. On success the arguments were valid, the slot was free before and now holds
  exactly the new key, every other key is unchanged and the table is well formed. On failure the
  table is untouched, and the error is the documented one: InvalidArgument for a bad kind or
  length, DefragNeeded when a slot and enough blocks are free but not in a row, NotEnoughSpace
  otherwise; a valid key is refused only when no slot or no run of free blocks is left.
\<close>

theorem add_entry_refines:
  assumes wf: "table_wf t" and a: "attributes_wf a"
  shows "case add_entry a tag kind app blob t of
      (Ok i, t') \<Rightarrow> add_valid a kind blob \<and> table_wf t' \<and> table_view t i = None \<and>
        table_view t' = (table_view t)(i \<mapsto> new_key a tag kind app blob)
    | (Err e, t') \<Rightarrow> t' = t \<and>
        \<not> (add_valid a kind blob \<and> has_slot t \<and> has_run t (blocks_for (length blob))) \<and>
        e = (if \<not> add_valid a kind blob then InvalidArgument
             else if has_slot t \<and> blocks_for (length blob) \<le> free_total t then DefragNeeded
             else NotEnoughSpace)
    | (Panic, t') \<Rightarrow> False"
proof -
  consider "\<not> add_valid a kind blob" | "add_valid a kind blob" "\<not> has_slot t"
    | "add_valid a kind blob" "has_slot t" "\<not> has_run t (blocks_for (length blob))"
    | "add_valid a kind blob" "has_slot t" "has_run t (blocks_for (length blob))" by blast
  then show ?thesis
  proof cases
    case 4
    obtain i t' where eq: "add_entry a tag kind app blob t = (Ok i, t')"
      using add_entry_written [OF wf a 4] by metis
    show ?thesis using add_entry_Ok [OF wf a eq] by (simp add: eq)
  qed (simp_all add: add_entry_invalid add_entry_no_slot [OF wf] add_entry_no_run [OF wf])
qed

theorem add_entry_refines_witness:
  "\<exists>i t'. add_entry default_attributes 7 EK_Aes128 3 (replicate 16 9) (empty_table 0) = (Ok i, t') \<and>
     table_view t' = [i \<mapsto> new_key default_attributes 7 EK_Aes128 3 (replicate 16 9)]"
proof -
  have valid: "add_valid default_attributes EK_Aes128 (replicate 16 9)"
    by (simp add: add_valid_def expected_key_len_def is_var_hmac_key_def)
  have "has_slot (empty_table 0)" "has_run (empty_table 0) (blocks_for (length (replicate 16 (9::u8))))"
    using empty_table_room by (simp_all add: blocks_for_def align8_def)
  then show ?thesis
    using add_entry_refines [where t = "empty_table 0" and a = default_attributes and tag = 7 and
        kind = EK_Aes128 and app = 3 and blob = "replicate 16 9"] valid
    by (auto split: prod.splits outcome.splits)
qed

text \<open>
  C2: Removing an entry erases it. After a successful removal the slot is empty, every byte of the
  blocks that held the attributes and the key is zero, all other memory is unchanged, exactly
  those blocks are given back to the tracker, and all other keys are as before.
\<close>

theorem remove_entry_erases:
  assumes wf: "table_wf t" and ok: "remove_entry cb ti i t = (Ok (), t')"
  shows "table_wf t' \<and> table_view t' = (table_view t)(i := None) \<and>
    (\<forall>k < BLOB_MEMORY_SIZE_BYTES. key_data_memory t' ! k =
      (if owns (key_data_memory t) (entry_list t ! unat i) (k div 8) then 0 else key_data_memory t ! k)) \<and>
    (\<forall>b < 1888. blk_free (used_block_tracking_memory t') b \<longleftrightarrow>
      blk_free (used_block_tracking_memory t) b \<or> owns (key_data_memory t) (entry_list t ! unat i) b)"
proof -
  let ?e = "entry_list t ! unat i" and ?m = "key_data_memory t"
  have ne: "\<not> pe_is_empty ?e" and t': "t' = removed i t"
    using ok by (auto simp: remove_entry_cases [OF wf] split: if_splits)
  let ?s = "entry_first ?e" and ?n = "entry_span ?m ?e"
  have fits: "?s + ?n \<le> 1888" by (rule entry_fits [OF wf u8_index ne])
  have len: "length ?m = 15104" by (rule table_wf_lengths [OF wf])
  have mem: "key_data_memory t' = mem_write (8 * ?s) (replicate (8 * ?n) 0) ?m"
    and ub: "used_block_tracking_memory t' =
      fold (\<lambda>b. tracker_set b False) [?s..<?s + ?n] (used_block_tracking_memory t)"
    by (simp_all add: t' removed_def Let_def fold_tracker_shift)
  have own: "owns ?m ?e (k div 8) \<longleftrightarrow> 8 * ?s \<le> k \<and> k < 8 * ?s + 8 * ?n" for k
    using ne by (auto simp: owns_def)
  have "key_data_memory t' ! k = (if owns ?m ?e (k div 8) then 0 else ?m ! k)" if "k < 15104" for k
    using fits len that by (auto simp: mem nth_mem_write own)
  moreover have "blk_free (used_block_tracking_memory t') b \<longleftrightarrow>
      blk_free (used_block_tracking_memory t) b \<or> owns ?m ?e b" for b
    using blk_free_fold_set [OF table_wf_lengths(3) [OF wf], of "[?s..<?s + ?n]" False b] fits ne
    by (auto simp: ub owns_def)
  ultimately show ?thesis using removed_wf [OF wf ne] by (simp add: t' layout_values)
qed

theorem remove_entry_erases_witness:
  "\<exists>t'. remove_entry (\<lambda>_. False) 2 3 full_table = (Ok (), t') \<and> table_view t' 3 = None \<and>
     table_view t' 4 = table_view full_table 4"
proof -
  have ok: "remove_entry (\<lambda>_. False) 2 3 full_table = (Ok (), removed 3 full_table)"
    by (simp add: remove_entry_cases [OF full_table_wf] full_entry_at)
  show ?thesis using ok remove_entry_erases [OF full_table_wf ok] by simp
qed

text \<open>
  No key material outlives its entry. After any sequence of operations on a table that starts
  empty, every byte of key memory outside the blocks of the entries present is zero.
\<close>

theorem no_residue:
  assumes run: "table_keys.client_run ti A (empty_table addr) t" and addr: "addr mod 8 = 0"
    and k: "k < BLOB_MEMORY_SIZE_BYTES"
    and free: "\<forall>i < 256. \<not> owns (key_data_memory t) (entry_list t ! i) (k div 8)"
  shows "key_data_memory t ! k = 0"
proof -
  have wf: "table_wf t" using table_keys.client_run_good [OF run] addr by simp
  have b: "k div 8 < 1888" using k by (simp add: layout_values)
  have "blk_free (used_block_tracking_memory t) (k div 8)" using table_wf_free [OF wf b] free by simp
  then have "key_data_memory t ! (8 * (k div 8) + k mod 8) = 0"
    by (rule table_wf_zero [OF wf b]) simp
  then show ?thesis by simp
qed

theorem no_residue_witness: "key_data_memory (nuke (empty_table 0)) ! 12 = 0"
proof (rule no_residue [of 0 _ 0])
  show "table_keys.client_run 0 ({} \<union> UNIV) (empty_table 0) (nuke (empty_table 0))"
    by (rule table_keys.run_step [OF table_keys.run_refl table_keys.step_wipe])
  show "\<forall>i < 256. \<not> owns (key_data_memory (nuke (empty_table 0))) (entry_list (nuke (empty_table 0)) ! i) (12 div 8)"
    by (simp add: nuke_def empty_table_def)
qed (simp_all add: layout_values)


end
