(* ===== verification/Key_Store.thy ===== *)
theory Key_Store
  imports Table_Correct
begin

text \<open>
  The key store (\<open>vault/store/key_store.rs\<close>): the tables of a partition, picked by a bit mask out
  of the tables that all partitions share. A key number is a table index and a slot. The store
  meets the same contract \<open>key_map\<close> as a single table, with key numbers as identifiers; it never
  touches a table outside its mask, and it never gives out a tag that an enabled key of the same
  application already has.
\<close>

unbundle bit_operations_syntax

section \<open>State\<close>

text \<open>
  \<open>ks_tables\<close> is the memory of all tables: the one at index \<open>i\<close> is what the code finds at
  \<open>base + i * TOTAL_TABLE_LEN\<close>.
\<close>

record key_store =
  ks_mask :: u128
  ks_tables :: "physical_table list"

type_synonym 'a store_op = "key_store \<Rightarrow> 'a hsm_result \<times> key_store"

definition is_valid_table :: "key_store \<Rightarrow> u8 \<Rightarrow> bool" where
  "is_valid_table s table_index \<longleftrightarrow>
     unat table_index < MAX_TABLE_COUNT \<and> ks_mask s AND push_bit (unat table_index) 1 \<noteq> 0"

definition get_table :: "key_store \<Rightarrow> u8 \<Rightarrow> physical_table hsm_result" where
  "get_table s table_index =
     (if \<not> is_valid_table s table_index then Err InvalidKeyIndex
      else Ok (ks_tables s ! unat table_index))"

text \<open>A call on the table behind \<open>get_table_mut\<close>, whose changes stay in the memory.\<close>

definition on_table :: "u8 \<Rightarrow> 'a table_op \<Rightarrow> 'a store_op" where
  "on_table table_index f s =
     try_in (get_table s table_index) s (\<lambda>table.
       case f table of (r, table') \<Rightarrow>
         (r, s\<lparr>ks_tables := (ks_tables s)[unat table_index := table']\<rparr>))"

section \<open>Operations\<close>

fun tag_in_tables :: "key_store \<Rightarrow> u8 \<Rightarrow> u16 \<Rightarrow> nat list \<Rightarrow> u16 hsm_result" where
  "tag_in_tables s app_id key_tag [] = Err KeyNotFound"
| "tag_in_tables s app_id key_tag (i # is) =
     (let table_index = (of_nat i :: u8) in
      if \<not> is_valid_table s table_index then tag_in_tables s app_id key_tag is
      else and_then (get_table s table_index) (\<lambda>table.
             case get_entry_index_by_tag table app_id key_tag of
               Ok entry_index \<Rightarrow> Ok (key_number table_index entry_index)
             | Err _ \<Rightarrow> tag_in_tables s app_id key_tag is
             | Panic \<Rightarrow> Panic))"

definition ks_get_entry_index_by_tag :: "key_store \<Rightarrow> u8 \<Rightarrow> u16 \<Rightarrow> u16 hsm_result" where
  "ks_get_entry_index_by_tag s app_id key_tag =
     tag_in_tables s app_id key_tag [0..<MAX_TABLE_COUNT]"

text \<open>The \<open>find_map\<close> over the tables, with the flag its closure sets.\<close>

fun add_in_tables ::
  "entry_attributes \<Rightarrow> u16 \<Rightarrow> entry_kind \<Rightarrow> u8 \<Rightarrow> bytes \<Rightarrow> nat list \<Rightarrow> bool \<Rightarrow> u16 store_op" where
  "add_in_tables attributes tag kind app_id blob [] defrag_needed s =
     (Err (if defrag_needed then DefragNeeded else NotEnoughSpace), s)"
| "add_in_tables attributes tag kind app_id blob (i # is) defrag_needed s =
     (let table_index = (of_nat i :: u8) in
      case get_table s table_index of
        Ok _ \<Rightarrow>
          (case on_table table_index (add_entry attributes tag kind app_id blob) s of
             (Ok entry_index, s') \<Rightarrow> (Ok (key_number table_index entry_index), s')
           | (Err e, s') \<Rightarrow>
               add_in_tables attributes tag kind app_id blob is
                 (if e = DefragNeeded then True else defrag_needed) s'
           | (Panic, s') \<Rightarrow> (Panic, s'))
      | _ \<Rightarrow> add_in_tables attributes tag kind app_id blob is defrag_needed s)"

definition ks_add_entry ::
  "entry_attributes \<Rightarrow> u16 \<Rightarrow> entry_kind \<Rightarrow> u8 \<Rightarrow> bytes \<Rightarrow> u16 store_op" where
  "ks_add_entry attributes session_id_or_key_tag kind app_id blob s =
     (if kind = EK_Free then (Err InvalidArgument, s)
      else
        try_in
          (if is_var_hmac_key kind then
             let key_len = unat (entry_specific attributes ! KEY_LENGTH_INDEX)
             in if key_len = 0 then Err InvalidArgument else Ok key_len
           else raw_key_blob_size kind) s
          (\<lambda>expected_key_len.
            if length blob \<noteq> expected_key_len then (Err InvalidArgument, s)
            else if \<not> flag_get AF_session (attr_flags attributes) \<and>
                    session_id_or_key_tag \<noteq> KEY_TAG_UNASSIGNED \<and>
                    is_ok (ks_get_entry_index_by_tag s app_id session_id_or_key_tag)
            then (Err KeyTagAlreadyExists, s)
            else add_in_tables attributes session_id_or_key_tag kind app_id blob
                   [0..<MAX_TABLE_COUNT] False s))"

definition ks_enable_entry :: "u16 \<Rightarrow> unit store_op" where
  "ks_enable_entry entry s = on_table (key_number_table entry) (enable_entry (key_number_entry entry)) s"

definition ks_disable_entry :: "u16 \<Rightarrow> unit store_op" where
  "ks_disable_entry entry s = on_table (key_number_table entry) (disable_entry (key_number_entry entry)) s"

definition ks_remove_entry :: "(u16 \<Rightarrow> bool) \<Rightarrow> u16 \<Rightarrow> unit store_op" where
  "ks_remove_entry key_in_use_cb entry s =
     (let table_index = key_number_table entry
      in on_table table_index (remove_entry key_in_use_cb table_index (key_number_entry entry)) s)"

text \<open>The loop of the two bulk removals over the tables of the store.\<close>

fun remove_in_tables :: "(u8 \<Rightarrow> u8 table_op) \<Rightarrow> nat list \<Rightarrow> u16 \<Rightarrow> u16 \<Rightarrow> u16 store_op" where
  "remove_in_tables f [] delete_count failed_delete_count s =
     (if failed_delete_count = 0 then (Ok delete_count, s)
      else if failed_delete_count = 1 then (Err CannotDeleteKeyInUse, s)
      else (Err CannotDeleteSomeKeysInUse, s))"
| "remove_in_tables f (i # is) delete_count failed_delete_count s =
     (let table_index = (of_nat i :: u8) in
      if \<not> is_valid_table s table_index then remove_in_tables f is delete_count failed_delete_count s
      else
        case on_table table_index (f table_index) s of
          (Ok count, s') \<Rightarrow> remove_in_tables f is (delete_count + ucast count) failed_delete_count s'
        | (Err e, s') \<Rightarrow>
            remove_in_tables f is delete_count
              (if e = CannotDeleteKeyInUse then failed_delete_count + 1 else failed_delete_count + 2) s'
        | (Panic, s') \<Rightarrow> (Panic, s'))"

definition ks_remove_all_session_only_entries :: "(u16 \<Rightarrow> bool) \<Rightarrow> u16 \<Rightarrow> u16 store_op" where
  "ks_remove_all_session_only_entries key_in_use_cb session_id s =
     remove_in_tables
       (\<lambda>table_index. remove_all_session_only_entries key_in_use_cb table_index session_id)
       [0..<MAX_TABLE_COUNT] 0 0 s"

definition ks_remove_all_entries_for_app :: "(u16 \<Rightarrow> bool) \<Rightarrow> u8 \<Rightarrow> u16 store_op" where
  "ks_remove_all_entries_for_app key_in_use_cb app_id s =
     remove_in_tables
       (\<lambda>table_index. remove_all_entries_for_app key_in_use_cb table_index app_id)
       [0..<MAX_TABLE_COUNT] 0 0 s"

definition ks_get_entry :: "key_store \<Rightarrow> u16 \<Rightarrow> bool \<Rightarrow> physical_entry hsm_result" where
  "ks_get_entry s entry allow_disabled =
     and_then (get_table s (key_number_table entry))
       (\<lambda>table. get_entry table (key_number_entry entry) allow_disabled)"

definition ks_get_entry_attributes :: "key_store \<Rightarrow> u16 \<Rightarrow> bool \<Rightarrow> entry_attributes hsm_result" where
  "ks_get_entry_attributes s entry allow_disabled =
     and_then (get_table s (key_number_table entry))
       (\<lambda>table. get_entry_attributes table (key_number_entry entry) allow_disabled)"

definition ks_get_entry_blob :: "key_store \<Rightarrow> u16 \<Rightarrow> bytes hsm_result" where
  "ks_get_entry_blob s entry =
     and_then (get_table s (key_number_table entry))
       (\<lambda>table. get_entry_blob table (key_number_entry entry))"

definition nuke_table :: "nat \<Rightarrow> key_store \<Rightarrow> key_store" where
  "nuke_table i s =
     (case get_table s (of_nat i) of
        Ok table \<Rightarrow> s\<lparr>ks_tables := (ks_tables s)[i := nuke table]\<rparr>
      | _ \<Rightarrow> s)"

definition ks_nuke :: "key_store \<Rightarrow> key_store" where
  "ks_nuke s = fold nuke_table [0..<MAX_TABLE_COUNT] s"

section \<open>The map of the store\<close>

definition store_view :: "key_store \<Rightarrow> u16 \<Rightarrow> stored_key option" where
  "store_view s n =
     (if is_valid_table s (key_number_table n)
      then table_view (ks_tables s ! unat (key_number_table n)) (key_number_entry n) else None)"

definition store_wf :: "key_store \<Rightarrow> bool" where
  "store_wf s \<longleftrightarrow> length (ks_tables s) = MAX_TABLE_COUNT \<and>
     (\<forall>i. is_valid_table s i \<longrightarrow> table_wf (ks_tables s ! unat i))"

text \<open>The tables that are not of this store.\<close>

definition same_outside :: "key_store \<Rightarrow> key_store \<Rightarrow> bool" where
  "same_outside s s' \<longleftrightarrow> ks_mask s' = ks_mask s \<and> length (ks_tables s') = length (ks_tables s) \<and>
     (\<forall>i < length (ks_tables s). \<not> is_valid_table s (of_nat i) \<longrightarrow> ks_tables s' ! i = ks_tables s ! i)"

lemma is_valid_table_bound: "is_valid_table s i \<Longrightarrow> unat i < 65"
  by (simp add: is_valid_table_def layout_values)

lemma store_wf_length: "store_wf s \<Longrightarrow> length (ks_tables s) = 65"
  by (simp add: store_wf_def layout_values)

lemma store_wf_table: "store_wf s \<Longrightarrow> is_valid_table s i \<Longrightarrow> table_wf (ks_tables s ! unat i)"
  by (simp add: store_wf_def)

lemma is_valid_table_tables [simp]: "is_valid_table (s\<lparr>ks_tables := ts\<rparr>) i = is_valid_table s i"
  by (simp add: is_valid_table_def)

text \<open>Replacing one table of the store by a good one.\<close>

lemma store_update:
  assumes wf: "store_wf s" and ti: "is_valid_table s ti" and t: "table_wf t'"
  shows "store_wf (s\<lparr>ks_tables := (ks_tables s)[unat ti := t']\<rparr>)"
    and "store_view (s\<lparr>ks_tables := (ks_tables s)[unat ti := t']\<rparr>) n =
      (if key_number_table n = ti then table_view t' (key_number_entry n) else store_view s n)"
    and "same_outside s (s\<lparr>ks_tables := (ks_tables s)[unat ti := t']\<rparr>)"
  using assms store_wf_length [OF wf] is_valid_table_bound [OF ti]
  by (auto simp: store_wf_def store_view_def same_outside_def nth_list_update)


lemma same_outside_refl [simp]: "same_outside s s"
  by (simp add: same_outside_def)

lemma same_outside_trans: "same_outside s s' \<Longrightarrow> same_outside s' s'' \<Longrightarrow> same_outside s s''"
  by (auto simp: same_outside_def is_valid_table_def)

lemma store_view_table:
  "is_valid_table s (key_number_table n) \<Longrightarrow>
    store_view s n = table_view (ks_tables s ! unat (key_number_table n)) (key_number_entry n)"
  by (simp add: store_view_def)

lemma store_view_no_table: "\<not> is_valid_table s (key_number_table n) \<Longrightarrow> store_view s n = None"
  by (simp add: store_view_def)

lemma on_table_invalid:
  "\<not> is_valid_table s ti \<Longrightarrow> on_table ti f s = (Err InvalidKeyIndex, s)"
  by (simp add: on_table_def get_table_def)

lemma on_table_valid:
  "is_valid_table s ti \<Longrightarrow> f (ks_tables s ! unat ti) = (r, t') \<Longrightarrow>
    on_table ti f s = (r, s\<lparr>ks_tables := (ks_tables s)[unat ti := t']\<rparr>)"
  by (simp add: on_table_def get_table_def)

text \<open>
  An operation on one slot of one table, lifted to the store: the table's specification at the
  slot is the store's at the key number.
\<close>

definition slot_set_disabled :: "bool \<Rightarrow> stored_key option \<Rightarrow> unit hsm_result \<times> stored_key option" where
  "slot_set_disabled x k =
     (case k of None \<Rightarrow> (Err InvalidKeyIndex, None) | Some k \<Rightarrow> (Ok (), Some (sk_set_disabled x k)))"

definition slot_remove :: "bool \<Rightarrow> stored_key option \<Rightarrow> unit hsm_result \<times> stored_key option" where
  "slot_remove busy k =
     (case k of None \<Rightarrow> (Err InvalidKeyIndex, None)
      | Some k \<Rightarrow> if busy then (Err CannotDeleteKeyInUse, Some (sk_set_disabled True k)) else (Ok (), None))"

lemma spec_set_disabled_slot:
  "spec_set_disabled x i m = (fst (slot_set_disabled x (m i)), m(i := snd (slot_set_disabled x (m i))))"
  by (auto simp: spec_set_disabled_def slot_set_disabled_def split: option.splits)

lemma spec_remove_slot:
  "spec_remove busy i m = (fst (slot_remove (busy i) (m i)), m(i := snd (slot_remove (busy i) (m i))))"
  by (auto simp: spec_remove_def slot_remove_def split: option.splits)

lemma on_table_follows:
  fixes f :: "stored_key option \<Rightarrow> unit hsm_result \<times> stored_key option"
  assumes fol: "follows table_wf table_view (op (key_number_entry n)) sp"
    and sp: "\<And>m. sp m = (fst (f (m (key_number_entry n))), m(key_number_entry n := snd (f (m (key_number_entry n)))))"
    and none: "f None = (Err InvalidKeyIndex, None)"
  shows "follows store_wf store_view (on_table (key_number_table n) (op (key_number_entry n)))
    (\<lambda>m. (fst (f (m n)), m(n := snd (f (m n)))))"
proof (unfold follows_def, intro allI impI)
  fix s assume wf: "store_wf s"
  let ?ti = "key_number_table n" and ?ei = "key_number_entry n"
  let ?on = "on_table ?ti (op ?ei) s"
  show "store_wf (snd ?on) \<and> (fst ?on, store_view (snd ?on)) =
      (fst (f (store_view s n)), (store_view s)(n := snd (f (store_view s n))))"
  proof (cases "is_valid_table s ?ti")
    case False
    then show ?thesis
      using wf none by (auto simp: on_table_invalid store_view_no_table)
  next
    case True
    obtain r t' where step: "op ?ei (ks_tables s ! unat ?ti) = (r, t')" by fastforce
    note d = followsD [OF fol store_wf_table [OF wf True] step]
    note up = store_update [OF wf True d(1)]
    have "m = ?ei" if "key_number ?ti m = n" for m
      using that by (metis key_number_entry_number)
    then have at: "key_number_table m = ?ti \<and> key_number_entry m = ?ei \<longleftrightarrow> m = n" for m
      by (metis key_number_parts)
    have "store_view (s\<lparr>ks_tables := (ks_tables s)[unat ?ti := t']\<rparr>) m =
        ((store_view s)(n := snd (f (store_view s n)))) m" for m
      using up(2) [of m] d(3) at [of m] True by (auto simp: sp store_view_table)
    then show ?thesis
      using on_table_valid [OF True, of "op ?ei" r t', OF step] up(1) d(2) True
      by (auto simp: sp store_view_table fun_eq_iff)
  qed
qed

lemma ks_enable_entry_follows:
  "follows store_wf store_view (ks_enable_entry n) (spec_set_disabled False n)"
  using on_table_follows [where n = n and op = enable_entry and f = "slot_set_disabled False",
      OF enable_entry_follows spec_set_disabled_slot]
  by (simp add: ks_enable_entry_def [abs_def] spec_set_disabled_slot [abs_def])
     (simp add: slot_set_disabled_def)

lemma ks_disable_entry_follows:
  "follows store_wf store_view (ks_disable_entry n) (spec_set_disabled True n)"
  using on_table_follows [where n = n and op = disable_entry and f = "slot_set_disabled True",
      OF disable_entry_follows spec_set_disabled_slot]
  by (simp add: ks_disable_entry_def [abs_def] spec_set_disabled_slot [abs_def])
     (simp add: slot_set_disabled_def)

lemma ks_remove_entry_follows:
  "follows store_wf store_view (ks_remove_entry cb n) (spec_remove cb n)"
  using on_table_follows [where n = n and op = "remove_entry cb (key_number_table n)" and
      f = "slot_remove (cb n)", OF remove_entry_follows]
  by (simp add: ks_remove_entry_def [abs_def] spec_remove_slot [abs_def] Let_def)
     (simp add: slot_remove_def)


section \<open>Reading\<close>

lemma ks_get_entry_attributes_view:
  assumes "store_wf s"
  shows "ks_get_entry_attributes s n allow = spec_attributes n allow (store_view s)"
  using table_keys.attributes [OF store_wf_table [OF assms], of "key_number_table n" "key_number_entry n" allow]
  by (auto simp: ks_get_entry_attributes_def get_table_def store_view_def spec_attributes_def)

lemma ks_get_entry_blob_view:
  assumes "store_wf s"
  shows "ks_get_entry_blob s n = spec_blob n (store_view s)"
  using table_keys.blob [OF store_wf_table [OF assms], of "key_number_table n" "key_number_entry n"]
  by (auto simp: ks_get_entry_blob_def get_table_def store_view_def spec_blob_def)

text \<open>The metadata of an entry agree with the stored key.\<close>

definition entry_matches :: "physical_entry \<Rightarrow> stored_key \<Rightarrow> bool" where
  "entry_matches e k \<longleftrightarrow> pe_kind e = sk_kind k \<and> pe_app_id e = sk_app_id k \<and>
     pe_session_id_or_key_tag e = sk_session_id_or_key_tag k \<and> pe_flags e = sk_flags k"

lemma entry_matches_stored: "entry_matches e (stored_of mem e)"
  by (simp add: entry_matches_def stored_of_def)

lemma entry_matches_derived:
  assumes "entry_matches e k"
  shows "pe_session_id e = sk_session_id k" "pe_key_tag e = sk_key_tag k" "pe_disabled e = sk_disabled k"
  using assms by (simp_all add: entry_matches_def pe_session_id_def sk_session_id_def pe_key_tag_def
      sk_key_tag_def pe_disabled_def sk_disabled_def)

lemma stored_of_derived [simp]:
  "sk_disabled (stored_of mem e) = pe_disabled e" "sk_key_tag (stored_of mem e) = pe_key_tag e"
  "sk_session_id (stored_of mem e) = pe_session_id e" "sk_app_id (stored_of mem e) = pe_app_id e"
  using entry_matches_derived [OF entry_matches_stored [of e mem]] by (simp_all add: stored_of_def)

lemma ks_get_entry_Ok:
  assumes "ks_get_entry s n allow = Ok e"
  obtains k where "store_view s n = Some k" "entry_matches e k" "allow \<or> \<not> sk_disabled k"
proof -
  have valid: "is_valid_table s (key_number_table n)"
    and e: "e = entry_list (ks_tables s ! unat (key_number_table n)) ! unat (key_number_entry n)"
      "\<not> pe_is_empty e" "allow \<or> \<not> pe_disabled e"
    using assms by (auto simp: ks_get_entry_def get_table_def get_entry_eq res_simps split: if_splits)
  show ?thesis
    by (rule that [of "stored_of (key_data_memory (ks_tables s ! unat (key_number_table n))) e"])
       (use valid e entry_matches_stored [of e] in
         \<open>auto simp: store_view_def table_view_def\<close>)
qed

lemma ks_get_entry_cases:
  "ks_get_entry s n allow =
     (case store_view s n of None \<Rightarrow> Err InvalidKeyIndex
      | Some k \<Rightarrow> if \<not> allow \<and> sk_disabled k then Err InvalidKeyIndex
                 else Ok (entry_list (ks_tables s ! unat (key_number_table n)) ! unat (key_number_entry n)))"
  by (simp add: ks_get_entry_def get_table_def get_entry_eq store_view_def table_view_def Let_def)

section \<open>Keys by tag\<close>

definition tagged :: "u8 \<Rightarrow> u16 \<Rightarrow> stored_key \<Rightarrow> bool" where
  "tagged app_id key_tag k \<longleftrightarrow> \<not> sk_disabled k \<and> sk_app_id k = app_id \<and> sk_key_tag k = Some key_tag"

lemma table_tagged_iff:
  "(\<exists>k. table_view t i = Some k \<and> tagged app tag k) \<longleftrightarrow>
     (let e = entry_list t ! unat i
      in \<not> pe_is_empty e \<and> \<not> pe_disabled e \<and> pe_app_id e = app \<and> pe_key_tag e = Some tag)"
  by (auto simp: table_view_def tagged_def Let_def)

lemma table_tag_Ok:
  assumes "table_wf t" and "get_entry_index_by_tag t app tag = Ok i"
  shows "\<exists>k. table_view t i = Some k \<and> tagged app tag k"
  using assms
  by (auto simp: get_entry_index_by_tag_def table_tagged_iff res_simps position_Some table_wf_lengths Let_def
      split: if_splits)

lemma table_tag_Err:
  assumes "table_wf t" and "tag \<noteq> KEY_TAG_UNASSIGNED" and "get_entry_index_by_tag t app tag = Err x"
    and "table_view t i = Some k"
  shows "\<not> tagged app tag k"
proof
  assume "tagged app tag k"
  with assms(4) have "\<exists>k. table_view t i = Some k \<and> tagged app tag k" by blast
  then have "\<not> pe_is_empty (entry_list t ! unat i) \<and> \<not> pe_disabled (entry_list t ! unat i) \<and>
      pe_app_id (entry_list t ! unat i) = app \<and> pe_key_tag (entry_list t ! unat i) = Some tag"
    by (simp add: table_tagged_iff Let_def)
  then show False
    using assms
    by (auto simp: get_entry_index_by_tag_def res_simps position_None table_wf_lengths
        dest!: spec [of _ "unat i"])
qed

lemma table_tag_not_Panic: "get_entry_index_by_tag t app tag \<noteq> Panic"
  by (simp add: get_entry_index_by_tag_def res_simps)

lemma tag_in_tables_Ok:
  assumes "store_wf s"
  shows "tag_in_tables s app tag is = Ok n \<Longrightarrow> \<exists>k. store_view s n = Some k \<and> tagged app tag k"
proof (induction "is")
  case (Cons i "is")
  show ?case
  proof (cases "is_valid_table s (of_nat i)")
    case True
    with Cons show ?thesis
      using table_tag_Ok [OF store_wf_table [OF assms True], of app tag]
      by (auto simp: get_table_def Let_def store_view_table split: outcome.splits)
  qed (use Cons in simp)
qed simp

lemma tag_in_tables_Err:
  assumes wf: "store_wf s" and tag: "tag \<noteq> KEY_TAG_UNASSIGNED"
  shows "tag_in_tables s app tag is = Err x \<Longrightarrow> store_view s n = Some k \<Longrightarrow>
    unat (key_number_table n) \<in> set is \<Longrightarrow> \<not> tagged app tag k"
proof (induction "is")
  case (Cons i "is")
  show ?case
  proof (cases "is_valid_table s (of_nat i)")
    case True
    let ?r = "get_entry_index_by_tag (ks_tables s ! unat (of_nat i :: u8)) app tag"
    have r: "\<exists>y. ?r = Err y" "tag_in_tables s app tag is = Err x"
      using Cons.prems(1) True by (auto simp: get_table_def Let_def split: outcome.splits)
    show ?thesis
    proof (cases "unat (key_number_table n) \<in> set is")
      case False
      then have "of_nat i = key_number_table n" using Cons.prems(3) by auto
      then show ?thesis
        using r(1) Cons.prems(2) table_tag_Err [OF store_wf_table [OF wf True] tag] True
        by (auto simp: store_view_table)
    qed (use Cons r in blast)
  next
    case False
    then have "of_nat i \<noteq> key_number_table n" using Cons.prems(2) by (auto simp: store_view_no_table)
    then have "unat (key_number_table n) \<noteq> i" by auto
    then show ?thesis using Cons False by simp
  qed
qed simp

lemma tag_in_tables_not_Panic: "tag_in_tables s app tag is \<noteq> Panic"
  by (induction "is") (auto simp: get_table_def Let_def table_tag_not_Panic split: outcome.splits)

lemma ks_by_tag_iff:
  assumes wf: "store_wf s" and tag: "tag \<noteq> KEY_TAG_UNASSIGNED"
  shows "is_ok (ks_get_entry_index_by_tag s app tag) \<longleftrightarrow>
    (\<exists>n k. store_view s n = Some k \<and> tagged app tag k)"
proof
  assume "is_ok (ks_get_entry_index_by_tag s app tag)"
  then show "\<exists>n k. store_view s n = Some k \<and> tagged app tag k"
    unfolding is_ok_iff ks_get_entry_index_by_tag_def using tag_in_tables_Ok [OF wf] by blast
next
  assume "\<exists>n k. store_view s n = Some k \<and> tagged app tag k"
  then obtain n k where k: "store_view s n = Some k" "tagged app tag k" by blast
  then have "unat (key_number_table n) \<in> set [0..<MAX_TABLE_COUNT]"
    using is_valid_table_bound [of s "key_number_table n"]
    by (auto simp: layout_values store_view_def split: if_splits)
  then show "is_ok (ks_get_entry_index_by_tag s app tag)"
    using tag_in_tables_Err [OF wf tag _ k(1)] k(2) tag_in_tables_not_Panic
    unfolding ks_get_entry_index_by_tag_def
    by (cases "tag_in_tables s app tag [0..<MAX_TABLE_COUNT]") auto
qed


section \<open>Adding a key\<close>

lemma add_in_tables_spec:
  assumes wf: "store_wf s" and a: "attributes_wf a"
  shows "(\<exists>n s'. add_in_tables a tag kind app b is d s = (Ok n, s') \<and> store_wf s' \<and> same_outside s s' \<and>
            store_view s n = None \<and> is_valid_table s (key_number_table n) \<and> add_valid a kind b \<and>
            store_view s' = (store_view s)(n \<mapsto> new_key a tag kind app b))
       \<or> (\<exists>x \<in> {DefragNeeded, NotEnoughSpace}. add_in_tables a tag kind app b is d s = (Err x, s))"
proof (induction "is" arbitrary: d)
  case Nil
  then show ?case by simp
next
  case (Cons i "is")
  let ?ti = "of_nat i :: u8"
  show ?case
  proof (cases "is_valid_table s ?ti")
    case False
    then show ?thesis using Cons.IH [of d] by (simp add: get_table_def Let_def)
  next
    case True
    let ?t = "ks_tables s ! unat ?ti"
    have twf: "table_wf ?t" by (rule store_wf_table [OF wf True])
    obtain r t' where step: "add_entry a tag kind app b ?t = (r, t')" by fastforce
    have on: "on_table ?ti (add_entry a tag kind app b) s = (r, s\<lparr>ks_tables := (ks_tables s)[unat ?ti := t']\<rparr>)"
      by (rule on_table_valid [where f = "add_entry a tag kind app b", OF True step])
    show ?thesis
    proof (cases "is_ok r")
      case False
      then have t': "t' = ?t" and r: "r \<in> {Err InvalidArgument, Err NotEnoughSpace, Err DefragNeeded}"
        using add_entry_not_Ok [OF twf a step] by auto
      from on t' have "on_table ?ti (add_entry a tag kind app b) s = (r, s)" by simp
      then show ?thesis using r Cons.IH [of d] Cons.IH [of True] True by (auto simp: get_table_def Let_def)
    next
      case ok: True
      then obtain ei where r: "r = Ok ei" by (auto simp: is_ok_iff)
      note add = add_entry_Ok [OF twf a step [unfolded r]]
      note up = store_update [OF wf True add(2)]
      have here: "key_number_table n = ?ti \<and> key_number_entry n = ei \<longleftrightarrow> n = key_number ?ti ei" for n
        by (metis key_number_parts key_number_table_number key_number_entry_number)
      have "store_view (s\<lparr>ks_tables := (ks_tables s)[unat ?ti := t']\<rparr>) n =
          ((store_view s)(key_number ?ti ei \<mapsto> new_key a tag kind app b)) n" for n
        using up(2) [of n] add(4) here [of n] True by (auto simp: store_view_table)
      moreover have "store_view s (key_number ?ti ei) = None" using add(3) True by (simp add: store_view_table)
      ultimately show ?thesis
        using on r up(1,3) add(1) True
        by (intro disjI1 exI conjI) (auto simp: get_table_def Let_def)
    qed
  qed
qed

text \<open>The checks before the search through the tables.\<close>

definition ks_add_checks :: "entry_attributes \<Rightarrow> u16 \<Rightarrow> entry_kind \<Rightarrow> u8 \<Rightarrow> bytes \<Rightarrow> key_store \<Rightarrow> hsm_err option" where
  "ks_add_checks a tag kind app b s =
     (if kind = EK_Free \<or>
         (if is_var_hmac_key kind
          then let n = unat (entry_specific a ! KEY_LENGTH_INDEX) in n = 0 \<or> length b \<noteq> n
          else raw_key_blob_size kind \<noteq> Ok (length b))
      then Some InvalidArgument
      else if \<not> flag_get AF_session (attr_flags a) \<and> tag \<noteq> KEY_TAG_UNASSIGNED \<and>
              is_ok (ks_get_entry_index_by_tag s app tag)
      then Some KeyTagAlreadyExists else None)"

lemma ks_add_entry_checks:
  "ks_add_entry a tag kind app b s =
     (case ks_add_checks a tag kind app b s of
        Some e \<Rightarrow> (Err e, s)
      | None \<Rightarrow> add_in_tables a tag kind app b [0..<MAX_TABLE_COUNT] False s)"
  by (cases kind rule: raw_size_cases) (auto simp: ks_add_entry_def ks_add_checks_def Let_def)

lemma ks_add_entry_Ok:
  assumes wf: "store_wf s" and a: "attributes_wf a" and ok: "ks_add_entry a tag kind app b s = (Ok n, s')"
  shows "store_wf s'" "same_outside s s'" "store_view s n = None" "is_valid_table s (key_number_table n)"
    "store_view s' = (store_view s)(n \<mapsto> new_key a tag kind app b)" "add_valid a kind b"
    "ks_add_checks a tag kind app b s = None"
  using ok add_in_tables_spec [OF wf a, of tag kind app b "[0..<MAX_TABLE_COUNT]" False]
  by (auto simp: ks_add_entry_checks split: option.splits)

lemma ks_add_entry_not_Ok:
  assumes wf: "store_wf s" and a: "attributes_wf a"
    and r: "ks_add_entry a tag kind app b s = (r, s')" "\<not> is_ok r"
  shows "s' = s" "r \<in> {Err InvalidArgument, Err KeyTagAlreadyExists, Err DefragNeeded, Err NotEnoughSpace}"
  using r add_in_tables_spec [OF wf a, of tag kind app b "[0..<MAX_TABLE_COUNT]" False]
  by (auto simp: ks_add_entry_checks ks_add_checks_def split: option.splits if_splits)

section \<open>Clearing the store\<close>

lemma nuke_table_wf:
  assumes wf: "store_wf s" and i: "i < 65"
  shows "store_wf (nuke_table i s)" "same_outside s (nuke_table i s)"
    "store_view (nuke_table i s) n = (if unat (key_number_table n) = i then None else store_view s n)"
proof -
  have ti: "unat (of_nat i :: u8) = i" using i by simp
  have "store_wf (nuke_table i s) \<and> same_outside s (nuke_table i s) \<and>
    store_view (nuke_table i s) n = (if unat (key_number_table n) = i then None else store_view s n)"
  proof (cases "is_valid_table s (of_nat i)")
    case True
    note nk = nuke_wf [OF store_wf_table [OF wf True]]
    have "key_number_table n = of_nat i \<longleftrightarrow> unat (key_number_table n) = i" using ti by auto
    then show ?thesis
      using store_update [OF wf True nk(1)] nk(2) True ti by (simp add: nuke_table_def get_table_def)
  next
    case False
    then have "unat (key_number_table n) = i \<Longrightarrow> store_view s n = None"
      by (auto simp: store_view_no_table)
    then show ?thesis using False wf by (simp add: nuke_table_def get_table_def)
  qed
  then show "store_wf (nuke_table i s)" "same_outside s (nuke_table i s)"
    "store_view (nuke_table i s) n = (if unat (key_number_table n) = i then None else store_view s n)"
    by simp_all
qed

lemma nuke_fold:
  assumes "store_wf s" and "\<forall>i \<in> set is. i < 65"
  shows "store_wf (fold nuke_table is s) \<and> same_outside s (fold nuke_table is s) \<and>
    (\<forall>n. store_view (fold nuke_table is s) n =
       (if unat (key_number_table n) \<in> set is then None else store_view s n))"
  using assms
proof (induction "is" arbitrary: s)
  case (Cons i "is")
  then have i: "i < 65" by simp
  note s1 = nuke_table_wf [OF Cons.prems(1) i]
  show ?case
    using Cons.IH [OF s1(1)] Cons.prems(2) s1(2,3) same_outside_trans [OF s1(2)] by auto
qed simp

lemma ks_nuke_wf:
  assumes "store_wf s"
  shows "store_wf (ks_nuke s)" "same_outside s (ks_nuke s)" "store_view (ks_nuke s) = Map.empty"
proof -
  note f = nuke_fold [OF assms, of "[0..<MAX_TABLE_COUNT]"]
  show "store_wf (ks_nuke s)" "same_outside s (ks_nuke s)"
    using f by (simp_all add: ks_nuke_def layout_values)
  have "store_view s n = None" if "\<not> unat (key_number_table n) < 65" for n
    using that is_valid_table_bound [of s "key_number_table n"] by (auto simp: store_view_def)
  then show "store_view (ks_nuke s) = Map.empty"
    using f by (auto simp: ks_nuke_def layout_values fun_eq_iff)
qed

interpretation store_keys: key_map store_wf store_view "\<lambda>n. n" ks_add_entry ks_enable_entry ks_disable_entry
  ks_remove_entry ks_nuke ks_get_entry_attributes ks_get_entry_blob
proof unfold_locales
  fix s a tag kind app b r s'
  assume "store_wf s" "attributes_wf a" "ks_add_entry a tag kind app b s = (r, s')" "\<not> is_ok r"
  from ks_add_entry_not_Ok [OF this] show "s' = s \<and> r \<noteq> Panic" by auto
next
  fix s a tag kind app b n s'
  assume "store_wf s" "attributes_wf a" "ks_add_entry a tag kind app b s = (Ok n, s')"
  from ks_add_entry_Ok [OF this] show "store_wf s' \<and> store_view s n = None \<and>
      store_view s' = (store_view s)(n \<mapsto> new_key a tag kind app b)" by simp
qed (simp_all add: ks_get_entry_attributes_view ks_get_entry_blob_view ks_nuke_wf
      ks_enable_entry_follows ks_disable_entry_follows ks_remove_entry_follows)


section \<open>Bulk removal\<close>

text \<open>
  A table reports through 8-bit counters: how many keys it freed, and whether none, one or more
  were in use. What the store learns of \<open>n\<close> failures of one table is \<open>fail_weight n\<close>.
\<close>

definition fail_weight :: "nat \<Rightarrow> nat" where
  "fail_weight n = (if n mod 256 = 0 then 0 else if n mod 256 = 1 then 1 else 2)"

definition table_freed :: "(stored_key \<Rightarrow> bool) \<Rightarrow> (u16 \<Rightarrow> bool) \<Rightarrow> key_store \<Rightarrow> nat \<Rightarrow> nat" where
  "table_freed sel cb s i =
     (if is_valid_table s (of_nat i) then bulk_freed sel cb (of_nat i) [0..<256] (ks_tables s ! i) else 0)"

definition table_failed :: "(stored_key \<Rightarrow> bool) \<Rightarrow> (u16 \<Rightarrow> bool) \<Rightarrow> key_store \<Rightarrow> nat \<Rightarrow> nat" where
  "table_failed sel cb s i =
     (if is_valid_table s (of_nat i) then bulk_failed sel cb (of_nat i) [0..<256] (ks_tables s ! i) else 0)"

text \<open>What the contract of a bulk removal of one table says.\<close>

definition bulk_op :: "(stored_key \<Rightarrow> bool) \<Rightarrow> (u16 \<Rightarrow> bool) \<Rightarrow> (u8 \<Rightarrow> u8 table_op) \<Rightarrow> bool" where
  "bulk_op sel cb f \<longleftrightarrow> (\<forall>ti t. table_wf t \<longrightarrow>
     (\<exists>t'. f ti t = (bulk_result (of_nat (bulk_freed sel cb ti [0..<256] t),
                                  of_nat (bulk_failed sel cb ti [0..<256] t)), t') \<and>
           table_wf t' \<and> table_view t' = bulk_map sel (\<lambda>i. cb (key_number ti i)) (table_view t)))"

lemma bulk_op_session:
  "bulk_op (of_session session_id) cb (\<lambda>ti. remove_all_session_only_entries cb ti session_id)"
  using remove_all_session_spec by (simp add: bulk_op_def)

lemma bulk_op_app: "bulk_op (of_app app_id) cb (\<lambda>ti. remove_all_entries_for_app cb ti app_id)"
  using remove_all_app_spec by (simp add: bulk_op_def)

lemma of_nat_u8_eq: "(of_nat n :: u8) = 0 \<longleftrightarrow> n mod 256 = 0" "(of_nat n :: u8) = 1 \<longleftrightarrow> n mod 256 = 1"
proof -
  have "(of_nat n :: u8) = of_nat m \<longleftrightarrow> n mod 256 = m mod 256" for m
    by (simp add: word_of_nat_eq_iff take_bit_eq_mod)
  from this [of 0] this [of 1]
  show "(of_nat n :: u8) = 0 \<longleftrightarrow> n mod 256 = 0" "(of_nat n :: u8) = 1 \<longleftrightarrow> n mod 256 = 1" by simp_all
qed

lemma ucast_of_nat_u8: "(ucast (of_nat n :: u8) :: u16) = of_nat (n mod 256)"
  by (simp add: unsigned_of_nat take_bit_eq_mod)

text \<open>The end of the loop over the tables, from the two totals.\<close>

definition store_bulk_result :: "u16 \<Rightarrow> u16 \<Rightarrow> u16 hsm_result" where
  "store_bulk_result deleted failed =
     (if failed = 0 then Ok deleted
      else if failed = 1 then Err CannotDeleteKeyInUse else Err CannotDeleteSomeKeysInUse)"

lemma bulk_step:
  fixes rest :: "nat list" and dc fc :: u16
  assumes wf: "store_wf s" and bulk: "bulk_op sel cb f" and i: "i < 65"
  obtains s' where
    "remove_in_tables f (i # rest) dc fc s =
       remove_in_tables f rest
         (dc + of_nat (if fail_weight (table_failed sel cb s i) = 0 then table_freed sel cb s i mod 256 else 0))
         (fc + of_nat (fail_weight (table_failed sel cb s i))) s'"
    "store_wf s'" "same_outside s s'"
    "\<And>n. store_view s' n = (if unat (key_number_table n) = i
       then bulk_entry sel (cb n) (store_view s n) else store_view s n)"
    "\<And>j. j \<noteq> i \<Longrightarrow> ks_tables s' ! j = ks_tables s ! j"
proof (cases "is_valid_table s (of_nat i)")
  case False
  have "unat (key_number_table n) = i \<Longrightarrow> bulk_entry sel (cb n) (store_view s n) = store_view s n" for n
    using False by (auto simp: store_view_no_table bulk_entry_def)
  with False show ?thesis
    by (intro that [of s]) (auto simp: table_freed_def table_failed_def fail_weight_def wf)
next
  case True
  let ?ti = "of_nat i :: u8" and ?t = "ks_tables s ! i"
  let ?fr = "bulk_freed sel cb ?ti [0..<256] ?t" and ?fl = "bulk_failed sel cb ?ti [0..<256] ?t"
  have ti: "unat ?ti = i" using i by simp
  have twf: "table_wf ?t" using store_wf_table [OF wf True] ti by simp
  obtain t' where t': "f ?ti ?t = (bulk_result (of_nat ?fr, of_nat ?fl), t')" "table_wf t'"
    "table_view t' = bulk_map sel (\<lambda>i. cb (key_number ?ti i)) (table_view ?t)"
    using bulk twf unfolding bulk_op_def by blast
  note up = store_update [OF wf True t'(2)]
  have on: "on_table ?ti (f ?ti) s = (bulk_result (of_nat ?fr, of_nat ?fl), s\<lparr>ks_tables := (ks_tables s)[i := t']\<rparr>)"
    using on_table_valid [where f = "f ?ti" and ti = ?ti and s = s, OF True] t'(1) ti by simp
  have view: "store_view (s\<lparr>ks_tables := (ks_tables s)[i := t']\<rparr>) n =
      (if unat (key_number_table n) = i then bulk_entry sel (cb n) (store_view s n) else store_view s n)" for n
  proof -
    have "key_number_table n = ?ti \<longleftrightarrow> unat (key_number_table n) = i" using ti by auto
    moreover have "key_number ?ti (key_number_entry n) = n" if "key_number_table n = ?ti"
      using that key_number_parts [of n] by simp
    ultimately show ?thesis
      using up(2) [of n] t'(3) True ti by (auto simp: bulk_map_def store_view_table)
  qed
  have "table_freed sel cb s i = ?fr" "table_failed sel cb s i = ?fl"
    using True by (simp_all add: table_freed_def table_failed_def)
  then show ?thesis
    using on True up(1,3) view ti
    by (intro that [of "s\<lparr>ks_tables := (ks_tables s)[i := t']\<rparr>"])
       (auto simp: bulk_result_def fail_weight_def of_nat_u8_eq ucast_of_nat_u8 Let_def)
qed


lemma remove_in_tables_spec:
  assumes "store_wf s" and bulk: "bulk_op sel cb f" and "distinct is" and "\<forall>i \<in> set is. i < 65"
  shows "\<exists>s'. remove_in_tables f is dc fc s =
      (store_bulk_result
         (dc + of_nat (\<Sum>i\<leftarrow>is. if fail_weight (table_failed sel cb s i) = 0 then table_freed sel cb s i mod 256 else 0))
         (fc + of_nat (\<Sum>i\<leftarrow>is. fail_weight (table_failed sel cb s i))), s') \<and>
    store_wf s' \<and> same_outside s s' \<and>
    (\<forall>n. store_view s' n = (if unat (key_number_table n) \<in> set is
       then bulk_entry sel (cb n) (store_view s n) else store_view s n))"
  using assms(1,3,4)
proof (induction "is" arbitrary: s dc fc)
  case Nil
  then show ?case by (simp add: store_bulk_result_def)
next
  case (Cons i "is")
  then have i: "i < 65" and rest: "distinct is" "\<forall>i \<in> set is. i < 65" "i \<notin> set is" by auto
  let ?d = "\<lambda>s i. if fail_weight (table_failed sel cb s i) = 0 then table_freed sel cb s i mod 256 else 0"
  let ?w = "\<lambda>s i. fail_weight (table_failed sel cb s i)"
  obtain s1 where step: "remove_in_tables f (i # is) dc fc s =
      remove_in_tables f is (dc + of_nat (?d s i)) (fc + of_nat (?w s i)) s1"
    and s1: "store_wf s1" "same_outside s s1"
      "\<And>n. store_view s1 n = (if unat (key_number_table n) = i
         then bulk_entry sel (cb n) (store_view s n) else store_view s n)"
      "\<And>j. j \<noteq> i \<Longrightarrow> ks_tables s1 ! j = ks_tables s ! j"
    using bulk_step [OF Cons.prems(1) bulk i, where rest = "is" and dc = dc and fc = fc] by blast
  have same: "table_freed sel cb s1 j = table_freed sel cb s j" "table_failed sel cb s1 j = table_failed sel cb s j"
    if "j \<in> set is" for j
  proof -
    have "j \<noteq> i" using that rest(3) by auto
    moreover have "is_valid_table s1 = is_valid_table s"
      using s1(2) by (simp add: same_outside_def is_valid_table_def fun_eq_iff)
    ultimately show "table_freed sel cb s1 j = table_freed sel cb s j"
      "table_failed sel cb s1 j = table_failed sel cb s j"
      using s1(4) [of j] by (simp_all add: table_freed_def table_failed_def)
  qed
  have sums: "(\<Sum>j\<leftarrow>is. ?d s1 j) = (\<Sum>j\<leftarrow>is. ?d s j)" "(\<Sum>j\<leftarrow>is. ?w s1 j) = (\<Sum>j\<leftarrow>is. ?w s j)"
    using same by (simp_all cong: map_cong if_cong)
  obtain s' where s': "remove_in_tables f is (dc + of_nat (?d s i)) (fc + of_nat (?w s i)) s1 =
      (store_bulk_result (dc + of_nat (?d s i) + of_nat (\<Sum>j\<leftarrow>is. ?d s1 j))
         (fc + of_nat (?w s i) + of_nat (\<Sum>j\<leftarrow>is. ?w s1 j)), s')"
    "store_wf s'" "same_outside s1 s'"
    "\<And>n. store_view s' n = (if unat (key_number_table n) \<in> set is
       then bulk_entry sel (cb n) (store_view s1 n) else store_view s1 n)"
    using Cons.IH [OF s1(1) rest(1,2), of "dc + of_nat (?d s i)" "fc + of_nat (?w s i)"] by blast
  have "store_view s' n = (if unat (key_number_table n) \<in> set (i # is)
       then bulk_entry sel (cb n) (store_view s n) else store_view s n)" for n
    using s'(4) [of n] s1(3) [of n] rest(3) by (cases "unat (key_number_table n) = i") auto
  then show ?case
    using s'(2,3) s1(2) same_outside_trans [OF s1(2) s'(3)]
    by (intro exI [of _ s']) (simp only: step s'(1) sums, simp add: add.assoc)
qed

lemma fail_weight_bounds: "fail_weight n \<le> 2"
  by (simp add: fail_weight_def)

lemma fail_weight_small:
  assumes "n < 256"
  shows "fail_weight n = (if n = 0 then 0 else if n = 1 then 1 else 2)"
  using assms by (simp add: fail_weight_def)

text \<open>The totals over the tables of the store.\<close>

definition store_freed :: "(stored_key \<Rightarrow> bool) \<Rightarrow> (u16 \<Rightarrow> bool) \<Rightarrow> key_store \<Rightarrow> nat" where
  "store_freed sel cb s = (\<Sum>i\<leftarrow>[0..<65]. table_freed sel cb s i)"

definition store_failed :: "(stored_key \<Rightarrow> bool) \<Rightarrow> (u16 \<Rightarrow> bool) \<Rightarrow> key_store \<Rightarrow> nat" where
  "store_failed sel cb s = (\<Sum>i\<leftarrow>[0..<65]. table_failed sel cb s i)"

definition no_full_table :: "(stored_key \<Rightarrow> bool) \<Rightarrow> key_store \<Rightarrow> bool" where
  "no_full_table sel s \<longleftrightarrow>
     (\<forall>i < 65. \<exists>j < 256. \<not> is_selected sel (table_view (ks_tables s ! i) (of_nat j)))"

lemma no_full_table_bounds:
  assumes "no_full_table sel s" and "i < 65"
  shows "table_failed sel cb s i < 256" "table_freed sel cb s i < 256"
proof -
  obtain j where j: "j < 256" "\<not> is_selected sel (table_view (ks_tables s ! i) (of_nat j))"
    using assms by (auto simp: no_full_table_def)
  have "length (filter (\<lambda>i'. is_selected sel (table_view (ks_tables s ! i) (of_nat i')) \<and> P i') [0..<256]) < 256" for P
    using length_filter_less [of j "[0..<256]" "\<lambda>i'. is_selected sel (table_view (ks_tables s ! i) (of_nat i')) \<and> P i'"] j
    by simp
  then show "table_failed sel cb s i < 256" "table_freed sel cb s i < 256"
    by (simp_all add: table_failed_def table_freed_def bulk_failed_def bulk_freed_def)
qed

definition bulk_report :: "nat \<Rightarrow> nat \<Rightarrow> u16 hsm_result" where
  "bulk_report freed failed =
     (if failed = 0 then Ok (of_nat freed)
      else if failed = 1 then Err CannotDeleteKeyInUse else Err CannotDeleteSomeKeysInUse)"

lemma sum_list_weight:
  assumes "\<forall>x \<in> set xs. f x < 256"
  shows "(\<Sum>x\<leftarrow>xs. fail_weight (f x)) = 0 \<longleftrightarrow> (\<Sum>x\<leftarrow>xs. f x) = (0::nat)"
    and "(\<Sum>x\<leftarrow>xs. fail_weight (f x)) = 1 \<longleftrightarrow> (\<Sum>x\<leftarrow>xs. f x) = 1"
proof -
  have "((\<Sum>x\<leftarrow>xs. fail_weight (f x)) = 0 \<longleftrightarrow> (\<Sum>x\<leftarrow>xs. f x) = (0::nat)) \<and>
      ((\<Sum>x\<leftarrow>xs. fail_weight (f x)) = 1 \<longleftrightarrow> (\<Sum>x\<leftarrow>xs. f x) = 1)"
    using assms
  proof (induction xs)
    case (Cons x xs)
    then have IH: "(\<Sum>x\<leftarrow>xs. fail_weight (f x)) = 0 \<longleftrightarrow> (\<Sum>x\<leftarrow>xs. f x) = 0"
      "(\<Sum>x\<leftarrow>xs. fail_weight (f x)) = 1 \<longleftrightarrow> (\<Sum>x\<leftarrow>xs. f x) = 1" and x: "f x < 256"
      by auto
    then consider "f x = 0" | "f x = 1" | "2 \<le> f x" by linarith
    then show ?case using x IH by cases (auto simp: fail_weight_small)
  qed simp
  then show "(\<Sum>x\<leftarrow>xs. fail_weight (f x)) = 0 \<longleftrightarrow> (\<Sum>x\<leftarrow>xs. f x) = (0::nat)"
    "(\<Sum>x\<leftarrow>xs. fail_weight (f x)) = 1 \<longleftrightarrow> (\<Sum>x\<leftarrow>xs. f x) = 1" by auto
qed

lemma sum_list_weight_le: "(\<Sum>x\<leftarrow>xs. fail_weight (f x)) \<le> 2 * length xs"
proof (induction xs)
  case (Cons x xs)
  then show ?case using fail_weight_bounds [of "f x"] by simp
qed simp

lemma store_bulk_report:
  assumes "store_wf s" and "bulk_op sel cb f" and full: "no_full_table sel s"
  shows "\<exists>s'. remove_in_tables f [0..<65] 0 0 s =
      (bulk_report (store_freed sel cb s) (store_failed sel cb s), s') \<and>
    store_wf s' \<and> same_outside s s' \<and> store_view s' = bulk_map sel cb (store_view s)"
proof -
  let ?w = "\<Sum>i\<leftarrow>[0..<65]. fail_weight (table_failed sel cb s i)"
  let ?d = "\<Sum>i\<leftarrow>[0..<65]. if fail_weight (table_failed sel cb s i) = 0 then table_freed sel cb s i mod 256 else 0"
  obtain s' where s': "remove_in_tables f [0..<65] 0 0 s = (store_bulk_result (of_nat ?d) (of_nat ?w), s')"
    "store_wf s'" "same_outside s s'"
    "\<And>n. store_view s' n = (if unat (key_number_table n) \<in> set [0..<65]
       then bulk_entry sel (cb n) (store_view s n) else store_view s n)"
    using remove_in_tables_spec [OF assms(1,2), of "[0..<65]" 0 0] by auto
  have small: "\<forall>i \<in> set [0..<65]. table_failed sel cb s i < 256"
    using no_full_table_bounds(1) [OF full] by simp
  note w = sum_list_weight [OF small]
  have "?w \<le> 130" using sum_list_weight_le [of "table_failed sel cb s" "[0..<65]"] by simp
  then have u16: "(of_nat ?w :: u16) = 0 \<longleftrightarrow> ?w = 0" "(of_nat ?w :: u16) = 1 \<longleftrightarrow> ?w = 1"
    using word_of_nat_eq_iff [where 'a = 16, of ?w 0] word_of_nat_eq_iff [where 'a = 16, of ?w 1]
    by (simp_all add: take_bit_nat_eq_self)
  have "?d = store_freed sel cb s" if "?w = 0"
  proof -
    have "fail_weight (table_failed sel cb s i) = 0" if "i < 65" for i
      using \<open>?w = 0\<close> that by (simp add: sum_list_eq_0_iff)
    then show ?thesis
      unfolding store_freed_def using no_full_table_bounds(2) [OF full]
      by (intro arg_cong [where f = sum_list] map_cong) auto
  qed
  then have "store_bulk_result (of_nat ?d) (of_nat ?w) = bulk_report (store_freed sel cb s) (store_failed sel cb s)"
    unfolding store_bulk_result_def bulk_report_def u16 store_failed_def w by simp
  moreover have "store_view s' = bulk_map sel cb (store_view s)"
  proof
    fix n
    show "store_view s' n = bulk_map sel cb (store_view s) n"
      using s'(4) [of n] is_valid_table_bound [of s "key_number_table n"]
      by (auto simp: bulk_map_def store_view_def bulk_entry_def)
  qed
  ultimately show ?thesis using s'(1-3) by auto
qed


lemma bulk_keeps:
  assumes "store_wf s" and "bulk_op sel cb f"
  shows "store_wf (snd (remove_in_tables f [0..<65] 0 0 s))"
    "same_outside s (snd (remove_in_tables f [0..<65] 0 0 s))"
    "store_view (snd (remove_in_tables f [0..<65] 0 0 s)) = bulk_map sel cb (store_view s)"
proof -
  obtain r s' where s': "remove_in_tables f [0..<65] 0 0 s = (r, s')" "store_wf s'" "same_outside s s'"
    "\<And>n. store_view s' n = (if unat (key_number_table n) \<in> set [0..<65]
       then bulk_entry sel (cb n) (store_view s n) else store_view s n)"
    using remove_in_tables_spec [OF assms, of "[0..<65]" 0 0] by auto
  have "store_view s' n = bulk_map sel cb (store_view s) n" for n
    using s'(4) [of n] is_valid_table_bound [of s "key_number_table n"]
    by (auto simp: bulk_map_def store_view_def bulk_entry_def)
  then show "store_wf (snd (remove_in_tables f [0..<65] 0 0 s))"
    "same_outside s (snd (remove_in_tables f [0..<65] 0 0 s))"
    "store_view (snd (remove_in_tables f [0..<65] 0 0 s)) = bulk_map sel cb (store_view s)"
    using s'(1-3) by auto
qed

section \<open>Sequences of calls\<close>

datatype (plugins only: code size) store_call =
    SC_Add entry_attributes u16 entry_kind u8 bytes
  | SC_Enable u16
  | SC_Disable u16
  | SC_Remove "u16 \<Rightarrow> bool" u16
  | SC_RemoveSession "u16 \<Rightarrow> bool" u16
  | SC_RemoveApp "u16 \<Rightarrow> bool" u8
  | SC_Nuke

primrec call_wf :: "store_call \<Rightarrow> bool" where
  "call_wf (SC_Add a tag kind app b) = attributes_wf a"
| "call_wf (SC_Enable n) = True"
| "call_wf (SC_Disable n) = True"
| "call_wf (SC_Remove cb n) = True"
| "call_wf (SC_RemoveSession cb sid) = True"
| "call_wf (SC_RemoveApp cb app) = True"
| "call_wf SC_Nuke = True"

primrec store_exec :: "store_call \<Rightarrow> key_store \<Rightarrow> key_store" where
  "store_exec (SC_Add a tag kind app b) s = snd (ks_add_entry a tag kind app b s)"
| "store_exec (SC_Enable n) s = snd (ks_enable_entry n s)"
| "store_exec (SC_Disable n) s = snd (ks_disable_entry n s)"
| "store_exec (SC_Remove cb n) s = snd (ks_remove_entry cb n s)"
| "store_exec (SC_RemoveSession cb sid) s = snd (ks_remove_all_session_only_entries cb sid s)"
| "store_exec (SC_RemoveApp cb app) s = snd (ks_remove_all_entries_for_app cb app s)"
| "store_exec SC_Nuke s = ks_nuke s"

definition store_run :: "store_call list \<Rightarrow> key_store \<Rightarrow> key_store" where
  "store_run cs s = fold store_exec cs s"

text \<open>How a call changes the map: nothing, one new key, one changed key, or many.\<close>

lemma on_table_outside:
  assumes wf: "store_wf s" and op: "\<And>t. table_wf t \<Longrightarrow> table_wf (snd (op t))"
  shows "same_outside s (snd (on_table ti op s))"
proof (cases "is_valid_table s ti")
  case True
  obtain r t' where step: "op (ks_tables s ! unat ti) = (r, t')" by fastforce
  then have "table_wf t'" using op [OF store_wf_table [OF wf True]] by simp
  then show ?thesis
    using store_update(3) [OF wf True] on_table_valid [where f = op, OF True step] by simp
qed (simp add: on_table_invalid)

lemma follows_good: "follows good view step spec \<Longrightarrow> good s \<Longrightarrow> good (snd (step s))"
  by (simp add: follows_def)

lemma follows_view: "follows good view step spec \<Longrightarrow> good s \<Longrightarrow> view (snd (step s)) = snd (spec (view s))"
  unfolding follows_def by (metis snd_conv)

lemma add_result:
  assumes wf: "store_wf s" and a: "attributes_wf a"
  shows "store_wf (snd (ks_add_entry a tag kind app b s)) \<and> same_outside s (snd (ks_add_entry a tag kind app b s))"
proof -
  obtain r s' where r: "ks_add_entry a tag kind app b s = (r, s')" by fastforce
  show ?thesis
  proof (cases "is_ok r")
    case True
    then obtain n where "r = Ok n" by (auto simp: is_ok_iff)
    then show ?thesis using ks_add_entry_Ok(1,2) [OF wf a] r by simp
  next
    case False
    then show ?thesis using ks_add_entry_not_Ok(1) [OF wf a r] wf r by simp
  qed
qed

lemma store_exec_wf:
  assumes "store_wf s" and "call_wf c"
  shows "store_wf (store_exec c s) \<and> same_outside s (store_exec c s)"
proof (cases c)
  case (SC_Add a tag kind app b)
  then show ?thesis using add_result assms by simp
next
  case (SC_Enable n)
  then show ?thesis
    using assms follows_good [OF ks_enable_entry_follows]
      on_table_outside [OF assms(1) follows_good [OF enable_entry_follows]]
    by (simp add: ks_enable_entry_def)
next
  case (SC_Disable n)
  then show ?thesis
    using assms follows_good [OF ks_disable_entry_follows]
      on_table_outside [OF assms(1) follows_good [OF disable_entry_follows]]
    by (simp add: ks_disable_entry_def)
next
  case (SC_Remove cb n)
  then show ?thesis
    using assms follows_good [OF ks_remove_entry_follows]
      on_table_outside [OF assms(1) follows_good [OF remove_entry_follows]]
    by (simp add: ks_remove_entry_def Let_def)
next
  case (SC_RemoveSession cb sid)
  then show ?thesis
    using bulk_keeps [OF assms(1) bulk_op_session]
    by (simp add: ks_remove_all_session_only_entries_def layout_values)
next
  case (SC_RemoveApp cb app)
  then show ?thesis
    using bulk_keeps [OF assms(1) bulk_op_app] by (simp add: ks_remove_all_entries_for_app_def layout_values)
next
  case SC_Nuke
  then show ?thesis using ks_nuke_wf [OF assms(1)] by simp
qed

lemma store_run_wf:
  "store_wf s \<Longrightarrow> list_all call_wf cs \<Longrightarrow> store_wf (store_run cs s) \<and> same_outside s (store_run cs s)"
proof (induction cs arbitrary: s)
  case (Cons c cs)
  then have one: "store_wf (store_exec c s)" "same_outside s (store_exec c s)"
    using store_exec_wf by auto
  then show ?case
    using Cons.IH [OF one(1)] Cons.prems same_outside_trans [OF one(2)] by (simp add: store_run_def)
qed (simp add: store_run_def)

section \<open>Tags are unique\<close>

definition tag_unique :: "u16 kmap \<Rightarrow> bool" where
  "tag_unique m \<longleftrightarrow> (\<forall>i j k l app tag. m i = Some k \<and> m j = Some l \<and> tagged app tag k \<and> tagged app tag l \<longrightarrow> i = j)"

text \<open>A change that adds no tagged key keeps the tags unique.\<close>

lemma tag_unique_less:
  assumes "tag_unique m"
    and "\<And>i k app tag. m' i = Some k \<Longrightarrow> tagged app tag k \<Longrightarrow> \<exists>k0. m i = Some k0 \<and> tagged app tag k0"
  shows "tag_unique m'"
  using assms unfolding tag_unique_def by meson

lemma tagged_new_key:
  "tagged app' tag' (new_key a tag kind app b) \<longleftrightarrow>
     app' = app \<and> tag' = tag \<and> tag \<noteq> KEY_TAG_UNASSIGNED \<and> \<not> flag_get AF_session (attr_flags a)"
  by (auto simp: tagged_def new_key_def sk_disabled_def sk_key_tag_def entry_flags_of_def
      default_entry_flags_def)

lemma not_tagged_disabled: "\<not> tagged app tag (sk_set_disabled True k)"
  by (simp add: tagged_def)

lemma ks_add_entry_tag_unique:
  assumes wf: "store_wf s" and a: "attributes_wf a" and u: "tag_unique (store_view s)"
    and ok: "ks_add_entry a tag kind app b s = (Ok n, s')"
  shows "tag_unique (store_view s')"
proof -
  note add = ks_add_entry_Ok [OF wf a ok]
  have fresh: "\<not> tagged app' tag' k" if "store_view s i = Some k" "tagged app' tag' (new_key a tag kind app b)" for i k app' tag'
  proof -
    from that(2) have t: "app' = app" "tag' = tag" "tag \<noteq> KEY_TAG_UNASSIGNED" "\<not> flag_get AF_session (attr_flags a)"
      by (simp_all add: tagged_new_key)
    then have "\<not> is_ok (ks_get_entry_index_by_tag s app tag)"
      using add(7) by (auto simp: ks_add_checks_def split: if_splits)
    then show ?thesis using that(1) t ks_by_tag_iff [OF wf t(3), of app] by blast
  qed
  show ?thesis
    unfolding tag_unique_def
  proof (intro allI impI)
    fix i j k l app' tag'
    assume as: "store_view s' i = Some k \<and> store_view s' j = Some l \<and> tagged app' tag' k \<and> tagged app' tag' l"
    consider "i = n" "j = n" | "i = n" "j \<noteq> n" | "i \<noteq> n" "j = n" | "i \<noteq> n" "j \<noteq> n" by blast
    then show "i = j"
    proof cases
      case 2
      then show ?thesis using as fresh [of j l app' tag'] by (simp add: add(5))
    next
      case 3
      then show ?thesis using as fresh [of i k app' tag'] by (simp add: add(5))
    next
      case 4
      then have "store_view s i = Some k \<and> store_view s j = Some l" using as by (simp add: add(5))
      then show ?thesis using as u unfolding tag_unique_def by blast
    qed simp
  qed
qed

end
