(* ===== verification/Store_Props.thy ===== *)
theory Store_Props
  imports Key_Store Table_Props
begin

text \<open>
  The properties of the key store: keys read back, partitions do not disturb each other, tags stay
  unique, and the removal of all keys of a session or an application.
\<close>

section \<open>A store to apply them to\<close>

definition empty_store :: "u128 \<Rightarrow> key_store" where
  "empty_store m =
     \<lparr>ks_mask = m, ks_tables = map (\<lambda>i. empty_table (i * TOTAL_TABLE_LEN)) [0..<MAX_TABLE_COUNT]\<rparr>"

lemma empty_store_wf [simp]: "store_wf (empty_store m)"
proof -
  have "table_wf (empty_table (i * 17408))" for i
    by (rule empty_table_wf) (simp add: mod_mult_right_eq [of i 17408 8, symmetric])
  then show ?thesis
    using is_valid_table_bound [of "empty_store m"]
    by (simp add: store_wf_def empty_store_def layout_values)
qed

lemma empty_store_view [simp]: "store_view (empty_store m) = Map.empty"
  using is_valid_table_bound [of "empty_store m"]
  by (auto simp: store_view_def empty_store_def layout_values fun_eq_iff)

lemma empty_store_valid: "is_valid_table (empty_store m) i \<longleftrightarrow> unat i < 65 \<and> bit m (unat i)"
  by (simp add: is_valid_table_def empty_store_def layout_values and_exp_iff)

text \<open>An AES key with tag 7 of application 3, stored in the first table.\<close>

definition one_key_store :: key_store where
  "one_key_store = snd (ks_add_entry default_attributes 7 EK_Aes128 3 (replicate 16 9) (empty_store 1))"

text \<open>The empty store takes any valid key.\<close>

lemma empty_store_adds:
  assumes a: "attributes_wf a" and valid: "add_valid a kind b" and size: "blocks_for (length b) \<le> 1888"
    and len: "is_var_hmac_key kind \<longrightarrow> length b \<noteq> 0"
  obtains n s' where "ks_add_entry a tag kind app b (empty_store 1) = (Ok n, s')"
proof -
  have room: "has_slot (empty_table 0)" "has_run (empty_table 0) (blocks_for (length b))"
    using empty_table_room size by simp_all
  then obtain i t' where add: "add_entry a tag kind app b (empty_table 0) = (Ok i, t')"
    using add_entry_written [OF empty_table_wf a valid, of 0 tag app] by (metis mod_0)
  have "tag \<noteq> KEY_TAG_UNASSIGNED \<Longrightarrow> \<not> is_ok (ks_get_entry_index_by_tag (empty_store 1) app tag)"
    using ks_by_tag_iff [OF empty_store_wf, of tag] by simp
  then have checks: "ks_add_checks a tag kind app b (empty_store 1) = None"
    using valid len by (auto simp: ks_add_checks_def add_valid_def expected_key_len_def Let_def res_simps
        split: if_splits)
  have v: "is_valid_table (empty_store 1) 0" by (simp add: empty_store_valid)
  have t0: "ks_tables (empty_store 1) ! 0 = empty_table 0"
    by (simp add: empty_store_def layout_values)
  have "[0..<MAX_TABLE_COUNT] = 0 # [Suc 0..<65]" by (simp add: layout_values upt_rec)
  then have "\<exists>n s'. ks_add_entry a tag kind app b (empty_store 1) = (Ok n, s')"
    using checks v add t0
    by (simp add: ks_add_entry_checks get_table_def on_table_def)
  then show ?thesis using that by blast
qed

lemma one_key_added:
  obtains n where "ks_add_entry default_attributes 7 EK_Aes128 3 (replicate 16 9) (empty_store 1) = (Ok n, one_key_store)"
proof -
  have "add_valid default_attributes EK_Aes128 (replicate 16 9)"
    by (simp add: add_valid_def expected_key_len_def is_var_hmac_key_def)
  then obtain n s' where "ks_add_entry default_attributes 7 EK_Aes128 3 (replicate 16 9) (empty_store 1) = (Ok n, s')"
    by (rule empty_store_adds [OF attributes_wf_default])
       (simp_all add: blocks_for_def align8_def is_var_hmac_key_def)
  then show ?thesis using that by (auto simp: one_key_store_def)
qed

lemma one_key_store_facts:
  obtains n where "ks_add_entry default_attributes 7 EK_Aes128 3 (replicate 16 9) (empty_store 1) = (Ok n, one_key_store)"
    "store_wf one_key_store"
    "store_view one_key_store = [n \<mapsto> new_key default_attributes 7 EK_Aes128 3 (replicate 16 9)]"
proof -
  obtain n where add: "ks_add_entry default_attributes 7 EK_Aes128 3 (replicate 16 9) (empty_store 1) = (Ok n, one_key_store)"
    by (rule one_key_added)
  from ks_add_entry_Ok [OF empty_store_wf attributes_wf_default add] that [OF add] show ?thesis by simp
qed

section \<open>Calls that leave a key alone\<close>

primrec call_spares :: "u16 \<Rightarrow> stored_key \<Rightarrow> store_call \<Rightarrow> bool" where
  "call_spares n k (SC_Add a tag kind app b) = True"
| "call_spares n k (SC_Enable m) = (m \<noteq> n)"
| "call_spares n k (SC_Disable m) = (m \<noteq> n)"
| "call_spares n k (SC_Remove cb m) = (m \<noteq> n)"
| "call_spares n k (SC_RemoveSession cb sid) = (sk_session_id k \<noteq> Some sid)"
| "call_spares n k (SC_RemoveApp cb app) = (sk_app_id k \<noteq> app)"
| "call_spares n k SC_Nuke = False"

lemma bulk_entry_spares: "\<not> sel k \<Longrightarrow> bulk_entry sel busy (Some k) = Some k"
  by (simp add: bulk_entry_def)

lemma ks_bulk_view:
  assumes "store_wf s"
  shows "store_view (snd (ks_remove_all_session_only_entries cb sid s)) = bulk_map (of_session sid) cb (store_view s)"
    "store_view (snd (ks_remove_all_entries_for_app cb app s)) = bulk_map (of_app app) cb (store_view s)"
  using bulk_keeps(3) [OF assms bulk_op_session] bulk_keeps(3) [OF assms bulk_op_app]
  by (simp_all add: ks_remove_all_session_only_entries_def ks_remove_all_entries_for_app_def layout_values)

lemma ks_add_view:
  assumes wf: "store_wf s" and a: "attributes_wf a" and k: "store_view s n = Some k"
  shows "store_view (snd (ks_add_entry a tag kind app b s)) n = Some k"
proof (cases "is_ok (fst (ks_add_entry a tag kind app b s))")
  case True
  then obtain m s' where "ks_add_entry a tag kind app b s = (Ok m, s')"
    by (auto simp: is_ok_iff) (metis prod.collapse)
  then show ?thesis using ks_add_entry_Ok(3,5) [OF wf a] k by auto
next
  case False
  then show ?thesis using ks_add_entry_not_Ok(1) [OF wf a, of tag kind app b] k by (metis prod.collapse)
qed

lemma store_exec_spares:
  assumes wf: "store_wf s" and c: "call_wf c" and k: "store_view s n = Some k" and sp: "call_spares n k c"
  shows "store_view (store_exec c s) n = Some k"
proof (cases c)
  case (SC_Add a tag kind app b)
  then show ?thesis using ks_add_view [OF wf _ k] c by simp
next
  case (SC_Enable m)
  then show ?thesis
    using follows_view [OF ks_enable_entry_follows wf, of m] k sp
    by (simp add: spec_set_disabled_def split: option.splits)
next
  case (SC_Disable m)
  then show ?thesis
    using follows_view [OF ks_disable_entry_follows wf, of m] k sp
    by (simp add: spec_set_disabled_def split: option.splits)
next
  case (SC_Remove cb m)
  then show ?thesis
    using follows_view [OF ks_remove_entry_follows wf, of cb m] k sp
    by (simp add: spec_remove_def split: option.splits)
qed (use k sp ks_bulk_view [OF wf] in \<open>simp_all add: bulk_map_def bulk_entry_spares of_session_def of_app_def\<close>)

lemma store_run_spares:
  "store_wf s \<Longrightarrow> list_all call_wf cs \<Longrightarrow> list_all (call_spares n k) cs \<Longrightarrow> store_view s n = Some k \<Longrightarrow>
    store_view (store_run cs s) n = Some k"
proof (induction cs arbitrary: s)
  case (Cons c cs)
  then show ?case
    using Cons.IH [of "store_exec c s"] store_exec_wf [of s c] store_exec_spares [of s c n k]
    by (simp add: store_run_def)
qed (simp add: store_run_def)

section \<open>Calls that keep the tags unique\<close>

primrec is_enable :: "store_call \<Rightarrow> bool" where
  "is_enable (SC_Add a tag kind app b) = False"
| "is_enable (SC_Enable m) = True"
| "is_enable (SC_Disable m) = False"
| "is_enable (SC_Remove cb m) = False"
| "is_enable (SC_RemoveSession cb sid) = False"
| "is_enable (SC_RemoveApp cb app) = False"
| "is_enable SC_Nuke = False"

lemma bulk_map_tagged:
  "bulk_map sel busy m i = Some k \<Longrightarrow> tagged app tag k \<Longrightarrow> m i = Some k"
  by (auto simp: bulk_map_def bulk_entry_def not_tagged_disabled split: option.splits if_splits)

lemma store_exec_tag_unique:
  assumes wf: "store_wf s" and c: "call_wf c" and ne: "\<not> is_enable c" and u: "tag_unique (store_view s)"
  shows "tag_unique (store_view (store_exec c s))"
proof (cases c)
  case (SC_Add a tag kind app b)
  obtain r s' where r: "ks_add_entry a tag kind app b s = (r, s')" by fastforce
  show ?thesis
  proof (cases "is_ok r")
    case True
    then obtain n where "r = Ok n" by (auto simp: is_ok_iff)
    then show ?thesis using ks_add_entry_tag_unique [OF wf _ u] r c SC_Add by simp
  next
    case False
    then show ?thesis using ks_add_entry_not_Ok(1) [OF wf _ r] c SC_Add r u by simp
  qed
next
  case (SC_Disable m)
  show ?thesis
    by (rule tag_unique_less [OF u])
       (use follows_view [OF ks_disable_entry_follows wf, of m] SC_Disable in
         \<open>auto simp: spec_set_disabled_def not_tagged_disabled split: option.splits if_splits\<close>)
next
  case (SC_Remove cb m)
  show ?thesis
    by (rule tag_unique_less [OF u])
       (use follows_view [OF ks_remove_entry_follows wf, of cb m] SC_Remove in
         \<open>auto simp: spec_remove_def not_tagged_disabled split: option.splits if_splits\<close>)
next
  case (SC_RemoveSession cb sid)
  show ?thesis
    by (rule tag_unique_less [OF u])
       (use ks_bulk_view(1) [OF wf] SC_RemoveSession in \<open>auto dest: bulk_map_tagged\<close>)
next
  case (SC_RemoveApp cb app)
  show ?thesis
    by (rule tag_unique_less [OF u])
       (use ks_bulk_view(2) [OF wf] SC_RemoveApp in \<open>auto dest: bulk_map_tagged\<close>)
next
  case SC_Nuke
  then show ?thesis using ks_nuke_wf(3) [OF wf] by (simp add: tag_unique_def)
qed (use ne in simp)

lemma store_run_tag_unique:
  "store_wf s \<Longrightarrow> list_all call_wf cs \<Longrightarrow> list_all (\<lambda>c. \<not> is_enable c) cs \<Longrightarrow> tag_unique (store_view s) \<Longrightarrow>
    tag_unique (store_view (store_run cs s))"
proof (induction cs arbitrary: s)
  case (Cons c cs)
  then show ?case
    using Cons.IH [of "store_exec c s"] store_exec_wf [of s c] store_exec_tag_unique [of s c]
    by (simp add: store_run_def)
qed (simp add: store_run_def)

section \<open>Properties\<close>

text \<open>
  C24: A key reads back. After a key has been added, its blob and its attributes are returned
  unchanged, whatever calls follow (other keys added, removed, enabled or disabled, other
  sessions or applications cleared), as long as none of them names the key, its session or its
  application or clears the whole store.
\<close>

theorem added_key_survives:
  assumes "store_wf s" and "attributes_wf a" and "ks_add_entry a tag kind app b s = (Ok n, s1)"
    and "list_all call_wf cs" and "list_all (call_spares n (new_key a tag kind app b)) cs"
  shows "ks_get_entry_blob (store_run cs s1) n = Ok b \<and>
    ks_get_entry_attributes (store_run cs s1) n False = Ok a"
proof -
  have s1: "store_wf s1" "store_view s1 n = Some (new_key a tag kind app b)"
    using ks_add_entry_Ok [OF assms(1-3)] by auto
  have "store_wf (store_run cs s1)" using store_run_wf [OF s1(1) assms(4)] by simp
  moreover have "store_view (store_run cs s1) n = Some (new_key a tag kind app b)"
    by (rule store_run_spares [OF s1(1) assms(4,5) s1(2)])
  moreover have "\<not> sk_disabled (new_key a tag kind app b)"
    by (simp add: sk_disabled_def new_key_def entry_flags_of_def default_entry_flags_def)
  ultimately show ?thesis
    by (simp add: ks_get_entry_blob_view ks_get_entry_attributes_view spec_blob_def spec_attributes_def)
       (simp add: new_key_def)
qed

theorem added_key_survives_witness:
  "\<exists>n. ks_get_entry_blob (store_run [SC_RemoveApp (\<lambda>_. False) 4, SC_RemoveSession (\<lambda>_. False) 7] one_key_store) n =
    Ok (replicate 16 9)"
proof -
  obtain n where add: "ks_add_entry default_attributes 7 EK_Aes128 3 (replicate 16 9) (empty_store 1) = (Ok n, one_key_store)"
    by (rule one_key_added)
  show ?thesis
    using added_key_survives [OF empty_store_wf attributes_wf_default add,
        of "[SC_RemoveApp (\<lambda>_. False) 4, SC_RemoveSession (\<lambda>_. False) 7]"]
    by (auto simp: new_key_def sk_session_id_def entry_flags_of_def default_entry_flags_def
        default_attributes_def)
qed

text \<open>
  C25: Partitions are isolated. Whatever calls a partition makes on its key store, the keys of a
  store on the same memory with a disjoint table mask are exactly what they were.
\<close>

theorem stores_isolated:
  assumes "store_wf s" and "list_all call_wf cs" and "ks_mask s AND other = 0"
  shows "store_view ((store_run cs s)\<lparr>ks_mask := other\<rparr>) n = store_view (s\<lparr>ks_mask := other\<rparr>) n"
proof (cases "is_valid_table (s\<lparr>ks_mask := other\<rparr>) (key_number_table n)")
  case True
  let ?i = "unat (key_number_table n)"
  have out: "same_outside s (store_run cs s)" using store_run_wf [OF assms(1,2)] by simp
  have "bit other ?i" "?i < 65"
    using True by (simp_all add: is_valid_table_def layout_values and_exp_iff)
  moreover have "\<not> (bit (ks_mask s) ?i \<and> bit other ?i)"
    using assms(3) by (metis bit_and_iff bit_0_eq bot_apply bot_bool_def)
  ultimately have "\<not> is_valid_table s (of_nat ?i)" by (simp add: is_valid_table_def and_exp_iff)
  then have "ks_tables (store_run cs s) ! ?i = ks_tables s ! ?i"
    using out \<open>?i < 65\<close> store_wf_length [OF assms(1)] by (simp add: same_outside_def)
  then show ?thesis
    using True by (simp add: store_view_def is_valid_table_def)
next
  case False
  then show ?thesis by (auto simp: store_view_def is_valid_table_def)
qed

theorem stores_isolated_witness:
  "store_view ((store_run [SC_Nuke] one_key_store)\<lparr>ks_mask := 2\<rparr>) 256 =
    store_view (one_key_store\<lparr>ks_mask := 2\<rparr>) 256"
proof (rule stores_isolated)
  obtain n where add: "ks_add_entry default_attributes 7 EK_Aes128 3 (replicate 16 9) (empty_store 1) = (Ok n, one_key_store)"
    by (rule one_key_added)
  note ok = ks_add_entry_Ok [OF empty_store_wf attributes_wf_default add]
  show "store_wf one_key_store" by (rule ok(1))
  show "ks_mask one_key_store AND 2 = 0"
    using ok(2) by (simp add: same_outside_def empty_store_def)
qed simp






end
