(* ===== verification/Ddi_Types.thy ===== *)
theory Ddi_Types
  imports Hsm_Prelude
begin

text \<open>
  The enumerations of the wire interface (\<open>serde/ddi/types\<close>). They are open: any 32-bit value is a
  value of the type, and the named ones are constants. Here a value is a named constructor or
  \<open>Other\<close> with its code, and the two directions between values and codes are the contract
  \<open>open_enum\<close>, met by every enumeration.
\<close>

section \<open>Open enumerations\<close>

locale open_enum =
  fixes code :: "'e \<Rightarrow> u32"
    and other :: "u32 \<Rightarrow> 'e"
    and codes :: "(u32 \<times> 'e) list"
    and decode :: "u32 \<Rightarrow> 'e"
  assumes code_other: "code (other w) = w"
    and code_named: "(w, v) \<in> set codes \<Longrightarrow> code v = w"
    and decode_def: "decode w = (case map_of codes w of Some v \<Rightarrow> v | None \<Rightarrow> other w)"
    and codes_distinct: "distinct (map fst codes)"
begin

lemma code_decode: "code (decode w) = w"
  by (auto simp: decode_def code_other code_named dest: map_of_SomeD split: option.splits)

lemma decode_code: "(w, v) \<in> set codes \<Longrightarrow> decode (code v) = v"
  using codes_distinct by (simp add: code_named decode_def)

lemma decode_inject: "decode w = decode w' \<longleftrightarrow> w = w'"
  by (metis code_decode)

end

section \<open>DdiOp\<close>

datatype (plugins only: code size) ddi_op =
    Op_Invalid | Op_GetApiRev | Op_GetDeviceInfo | Op_DeleteKey | Op_OpenKey | Op_AttestKey
  | Op_RsaModExp | Op_RsaUnwrap | Op_GetUnwrappingKey | Op_EccGenerateKeyPair | Op_EccSign
  | Op_AesGenerateKey | Op_AesEncryptDecrypt | Op_EcdhKeyExchange | Op_HkdfDerive
  | Op_KbkdfCounterHmacDerive | Op_Hmac | Op_GetEstablishCredEncryptionKey
  | Op_EstablishCredential | Op_GetSessionEncryptionKey | Op_OpenSession | Op_CloseSession
  | Op_ChangePin | Op_UnmaskKey | Op_GetCertChainInfo | Op_GetCertificate | Op_ReopenSession
  | Op_InitBk3 | Op_GetSealedBk3 | Op_SetSealedBk3 | Op_ResetFunction | Op_DerKeyImport
  | Op_GetPerfLogChunk | Op_TestAction | Op_GetPrivKey | Op_ShaDigest | Op_GetRandomNumber
  | Op_RawKeyImport | Op_SoftAes | Op_RsaUnwrapKekTest | Op_Other u32

primrec ddi_op_code :: "ddi_op \<Rightarrow> u32" where
  "ddi_op_code Op_Invalid = 1001"
| "ddi_op_code Op_GetApiRev = 1002"
| "ddi_op_code Op_GetDeviceInfo = 1003"
| "ddi_op_code Op_DeleteKey = 1014"
| "ddi_op_code Op_OpenKey = 1015"
| "ddi_op_code Op_AttestKey = 1016"
| "ddi_op_code Op_RsaModExp = 1031"
| "ddi_op_code Op_RsaUnwrap = 1035"
| "ddi_op_code Op_GetUnwrappingKey = 1051"
| "ddi_op_code Op_EccGenerateKeyPair = 1061"
| "ddi_op_code Op_EccSign = 1062"
| "ddi_op_code Op_AesGenerateKey = 1071"
| "ddi_op_code Op_AesEncryptDecrypt = 1072"
| "ddi_op_code Op_EcdhKeyExchange = 1074"
| "ddi_op_code Op_HkdfDerive = 1075"
| "ddi_op_code Op_KbkdfCounterHmacDerive = 1076"
| "ddi_op_code Op_Hmac = 1077"
| "ddi_op_code Op_GetEstablishCredEncryptionKey = 1101"
| "ddi_op_code Op_EstablishCredential = 1102"
| "ddi_op_code Op_GetSessionEncryptionKey = 1103"
| "ddi_op_code Op_OpenSession = 1104"
| "ddi_op_code Op_CloseSession = 1105"
| "ddi_op_code Op_ChangePin = 1106"
| "ddi_op_code Op_UnmaskKey = 1107"
| "ddi_op_code Op_GetCertChainInfo = 1108"
| "ddi_op_code Op_GetCertificate = 1109"
| "ddi_op_code Op_ReopenSession = 1110"
| "ddi_op_code Op_InitBk3 = 1111"
| "ddi_op_code Op_GetSealedBk3 = 1112"
| "ddi_op_code Op_SetSealedBk3 = 1113"
| "ddi_op_code Op_ResetFunction = 2001"
| "ddi_op_code Op_DerKeyImport = 2002"
| "ddi_op_code Op_GetPerfLogChunk = 2003"
| "ddi_op_code Op_TestAction = 2004"
| "ddi_op_code Op_GetPrivKey = 2005"
| "ddi_op_code Op_ShaDigest = 2006"
| "ddi_op_code Op_GetRandomNumber = 2007"
| "ddi_op_code Op_RawKeyImport = 2008"
| "ddi_op_code Op_SoftAes = 2009"
| "ddi_op_code Op_RsaUnwrapKekTest = 2010"
| "ddi_op_code (Op_Other w) = w"

definition ddi_op_table :: "(u32 \<times> ddi_op) list" where
  "ddi_op_table = map (\<lambda>v. (ddi_op_code v, v))
     [Op_Invalid, Op_GetApiRev, Op_GetDeviceInfo, Op_DeleteKey, Op_OpenKey, Op_AttestKey,
      Op_RsaModExp, Op_RsaUnwrap, Op_GetUnwrappingKey, Op_EccGenerateKeyPair, Op_EccSign,
      Op_AesGenerateKey, Op_AesEncryptDecrypt, Op_EcdhKeyExchange, Op_HkdfDerive,
      Op_KbkdfCounterHmacDerive, Op_Hmac, Op_GetEstablishCredEncryptionKey,
      Op_EstablishCredential, Op_GetSessionEncryptionKey, Op_OpenSession, Op_CloseSession,
      Op_ChangePin, Op_UnmaskKey, Op_GetCertChainInfo, Op_GetCertificate, Op_ReopenSession,
      Op_InitBk3, Op_GetSealedBk3, Op_SetSealedBk3, Op_ResetFunction, Op_DerKeyImport,
      Op_GetPerfLogChunk, Op_TestAction, Op_GetPrivKey, Op_ShaDigest, Op_GetRandomNumber,
      Op_RawKeyImport, Op_SoftAes, Op_RsaUnwrapKekTest]"

definition ddi_op_of_code :: "u32 \<Rightarrow> ddi_op" where
  "ddi_op_of_code w = (case map_of ddi_op_table w of Some v \<Rightarrow> v | None \<Rightarrow> Op_Other w)"

interpretation ddi_op: open_enum ddi_op_code Op_Other ddi_op_table ddi_op_of_code
  by unfold_locales (auto simp: ddi_op_table_def ddi_op_of_code_def)

section \<open>DdiKeyClass\<close>

datatype (plugins only: code size) ddi_key_class =
    KC_Rsa | KC_RsaCrt | KC_Aes | KC_AesXtsBulk | KC_AesGcmBulk | KC_AesGcmUnApprovedBulk
  | KC_Ecc | KC_Other u32

primrec ddi_key_class_code :: "ddi_key_class \<Rightarrow> u32" where
  "ddi_key_class_code KC_Rsa = 1"
| "ddi_key_class_code KC_RsaCrt = 2"
| "ddi_key_class_code KC_Aes = 3"
| "ddi_key_class_code KC_AesXtsBulk = 4"
| "ddi_key_class_code KC_AesGcmBulk = 5"
| "ddi_key_class_code KC_AesGcmUnApprovedBulk = 6"
| "ddi_key_class_code KC_Ecc = 7"
| "ddi_key_class_code (KC_Other w) = w"

definition ddi_key_class_table :: "(u32 \<times> ddi_key_class) list" where
  "ddi_key_class_table = map (\<lambda>v. (ddi_key_class_code v, v))
     [KC_Rsa, KC_RsaCrt, KC_Aes, KC_AesXtsBulk, KC_AesGcmBulk, KC_AesGcmUnApprovedBulk, KC_Ecc]"

definition ddi_key_class_of_code :: "u32 \<Rightarrow> ddi_key_class" where
  "ddi_key_class_of_code w = (case map_of ddi_key_class_table w of Some v \<Rightarrow> v | None \<Rightarrow> KC_Other w)"

interpretation ddi_key_class: open_enum ddi_key_class_code KC_Other ddi_key_class_table ddi_key_class_of_code
  by unfold_locales (auto simp: ddi_key_class_table_def ddi_key_class_of_code_def)

section \<open>DdiKeyType\<close>

datatype (plugins only: code size) ddi_key_type =
    KT_Rsa2kPrivate | KT_Rsa3kPrivate | KT_Rsa4kPrivate | KT_Rsa2kPrivateCrt
  | KT_Rsa3kPrivateCrt | KT_Rsa4kPrivateCrt | KT_Ecc256Private | KT_Ecc384Private
  | KT_Ecc521Private | KT_Aes128 | KT_Aes192 | KT_Aes256 | KT_AesXtsBulk256 | KT_AesGcmBulk256
  | KT_AesGcmBulk256Unapproved | KT_Secret256 | KT_Secret384 | KT_Secret521 | KT_Rsa2kPublic
  | KT_Rsa3kPublic | KT_Rsa4kPublic | KT_Ecc256Public | KT_Ecc384Public | KT_Ecc521Public
  | KT_HmacSha256 | KT_HmacSha384 | KT_HmacSha512 | KT_AesCbc256Hmac384 | KT_KbKdfSecretSha384
  | KT_VarLenHmacSha256 | KT_VarLenHmacSha384 | KT_VarLenHmacSha512 | KT_RsaUnwrap
  | KT_Other u32

primrec ddi_key_type_code :: "ddi_key_type \<Rightarrow> u32" where
  "ddi_key_type_code KT_Rsa2kPrivate = 1"
| "ddi_key_type_code KT_Rsa3kPrivate = 2"
| "ddi_key_type_code KT_Rsa4kPrivate = 3"
| "ddi_key_type_code KT_Rsa2kPrivateCrt = 4"
| "ddi_key_type_code KT_Rsa3kPrivateCrt = 5"
| "ddi_key_type_code KT_Rsa4kPrivateCrt = 6"
| "ddi_key_type_code KT_Ecc256Private = 7"
| "ddi_key_type_code KT_Ecc384Private = 8"
| "ddi_key_type_code KT_Ecc521Private = 9"
| "ddi_key_type_code KT_Aes128 = 10"
| "ddi_key_type_code KT_Aes192 = 11"
| "ddi_key_type_code KT_Aes256 = 12"
| "ddi_key_type_code KT_AesXtsBulk256 = 13"
| "ddi_key_type_code KT_AesGcmBulk256 = 14"
| "ddi_key_type_code KT_AesGcmBulk256Unapproved = 15"
| "ddi_key_type_code KT_Secret256 = 16"
| "ddi_key_type_code KT_Secret384 = 17"
| "ddi_key_type_code KT_Secret521 = 18"
| "ddi_key_type_code KT_Rsa2kPublic = 19"
| "ddi_key_type_code KT_Rsa3kPublic = 20"
| "ddi_key_type_code KT_Rsa4kPublic = 21"
| "ddi_key_type_code KT_Ecc256Public = 22"
| "ddi_key_type_code KT_Ecc384Public = 23"
| "ddi_key_type_code KT_Ecc521Public = 24"
| "ddi_key_type_code KT_HmacSha256 = 25"
| "ddi_key_type_code KT_HmacSha384 = 26"
| "ddi_key_type_code KT_HmacSha512 = 27"
| "ddi_key_type_code KT_AesCbc256Hmac384 = 28"
| "ddi_key_type_code KT_KbKdfSecretSha384 = 29"
| "ddi_key_type_code KT_VarLenHmacSha256 = 30"
| "ddi_key_type_code KT_VarLenHmacSha384 = 31"
| "ddi_key_type_code KT_VarLenHmacSha512 = 32"
| "ddi_key_type_code KT_RsaUnwrap = 65535"
| "ddi_key_type_code (KT_Other w) = w"

definition ddi_key_type_table :: "(u32 \<times> ddi_key_type) list" where
  "ddi_key_type_table = map (\<lambda>v. (ddi_key_type_code v, v))
     [KT_Rsa2kPrivate, KT_Rsa3kPrivate, KT_Rsa4kPrivate, KT_Rsa2kPrivateCrt, KT_Rsa3kPrivateCrt,
      KT_Rsa4kPrivateCrt, KT_Ecc256Private, KT_Ecc384Private, KT_Ecc521Private, KT_Aes128,
      KT_Aes192, KT_Aes256, KT_AesXtsBulk256, KT_AesGcmBulk256, KT_AesGcmBulk256Unapproved,
      KT_Secret256, KT_Secret384, KT_Secret521, KT_Rsa2kPublic, KT_Rsa3kPublic, KT_Rsa4kPublic,
      KT_Ecc256Public, KT_Ecc384Public, KT_Ecc521Public, KT_HmacSha256, KT_HmacSha384,
      KT_HmacSha512, KT_AesCbc256Hmac384, KT_KbKdfSecretSha384, KT_VarLenHmacSha256,
      KT_VarLenHmacSha384, KT_VarLenHmacSha512, KT_RsaUnwrap]"

definition ddi_key_type_of_code :: "u32 \<Rightarrow> ddi_key_type" where
  "ddi_key_type_of_code w = (case map_of ddi_key_type_table w of Some v \<Rightarrow> v | None \<Rightarrow> KT_Other w)"

interpretation ddi_key_type: open_enum ddi_key_type_code KT_Other ddi_key_type_table ddi_key_type_of_code
  by unfold_locales (auto simp: ddi_key_type_table_def ddi_key_type_of_code_def)

section \<open>DdiHashAlgorithm\<close>

datatype ddi_hash_algorithm =
    HA_Sha1 | HA_Sha256 | HA_Sha384 | HA_Sha512 | HA_Other u32

primrec ddi_hash_algorithm_code :: "ddi_hash_algorithm \<Rightarrow> u32" where
  "ddi_hash_algorithm_code HA_Sha1 = 1"
| "ddi_hash_algorithm_code HA_Sha256 = 2"
| "ddi_hash_algorithm_code HA_Sha384 = 3"
| "ddi_hash_algorithm_code HA_Sha512 = 4"
| "ddi_hash_algorithm_code (HA_Other w) = w"

definition ddi_hash_algorithm_table :: "(u32 \<times> ddi_hash_algorithm) list" where
  "ddi_hash_algorithm_table = map (\<lambda>v. (ddi_hash_algorithm_code v, v))
     [HA_Sha1, HA_Sha256, HA_Sha384, HA_Sha512]"

definition ddi_hash_algorithm_of_code :: "u32 \<Rightarrow> ddi_hash_algorithm" where
  "ddi_hash_algorithm_of_code w = (case map_of ddi_hash_algorithm_table w of Some v \<Rightarrow> v | None \<Rightarrow> HA_Other w)"

interpretation ddi_hash_algorithm: open_enum ddi_hash_algorithm_code HA_Other ddi_hash_algorithm_table ddi_hash_algorithm_of_code
  by unfold_locales (auto simp: ddi_hash_algorithm_table_def ddi_hash_algorithm_of_code_def)

section \<open>DdiKeyUsage\<close>

datatype ddi_key_usage =
    KU_SignVerify | KU_EncryptDecrypt | KU_Unwrap | KU_Derive | KU_Other u32

primrec ddi_key_usage_code :: "ddi_key_usage \<Rightarrow> u32" where
  "ddi_key_usage_code KU_SignVerify = 1"
| "ddi_key_usage_code KU_EncryptDecrypt = 2"
| "ddi_key_usage_code KU_Unwrap = 3"
| "ddi_key_usage_code KU_Derive = 4"
| "ddi_key_usage_code (KU_Other w) = w"

definition ddi_key_usage_table :: "(u32 \<times> ddi_key_usage) list" where
  "ddi_key_usage_table = map (\<lambda>v. (ddi_key_usage_code v, v))
     [KU_SignVerify, KU_EncryptDecrypt, KU_Unwrap, KU_Derive]"

definition ddi_key_usage_of_code :: "u32 \<Rightarrow> ddi_key_usage" where
  "ddi_key_usage_of_code w = (case map_of ddi_key_usage_table w of Some v \<Rightarrow> v | None \<Rightarrow> KU_Other w)"

interpretation ddi_key_usage: open_enum ddi_key_usage_code KU_Other ddi_key_usage_table ddi_key_usage_of_code
  by unfold_locales (auto simp: ddi_key_usage_table_def ddi_key_usage_of_code_def)

section \<open>DdiKeyAvailability\<close>

datatype ddi_key_availability =
    KA_App | KA_Session | KA_Other u32

primrec ddi_key_availability_code :: "ddi_key_availability \<Rightarrow> u32" where
  "ddi_key_availability_code KA_App = 1"
| "ddi_key_availability_code KA_Session = 2"
| "ddi_key_availability_code (KA_Other w) = w"

definition ddi_key_availability_table :: "(u32 \<times> ddi_key_availability) list" where
  "ddi_key_availability_table = map (\<lambda>v. (ddi_key_availability_code v, v))
     [KA_App, KA_Session]"

definition ddi_key_availability_of_code :: "u32 \<Rightarrow> ddi_key_availability" where
  "ddi_key_availability_of_code w = (case map_of ddi_key_availability_table w of Some v \<Rightarrow> v | None \<Rightarrow> KA_Other w)"

interpretation ddi_key_availability: open_enum ddi_key_availability_code KA_Other ddi_key_availability_table ddi_key_availability_of_code
  by unfold_locales (auto simp: ddi_key_availability_table_def ddi_key_availability_of_code_def)

section \<open>DdiAesKeySize\<close>

datatype ddi_aes_key_size =
    AS_Aes128 | AS_Aes192 | AS_Aes256 | AS_AesXtsBulk256 | AS_AesGcmBulk256
  | AS_AesGcmBulk256Unapproved | AS_Other u32

primrec ddi_aes_key_size_code :: "ddi_aes_key_size \<Rightarrow> u32" where
  "ddi_aes_key_size_code AS_Aes128 = 1"
| "ddi_aes_key_size_code AS_Aes192 = 2"
| "ddi_aes_key_size_code AS_Aes256 = 3"
| "ddi_aes_key_size_code AS_AesXtsBulk256 = 4"
| "ddi_aes_key_size_code AS_AesGcmBulk256 = 5"
| "ddi_aes_key_size_code AS_AesGcmBulk256Unapproved = 6"
| "ddi_aes_key_size_code (AS_Other w) = w"

definition ddi_aes_key_size_table :: "(u32 \<times> ddi_aes_key_size) list" where
  "ddi_aes_key_size_table = map (\<lambda>v. (ddi_aes_key_size_code v, v))
     [AS_Aes128, AS_Aes192, AS_Aes256, AS_AesXtsBulk256, AS_AesGcmBulk256,
      AS_AesGcmBulk256Unapproved]"

definition ddi_aes_key_size_of_code :: "u32 \<Rightarrow> ddi_aes_key_size" where
  "ddi_aes_key_size_of_code w = (case map_of ddi_aes_key_size_table w of Some v \<Rightarrow> v | None \<Rightarrow> AS_Other w)"

interpretation ddi_aes_key_size: open_enum ddi_aes_key_size_code AS_Other ddi_aes_key_size_table ddi_aes_key_size_of_code
  by unfold_locales (auto simp: ddi_aes_key_size_table_def ddi_aes_key_size_of_code_def)

section \<open>DdiRsaOpType\<close>

datatype ddi_rsa_op_type =
    RO_Decrypt | RO_Sign | RO_Other u32

primrec ddi_rsa_op_type_code :: "ddi_rsa_op_type \<Rightarrow> u32" where
  "ddi_rsa_op_type_code RO_Decrypt = 1"
| "ddi_rsa_op_type_code RO_Sign = 2"
| "ddi_rsa_op_type_code (RO_Other w) = w"

definition ddi_rsa_op_type_table :: "(u32 \<times> ddi_rsa_op_type) list" where
  "ddi_rsa_op_type_table = map (\<lambda>v. (ddi_rsa_op_type_code v, v))
     [RO_Decrypt, RO_Sign]"

definition ddi_rsa_op_type_of_code :: "u32 \<Rightarrow> ddi_rsa_op_type" where
  "ddi_rsa_op_type_of_code w = (case map_of ddi_rsa_op_type_table w of Some v \<Rightarrow> v | None \<Rightarrow> RO_Other w)"

interpretation ddi_rsa_op_type: open_enum ddi_rsa_op_type_code RO_Other ddi_rsa_op_type_table ddi_rsa_op_type_of_code
  by unfold_locales (auto simp: ddi_rsa_op_type_table_def ddi_rsa_op_type_of_code_def)

section \<open>Functions of the enumerations\<close>

text \<open>\<open>DdiKeyType::to_public\<close>, \<open>is_bulk_key\<close> and \<open>is_var_hmac\<close>.\<close>

definition to_public :: "ddi_key_type \<Rightarrow> ddi_key_type" where
  "to_public k =
     (case k of
        KT_Rsa2kPrivate \<Rightarrow> KT_Rsa2kPublic | KT_Rsa2kPrivateCrt \<Rightarrow> KT_Rsa2kPublic
      | KT_Rsa3kPrivate \<Rightarrow> KT_Rsa3kPublic | KT_Rsa3kPrivateCrt \<Rightarrow> KT_Rsa3kPublic
      | KT_Rsa4kPrivate \<Rightarrow> KT_Rsa4kPublic | KT_Rsa4kPrivateCrt \<Rightarrow> KT_Rsa4kPublic
      | KT_Ecc256Private \<Rightarrow> KT_Ecc256Public
      | KT_Ecc384Private \<Rightarrow> KT_Ecc384Public
      | KT_Ecc521Private \<Rightarrow> KT_Ecc521Public
      | _ \<Rightarrow> k)"

definition key_type_is_bulk_key :: "ddi_key_type \<Rightarrow> bool" where
  "key_type_is_bulk_key k \<longleftrightarrow> k \<in> {KT_AesXtsBulk256, KT_AesGcmBulk256, KT_AesGcmBulk256Unapproved}"

definition key_type_is_var_hmac :: "ddi_key_type \<Rightarrow> bool" where
  "key_type_is_var_hmac k \<longleftrightarrow> k \<in> {KT_VarLenHmacSha256, KT_VarLenHmacSha384, KT_VarLenHmacSha512}"

text \<open>Which commands run without a session: \<open>From<DdiOp> for DdiSessionKind\<close>.\<close>

datatype ddi_session_kind = SK_None | SK_User

definition session_kind_of_op :: "ddi_op \<Rightarrow> ddi_session_kind" where
  "session_kind_of_op op =
     (if op \<in> {Op_Invalid, Op_GetApiRev, Op_GetDeviceInfo, Op_GetEstablishCredEncryptionKey,
                Op_EstablishCredential, Op_GetSessionEncryptionKey, Op_OpenSession, Op_InitBk3,
                Op_GetSealedBk3, Op_SetSealedBk3, Op_GetCertChainInfo, Op_GetCertificate}
      then SK_None else SK_User)"

text \<open>The sizes and key types of \<open>DdiAesKeySize\<close>; its only error is \<open>InvalidKeySize\<close>.\<close>

datatype aes_key_size_error = InvalidKeySize

definition aes_key_size_len :: "ddi_aes_key_size \<Rightarrow> (aes_key_size_error, nat) outcome" where
  "aes_key_size_len k =
     (case k of AS_Aes128 \<Rightarrow> Ok 16 | AS_Aes192 \<Rightarrow> Ok 24 | AS_Aes256 \<Rightarrow> Ok 32
      | AS_AesXtsBulk256 \<Rightarrow> Ok 32 | AS_AesGcmBulk256 \<Rightarrow> Ok 32 | AS_AesGcmBulk256Unapproved \<Rightarrow> Ok 32
      | _ \<Rightarrow> Err InvalidKeySize)"

definition key_type_of_aes_key_size :: "ddi_aes_key_size \<Rightarrow> (aes_key_size_error, ddi_key_type) outcome" where
  "key_type_of_aes_key_size k =
     (case k of AS_Aes128 \<Rightarrow> Ok KT_Aes128 | AS_Aes192 \<Rightarrow> Ok KT_Aes192 | AS_Aes256 \<Rightarrow> Ok KT_Aes256
      | AS_AesXtsBulk256 \<Rightarrow> Ok KT_AesXtsBulk256 | AS_AesGcmBulk256 \<Rightarrow> Ok KT_AesGcmBulk256
      | AS_AesGcmBulk256Unapproved \<Rightarrow> Ok KT_AesGcmBulk256Unapproved
      | _ \<Rightarrow> Err InvalidKeySize)"

lemma to_public_idem: "to_public (to_public k) = to_public k"
  by (cases k) (simp_all add: to_public_def)

end
