(* ===== verification/Vault_Keys.thy ===== *)
theory Vault_Keys
  imports Ddi_Types Key_Store
begin

text \<open>
  The typed keys of the vault (\<open>vault/key\<close>): the kinds, usages and import records of AES, ECC,
  ECDH, HMAC, variable-length HMAC, RSA, session, credential and masking keys, the conversions
  between them, the store's entry kinds and the wire interface, and the views of a stored key
  (\<open>VaultKey\<close>) that check its class and its permissions.
\<close>

section \<open>Availability and key types\<close>

datatype key_availability = Avail_App | Avail_Session

definition key_availability_of_ddi :: "ddi_key_availability \<Rightarrow> key_availability hsm_result" where
  "key_availability_of_ddi a =
     (case a of KA_App \<Rightarrow> Ok Avail_App | KA_Session \<Rightarrow> Ok Avail_Session | _ \<Rightarrow> Err InvalidArgument)"

definition entry_class_of_ddi :: "ddi_key_class \<Rightarrow> entry_class hsm_result" where
  "entry_class_of_ddi c =
     (case c of KC_Rsa \<Rightarrow> Ok EC_Rsa | KC_RsaCrt \<Rightarrow> Ok EC_RsaCrt | KC_Ecc \<Rightarrow> Ok EC_Ecc | KC_Aes \<Rightarrow> Ok EC_Aes
      | KC_AesXtsBulk \<Rightarrow> Ok EC_AesXtsBulk | KC_AesGcmBulk \<Rightarrow> Ok EC_AesGcmBulk
      | KC_AesGcmUnApprovedBulk \<Rightarrow> Ok EC_AesGcmBulkUnapproved
      | _ \<Rightarrow> Err InvalidArgument)"

definition aes_bulk_ddi_key_type :: "entry_class \<Rightarrow> ddi_key_type hsm_result" where
  "aes_bulk_ddi_key_type c =
     (case c of EC_AesXtsBulk \<Rightarrow> Ok KT_AesXtsBulk256 | EC_AesGcmBulk \<Rightarrow> Ok KT_AesGcmBulk256
      | EC_AesGcmBulkUnapproved \<Rightarrow> Ok KT_AesGcmBulk256Unapproved
      | _ \<Rightarrow> Err InvalidKeyType)"

definition entry_kind_of_ddi :: "ddi_key_type \<Rightarrow> entry_kind hsm_result" where
  "entry_kind_of_ddi k =
     (case k of
        KT_Rsa2kPublic \<Rightarrow> Ok EK_Rsa2kPublic | KT_Rsa3kPublic \<Rightarrow> Ok EK_Rsa3kPublic
      | KT_Rsa4kPublic \<Rightarrow> Ok EK_Rsa4kPublic
      | KT_Rsa2kPrivate \<Rightarrow> Ok EK_Rsa2kPrivate | KT_RsaUnwrap \<Rightarrow> Ok EK_Rsa2kPrivate
      | KT_Rsa3kPrivate \<Rightarrow> Ok EK_Rsa3kPrivate | KT_Rsa4kPrivate \<Rightarrow> Ok EK_Rsa4kPrivate
      | KT_Rsa2kPrivateCrt \<Rightarrow> Ok EK_Rsa2kPrivateCrt | KT_Rsa3kPrivateCrt \<Rightarrow> Ok EK_Rsa3kPrivateCrt
      | KT_Rsa4kPrivateCrt \<Rightarrow> Ok EK_Rsa4kPrivateCrt
      | KT_Ecc256Public \<Rightarrow> Ok EK_Ecc256Public | KT_Ecc384Public \<Rightarrow> Ok EK_Ecc384Public
      | KT_Ecc521Public \<Rightarrow> Ok EK_Ecc521Public
      | KT_Ecc256Private \<Rightarrow> Ok EK_Ecc256Private | KT_Ecc384Private \<Rightarrow> Ok EK_Ecc384Private
      | KT_Ecc521Private \<Rightarrow> Ok EK_Ecc521Private
      | KT_Aes128 \<Rightarrow> Ok EK_Aes128 | KT_Aes192 \<Rightarrow> Ok EK_Aes192 | KT_Aes256 \<Rightarrow> Ok EK_Aes256
      | KT_AesXtsBulk256 \<Rightarrow> Ok EK_AesXtsBulk256 | KT_AesGcmBulk256 \<Rightarrow> Ok EK_AesGcmBulk256
      | KT_AesGcmBulk256Unapproved \<Rightarrow> Ok EK_AesGcmBulk256Unapproved
      | KT_Secret256 \<Rightarrow> Ok EK_Secret256 | KT_Secret384 \<Rightarrow> Ok EK_Secret384 | KT_Secret521 \<Rightarrow> Ok EK_Secret521
      | KT_HmacSha256 \<Rightarrow> Ok EK_HmacSha256 | KT_HmacSha384 \<Rightarrow> Ok EK_HmacSha384
      | KT_HmacSha512 \<Rightarrow> Ok EK_HmacSha512
      | KT_VarLenHmacSha256 \<Rightarrow> Ok EK_VarLenHmacSha256 | KT_VarLenHmacSha384 \<Rightarrow> Ok EK_VarLenHmacSha384
      | KT_VarLenHmacSha512 \<Rightarrow> Ok EK_VarLenHmacSha512
      | _ \<Rightarrow> Err InvalidArgument)"

definition ddi_of_entry_kind :: "entry_kind \<Rightarrow> ddi_key_type hsm_result" where
  "ddi_of_entry_kind k =
     (case k of
        EK_Rsa2kPublic \<Rightarrow> Ok KT_Rsa2kPublic | EK_Rsa3kPublic \<Rightarrow> Ok KT_Rsa3kPublic
      | EK_Rsa4kPublic \<Rightarrow> Ok KT_Rsa4kPublic
      | EK_Rsa2kPrivate \<Rightarrow> Ok KT_Rsa2kPrivate | EK_Rsa3kPrivate \<Rightarrow> Ok KT_Rsa3kPrivate
      | EK_Rsa4kPrivate \<Rightarrow> Ok KT_Rsa4kPrivate
      | EK_Rsa2kPrivateCrt \<Rightarrow> Ok KT_Rsa2kPrivateCrt | EK_Rsa3kPrivateCrt \<Rightarrow> Ok KT_Rsa3kPrivateCrt
      | EK_Rsa4kPrivateCrt \<Rightarrow> Ok KT_Rsa4kPrivateCrt
      | EK_Ecc256Public \<Rightarrow> Ok KT_Ecc256Public | EK_Ecc384Public \<Rightarrow> Ok KT_Ecc384Public
      | EK_Ecc521Public \<Rightarrow> Ok KT_Ecc521Public
      | EK_Ecc256Private \<Rightarrow> Ok KT_Ecc256Private | EK_Ecc384Private \<Rightarrow> Ok KT_Ecc384Private
      | EK_Ecc521Private \<Rightarrow> Ok KT_Ecc521Private
      | EK_Aes128 \<Rightarrow> Ok KT_Aes128 | EK_Aes192 \<Rightarrow> Ok KT_Aes192 | EK_Aes256 \<Rightarrow> Ok KT_Aes256
      | EK_AesXtsBulk256 \<Rightarrow> Ok KT_AesXtsBulk256 | EK_AesGcmBulk256 \<Rightarrow> Ok KT_AesGcmBulk256
      | EK_AesGcmBulk256Unapproved \<Rightarrow> Ok KT_AesGcmBulk256Unapproved
      | EK_Secret256 \<Rightarrow> Ok KT_Secret256 | EK_Secret384 \<Rightarrow> Ok KT_Secret384 | EK_Secret521 \<Rightarrow> Ok KT_Secret521
      | EK_HmacSha256 \<Rightarrow> Ok KT_HmacSha256 | EK_HmacSha384 \<Rightarrow> Ok KT_HmacSha384
      | EK_HmacSha512 \<Rightarrow> Ok KT_HmacSha512
      | EK_VarLenHmacSha256 \<Rightarrow> Ok KT_VarLenHmacSha256 | EK_VarLenHmacSha384 \<Rightarrow> Ok KT_VarLenHmacSha384
      | EK_VarLenHmacSha512 \<Rightarrow> Ok KT_VarLenHmacSha512
      | _ \<Rightarrow> Err InvalidKeyType)"

section \<open>The view of a stored key\<close>

text \<open>
  A \<open>VaultKey\<close> is a handle on the shared store and a key number; its methods read the store at the
  time of the call, disabled keys included.
\<close>

definition vk_flags :: "key_store \<Rightarrow> u16 \<Rightarrow> entry_flags hsm_result" where
  "vk_flags s key_id = map_ok pe_flags (ks_get_entry s key_id True)"

definition vk_attributes :: "key_store \<Rightarrow> u16 \<Rightarrow> entry_attributes hsm_result" where
  "vk_attributes s key_id = ks_get_entry_attributes s key_id True"

definition vk_session_id :: "key_store \<Rightarrow> u16 \<Rightarrow> u16 option hsm_result" where
  "vk_session_id s key_id = map_ok pe_session_id (ks_get_entry s key_id True)"

definition vk_key_tag :: "key_store \<Rightarrow> u16 \<Rightarrow> u16 option hsm_result" where
  "vk_key_tag s key_id = map_ok pe_key_tag (ks_get_entry s key_id True)"

definition vk_kind :: "key_store \<Rightarrow> u16 \<Rightarrow> entry_kind hsm_result" where
  "vk_kind s key_id = map_ok pe_kind (ks_get_entry s key_id True)"

definition vk_class :: "key_store \<Rightarrow> u16 \<Rightarrow> entry_class hsm_result" where
  "vk_class s key_id = map_ok class_of_kind (vk_kind s key_id)"

definition vk_app_kv_id :: "key_store \<Rightarrow> u16 \<Rightarrow> u8 hsm_result" where
  "vk_app_kv_id s key_id = map_ok pe_app_id (ks_get_entry s key_id True)"

definition vk_disabled :: "key_store \<Rightarrow> u16 \<Rightarrow> bool hsm_result" where
  "vk_disabled s key_id = map_ok pe_disabled (ks_get_entry s key_id True)"

definition vk_blob :: "key_store \<Rightarrow> u16 \<Rightarrow> bytes hsm_result" where
  "vk_blob s key_id = ks_get_entry_blob s key_id"

section \<open>AES keys\<close>

datatype aes_key_kind =
    Ak_AesXtsBulk256 | Ak_AesGcmBulk256 | Ak_AesGcmBulk256Unapproved | Ak_Aes128 | Ak_Aes192 | Ak_Aes256

datatype aes_key_usage = Aku_EncryptDecrypt

primrec entry_of_aes_kind :: "aes_key_kind \<Rightarrow> entry_kind" where
  "entry_of_aes_kind Ak_Aes128 = EK_Aes128"
| "entry_of_aes_kind Ak_Aes192 = EK_Aes192"
| "entry_of_aes_kind Ak_Aes256 = EK_Aes256"
| "entry_of_aes_kind Ak_AesXtsBulk256 = EK_AesXtsBulk256"
| "entry_of_aes_kind Ak_AesGcmBulk256 = EK_AesGcmBulk256"
| "entry_of_aes_kind Ak_AesGcmBulk256Unapproved = EK_AesGcmBulk256Unapproved"

definition aes_kind_of_entry :: "entry_kind \<Rightarrow> aes_key_kind hsm_result" where
  "aes_kind_of_entry k =
     (case k of EK_Aes128 \<Rightarrow> Ok Ak_Aes128 | EK_Aes192 \<Rightarrow> Ok Ak_Aes192 | EK_Aes256 \<Rightarrow> Ok Ak_Aes256
      | EK_AesXtsBulk256 \<Rightarrow> Ok Ak_AesXtsBulk256 | EK_AesGcmBulk256 \<Rightarrow> Ok Ak_AesGcmBulk256
      | EK_AesGcmBulk256Unapproved \<Rightarrow> Ok Ak_AesGcmBulk256Unapproved
      | _ \<Rightarrow> Err InvalidKeyType)"

primrec aes_kind_len :: "aes_key_kind \<Rightarrow> nat" where
  "aes_kind_len Ak_AesXtsBulk256 = 2"
| "aes_kind_len Ak_AesGcmBulk256 = 2"
| "aes_kind_len Ak_AesGcmBulk256Unapproved = 2"
| "aes_kind_len Ak_Aes128 = 16"
| "aes_kind_len Ak_Aes192 = 24"
| "aes_kind_len Ak_Aes256 = 32"

definition aes_kind_of_ddi_size :: "ddi_aes_key_size \<Rightarrow> aes_key_kind hsm_result" where
  "aes_kind_of_ddi_size k =
     (case k of AS_Aes128 \<Rightarrow> Ok Ak_Aes128 | AS_Aes192 \<Rightarrow> Ok Ak_Aes192 | AS_Aes256 \<Rightarrow> Ok Ak_Aes256
      | AS_AesXtsBulk256 \<Rightarrow> Ok Ak_AesXtsBulk256 | AS_AesGcmBulk256 \<Rightarrow> Ok Ak_AesGcmBulk256
      | AS_AesGcmBulk256Unapproved \<Rightarrow> Ok Ak_AesGcmBulk256Unapproved
      | _ \<Rightarrow> Err InvalidArgument)"

definition aes_usage_of_ddi :: "ddi_key_usage \<Rightarrow> aes_key_usage hsm_result" where
  "aes_usage_of_ddi u = (case u of KU_EncryptDecrypt \<Rightarrow> Ok Aku_EncryptDecrypt | _ \<Rightarrow> Err InvalidPermissions)"

text \<open>A permission check of \<open>usage_allowed\<close>: all the flags must be set.\<close>

definition flags_allow :: "attr_flag list \<Rightarrow> entry_attributes \<Rightarrow> unit hsm_result" where
  "flags_allow fs a = (if list_all (\<lambda>f. flag_get f (attr_flags a)) fs then Ok () else Err InvalidPermissions)"

primrec aes_usage_flags :: "aes_key_usage \<Rightarrow> attr_flag list" where
  "aes_usage_flags Aku_EncryptDecrypt = [AF_encrypt, AF_decrypt]"

definition aes_usage_allowed :: "key_store \<Rightarrow> u16 \<Rightarrow> aes_key_usage \<Rightarrow> unit hsm_result" where
  "aes_usage_allowed s key_id usage = and_then (vk_attributes s key_id) (flags_allow (aes_usage_flags usage))"

definition aes_key_try_from :: "key_store \<Rightarrow> u16 \<Rightarrow> u16 hsm_result" where
  "aes_key_try_from s key_id =
     and_then (vk_class s key_id) (\<lambda>class. if class \<noteq> EC_Aes then Err InvalidKeyType else Ok key_id)"

record aes_key_imported =
  aki_kind :: aes_key_kind
  aki_usage :: aes_key_usage
  aki_blob :: bytes

definition aes_key_imported_new :: "aes_key_kind \<Rightarrow> aes_key_usage \<Rightarrow> bytes \<Rightarrow> aes_key_imported hsm_result" where
  "aes_key_imported_new kind usage val =
     (if length val \<noteq> aes_kind_len kind then Err InvalidKeyType
      else Ok \<lparr>aki_kind = kind, aki_usage = usage, aki_blob = val\<rparr>)"

definition aki_key_blob :: "aes_key_imported \<Rightarrow> bytes hsm_result" where
  "aki_key_blob key = slice_get 0 (aes_kind_len (aki_kind key)) (aki_blob key)"

text \<open>Setting flags of an attributes record one after the other.\<close>

definition set_flags :: "attr_flag list \<Rightarrow> entry_attributes \<Rightarrow> entry_attributes" where
  "set_flags fs a = a\<lparr>attr_flags := fold (\<lambda>f w. flag_set f True w) fs (attr_flags a)\<rparr>"

definition set_flag_if :: "bool \<Rightarrow> attr_flag \<Rightarrow> entry_attributes \<Rightarrow> entry_attributes" where
  "set_flag_if b f a = (if b then a\<lparr>attr_flags := flag_set f True (attr_flags a)\<rparr> else a)"

definition set_session :: "bool \<Rightarrow> entry_attributes \<Rightarrow> entry_attributes" where
  "set_session b a = a\<lparr>attr_flags := flag_set AF_session b (attr_flags a)\<rparr>"

definition aes_entry_attributes :: "key_availability \<Rightarrow> bool \<Rightarrow> aes_key_usage \<Rightarrow> entry_attributes" where
  "aes_entry_attributes availability generated usage =
     set_flags (aes_usage_flags usage)
       (set_flag_if generated AF_local (set_session (availability = Avail_Session) default_attributes))"

section \<open>ECC and ECDH keys\<close>

datatype ecc_curve = P256 | P384 | P521

datatype ecc_key_kind =
    Ek_Ecc256Public | Ek_Ecc384Public | Ek_Ecc521Public | Ek_Ecc256Private | Ek_Ecc384Private | Ek_Ecc521Private

primrec ecc_kind_len :: "ecc_key_kind \<Rightarrow> nat" where
  "ecc_kind_len Ek_Ecc256Public = 64"
| "ecc_kind_len Ek_Ecc384Public = 96"
| "ecc_kind_len Ek_Ecc521Public = 136"
| "ecc_kind_len Ek_Ecc256Private = 32"
| "ecc_kind_len Ek_Ecc384Private = 48"
| "ecc_kind_len Ek_Ecc521Private = 68"

primrec entry_of_ecc_kind :: "ecc_key_kind \<Rightarrow> entry_kind" where
  "entry_of_ecc_kind Ek_Ecc256Public = EK_Ecc256Public"
| "entry_of_ecc_kind Ek_Ecc384Public = EK_Ecc384Public"
| "entry_of_ecc_kind Ek_Ecc521Public = EK_Ecc521Public"
| "entry_of_ecc_kind Ek_Ecc256Private = EK_Ecc256Private"
| "entry_of_ecc_kind Ek_Ecc384Private = EK_Ecc384Private"
| "entry_of_ecc_kind Ek_Ecc521Private = EK_Ecc521Private"

definition ecc_kind_of_entry :: "entry_kind \<Rightarrow> ecc_key_kind hsm_result" where
  "ecc_kind_of_entry k =
     (case k of EK_Ecc256Private \<Rightarrow> Ok Ek_Ecc256Private | EK_Ecc384Private \<Rightarrow> Ok Ek_Ecc384Private
      | EK_Ecc521Private \<Rightarrow> Ok Ek_Ecc521Private | _ \<Rightarrow> Err InvalidKeyType)"

primrec ecc_kind_of_curve :: "ecc_curve \<Rightarrow> ecc_key_kind" where
  "ecc_kind_of_curve P256 = Ek_Ecc256Private"
| "ecc_kind_of_curve P384 = Ek_Ecc384Private"
| "ecc_kind_of_curve P521 = Ek_Ecc521Private"

datatype ecc_key_usage = Eku_SignVerify | Eku_KeyAgreement

definition ecc_usage_of_ddi :: "ddi_key_usage \<Rightarrow> ecc_key_usage hsm_result" where
  "ecc_usage_of_ddi u =
     (case u of KU_SignVerify \<Rightarrow> Ok Eku_SignVerify | KU_Derive \<Rightarrow> Ok Eku_KeyAgreement | _ \<Rightarrow> Err InvalidPermissions)"

primrec ecc_usage_flags :: "ecc_key_usage \<Rightarrow> attr_flag list" where
  "ecc_usage_flags Eku_SignVerify = [AF_sign, AF_verify]"
| "ecc_usage_flags Eku_KeyAgreement = [AF_derive]"

definition ecc_usage_allowed :: "key_store \<Rightarrow> u16 \<Rightarrow> ecc_key_usage \<Rightarrow> unit hsm_result" where
  "ecc_usage_allowed s key_id usage = and_then (vk_attributes s key_id) (flags_allow (ecc_usage_flags usage))"

definition ecc_key_try_from :: "key_store \<Rightarrow> u16 \<Rightarrow> u16 hsm_result" where
  "ecc_key_try_from s key_id =
     and_then (vk_class s key_id) (\<lambda>class. if class \<noteq> EC_Ecc then Err InvalidKeyType else Ok key_id)"

record ecc_key_imported =
  eki_kind :: ecc_key_kind
  eki_usage :: ecc_key_usage
  eki_blob :: bytes

definition ecc_key_imported_new :: "ecc_key_kind \<Rightarrow> ecc_key_usage \<Rightarrow> bytes \<Rightarrow> ecc_key_imported hsm_result" where
  "ecc_key_imported_new kind usage val =
     (if length val \<noteq> ecc_kind_len kind then Err InvalidKeyType
      else Ok \<lparr>eki_kind = kind, eki_usage = usage, eki_blob = val\<rparr>)"

definition eki_key_blob :: "ecc_key_imported \<Rightarrow> bytes hsm_result" where
  "eki_key_blob key = slice_get 0 (ecc_kind_len (eki_kind key)) (eki_blob key)"

datatype ecdh_key_kind = EcdhSecret256 | EcdhSecret384 | EcdhSecret521

primrec ecdh_kind_len :: "ecdh_key_kind \<Rightarrow> nat" where
  "ecdh_kind_len EcdhSecret256 = 32"
| "ecdh_kind_len EcdhSecret384 = 48"
| "ecdh_kind_len EcdhSecret521 = 68"

primrec entry_of_ecdh_kind :: "ecdh_key_kind \<Rightarrow> entry_kind" where
  "entry_of_ecdh_kind EcdhSecret256 = EK_Secret256"
| "entry_of_ecdh_kind EcdhSecret384 = EK_Secret384"
| "entry_of_ecdh_kind EcdhSecret521 = EK_Secret521"

definition ecdh_kind_of_entry :: "entry_kind \<Rightarrow> ecdh_key_kind hsm_result" where
  "ecdh_kind_of_entry k =
     (case k of EK_Secret256 \<Rightarrow> Ok EcdhSecret256 | EK_Secret384 \<Rightarrow> Ok EcdhSecret384
      | EK_Secret521 \<Rightarrow> Ok EcdhSecret521 | _ \<Rightarrow> Err InvalidKeyType)"

primrec ecdh_kind_of_curve :: "ecc_curve \<Rightarrow> ecdh_key_kind" where
  "ecdh_kind_of_curve P256 = EcdhSecret256"
| "ecdh_kind_of_curve P384 = EcdhSecret384"
| "ecdh_kind_of_curve P521 = EcdhSecret521"

definition ecdh_kind_of_ddi :: "ddi_key_type \<Rightarrow> ecdh_key_kind hsm_result" where
  "ecdh_kind_of_ddi k =
     (case k of KT_Secret256 \<Rightarrow> Ok EcdhSecret256 | KT_Secret384 \<Rightarrow> Ok EcdhSecret384
      | KT_Secret521 \<Rightarrow> Ok EcdhSecret521 | _ \<Rightarrow> Err InvalidKeyType)"

datatype ecdh_key_usage = Edu_KeyAgreement

definition ecdh_usage_of_ddi :: "ddi_key_usage \<Rightarrow> ecdh_key_usage hsm_result" where
  "ecdh_usage_of_ddi u = (case u of KU_Derive \<Rightarrow> Ok Edu_KeyAgreement | _ \<Rightarrow> Err InvalidPermissions)"

primrec ecdh_usage_flags :: "ecdh_key_usage \<Rightarrow> attr_flag list" where
  "ecdh_usage_flags Edu_KeyAgreement = [AF_derive]"

definition ecdh_usage_allowed :: "key_store \<Rightarrow> u16 \<Rightarrow> ecdh_key_usage \<Rightarrow> unit hsm_result" where
  "ecdh_usage_allowed s key_id usage = and_then (vk_attributes s key_id) (flags_allow (ecdh_usage_flags usage))"

definition ecdh_key_try_from :: "key_store \<Rightarrow> u16 \<Rightarrow> u16 hsm_result" where
  "ecdh_key_try_from s key_id =
     and_then (vk_class s key_id) (\<lambda>class. if class \<noteq> EC_Secret then Err InvalidKeyType else Ok key_id)"

record ecdh_key_imported =
  edi_kind :: ecdh_key_kind
  edi_usage :: ecdh_key_usage
  edi_blob :: bytes

definition ecdh_key_imported_new :: "ecdh_key_kind \<Rightarrow> ecdh_key_usage \<Rightarrow> bytes \<Rightarrow> ecdh_key_imported hsm_result" where
  "ecdh_key_imported_new kind usage val =
     (if length val \<noteq> ecdh_kind_len kind then Err InvalidKeyType
      else Ok \<lparr>edi_kind = kind, edi_usage = usage, edi_blob = val\<rparr>)"

definition edi_key_blob :: "ecdh_key_imported \<Rightarrow> bytes hsm_result" where
  "edi_key_blob key = slice_get 0 (ecdh_kind_len (edi_kind key)) (edi_blob key)"

section \<open>HMAC keys\<close>

datatype hmac_key_kind = HmacKey256 | HmacKey384 | HmacKey512

primrec hmac_kind_len :: "hmac_key_kind \<Rightarrow> nat" where
  "hmac_kind_len HmacKey256 = 32"
| "hmac_kind_len HmacKey384 = 48"
| "hmac_kind_len HmacKey512 = 64"

primrec entry_of_hmac_kind :: "hmac_key_kind \<Rightarrow> entry_kind" where
  "entry_of_hmac_kind HmacKey256 = EK_HmacSha256"
| "entry_of_hmac_kind HmacKey384 = EK_HmacSha384"
| "entry_of_hmac_kind HmacKey512 = EK_HmacSha512"

definition hmac_kind_of_ddi :: "ddi_key_type \<Rightarrow> hmac_key_kind hsm_result" where
  "hmac_kind_of_ddi k =
     (case k of KT_HmacSha256 \<Rightarrow> Ok HmacKey256 | KT_HmacSha384 \<Rightarrow> Ok HmacKey384
      | KT_HmacSha512 \<Rightarrow> Ok HmacKey512 | _ \<Rightarrow> Err InvalidKeyType)"

primrec hash_of_hmac_kind :: "hmac_key_kind \<Rightarrow> ddi_hash_algorithm" where
  "hash_of_hmac_kind HmacKey256 = HA_Sha256"
| "hash_of_hmac_kind HmacKey384 = HA_Sha384"
| "hash_of_hmac_kind HmacKey512 = HA_Sha512"

datatype hmac_key_usage = Hku_SignVerify | Hku_Derive

definition hmac_usage_of_ddi :: "ddi_key_usage \<Rightarrow> hmac_key_usage hsm_result" where
  "hmac_usage_of_ddi u =
     (case u of KU_SignVerify \<Rightarrow> Ok Hku_SignVerify | KU_Derive \<Rightarrow> Ok Hku_Derive | _ \<Rightarrow> Err InvalidPermissions)"

primrec hmac_usage_flags :: "hmac_key_usage \<Rightarrow> attr_flag list" where
  "hmac_usage_flags Hku_SignVerify = [AF_sign, AF_verify]"
| "hmac_usage_flags Hku_Derive = [AF_derive]"

definition hmac_usage_allowed :: "key_store \<Rightarrow> u16 \<Rightarrow> hmac_key_usage \<Rightarrow> unit hsm_result" where
  "hmac_usage_allowed s key_id usage = and_then (vk_attributes s key_id) (flags_allow (hmac_usage_flags usage))"

definition hmac_key_kind_of :: "key_store \<Rightarrow> u16 \<Rightarrow> hmac_key_kind hsm_result" where
  "hmac_key_kind_of s key_id =
     and_then (vk_kind s key_id) (\<lambda>k.
       case k of EK_HmacSha256 \<Rightarrow> Ok HmacKey256 | EK_HmacSha384 \<Rightarrow> Ok HmacKey384
       | EK_HmacSha512 \<Rightarrow> Ok HmacKey512 | _ \<Rightarrow> Err InvalidKeyType)"

definition hmac_key_try_from :: "key_store \<Rightarrow> u16 \<Rightarrow> u16 hsm_result" where
  "hmac_key_try_from s key_id =
     and_then (vk_class s key_id) (\<lambda>class. if class \<noteq> EC_Hmac then Err InvalidKeyType else Ok key_id)"

record hmac_key_imported =
  hki_kind :: hmac_key_kind
  hki_usage :: hmac_key_usage
  hki_blob :: bytes

definition hmac_key_imported_new :: "hmac_key_kind \<Rightarrow> hmac_key_usage \<Rightarrow> bytes \<Rightarrow> hmac_key_imported hsm_result" where
  "hmac_key_imported_new kind usage val =
     (if length val \<noteq> hmac_kind_len kind then Err InvalidKeyType
      else Ok \<lparr>hki_kind = kind, hki_usage = usage, hki_blob = val\<rparr>)"

definition hki_key_blob :: "hmac_key_imported \<Rightarrow> bytes hsm_result" where
  "hki_key_blob key = slice_get 0 (hmac_kind_len (hki_kind key)) (hki_blob key)"

text \<open>Keys of variable length carry their length in the attributes.\<close>

definition var_hmac_kind_of_ddi :: "ddi_key_type \<Rightarrow> var_hmac_kind hsm_result" where
  "var_hmac_kind_of_ddi k =
     (case k of KT_VarLenHmacSha256 \<Rightarrow> Ok VarLenHmacShaKey256 | KT_VarLenHmacSha384 \<Rightarrow> Ok VarLenHmacShaKey384
      | KT_VarLenHmacSha512 \<Rightarrow> Ok VarLenHmacShaKey512 | _ \<Rightarrow> Err InvalidKeyType)"

primrec hash_of_var_hmac_kind :: "var_hmac_kind \<Rightarrow> ddi_hash_algorithm" where
  "hash_of_var_hmac_kind VarLenHmacShaKey256 = HA_Sha256"
| "hash_of_var_hmac_kind VarLenHmacShaKey384 = HA_Sha384"
| "hash_of_var_hmac_kind VarLenHmacShaKey512 = HA_Sha512"

definition var_hmac_usage_allowed :: "key_store \<Rightarrow> u16 \<Rightarrow> hmac_key_usage \<Rightarrow> unit hsm_result" where
  "var_hmac_usage_allowed s key_id usage = and_then (vk_attributes s key_id) (flags_allow (hmac_usage_flags usage))"

definition var_hmac_key_kind_of :: "key_store \<Rightarrow> u16 \<Rightarrow> var_hmac_kind hsm_result" where
  "var_hmac_key_kind_of s key_id =
     and_then (vk_kind s key_id) (\<lambda>k.
       case k of EK_VarLenHmacSha256 \<Rightarrow> Ok VarLenHmacShaKey256 | EK_VarLenHmacSha384 \<Rightarrow> Ok VarLenHmacShaKey384
       | EK_VarLenHmacSha512 \<Rightarrow> Ok VarLenHmacShaKey512 | _ \<Rightarrow> Err InvalidKeyType)"

definition var_hmac_key_try_from :: "key_store \<Rightarrow> u16 \<Rightarrow> u16 hsm_result" where
  "var_hmac_key_try_from s key_id =
     and_then (vk_class s key_id) (\<lambda>class. if class \<noteq> EC_VarLenHmacSha then Err InvalidKeyType else Ok key_id)"

record var_hmac_key_imported =
  vhi_kind :: var_hmac_kind
  vhi_usage :: hmac_key_usage
  vhi_blob :: bytes
  vhi_length :: u8

definition var_hmac_key_imported_new ::
  "var_hmac_kind \<Rightarrow> hmac_key_usage \<Rightarrow> bytes \<Rightarrow> var_hmac_key_imported hsm_result" where
  "var_hmac_key_imported_new kind usage val =
     (if length val < min_length kind \<or> length val > max_length kind then Err InvalidKeyLength
      else Ok \<lparr>vhi_kind = kind, vhi_usage = usage, vhi_blob = val, vhi_length = of_nat (length val)\<rparr>)"

definition vhi_key_blob :: "var_hmac_key_imported \<Rightarrow> bytes hsm_result" where
  "vhi_key_blob key = slice_get 0 (unat (vhi_length key)) (vhi_blob key)"

section \<open>RSA keys\<close>

datatype rsa_key_kind =
    Rk_Rsa2kPrivate | Rk_Rsa3kPrivate | Rk_Rsa4kPrivate | Rk_Rsa2kPrivateCrt | Rk_Rsa3kPrivateCrt | Rk_Rsa4kPrivateCrt

primrec rsa_kind_len :: "rsa_key_kind \<Rightarrow> nat" where
  "rsa_kind_len Rk_Rsa2kPrivate = 516"
| "rsa_kind_len Rk_Rsa3kPrivate = 772"
| "rsa_kind_len Rk_Rsa4kPrivate = 1028"
| "rsa_kind_len Rk_Rsa2kPrivateCrt = 1284"
| "rsa_kind_len Rk_Rsa3kPrivateCrt = 1924"
| "rsa_kind_len Rk_Rsa4kPrivateCrt = 2564"

primrec entry_of_rsa_kind :: "rsa_key_kind \<Rightarrow> entry_kind" where
  "entry_of_rsa_kind Rk_Rsa2kPrivate = EK_Rsa2kPrivate"
| "entry_of_rsa_kind Rk_Rsa3kPrivate = EK_Rsa3kPrivate"
| "entry_of_rsa_kind Rk_Rsa4kPrivate = EK_Rsa4kPrivate"
| "entry_of_rsa_kind Rk_Rsa2kPrivateCrt = EK_Rsa2kPrivateCrt"
| "entry_of_rsa_kind Rk_Rsa3kPrivateCrt = EK_Rsa3kPrivateCrt"
| "entry_of_rsa_kind Rk_Rsa4kPrivateCrt = EK_Rsa4kPrivateCrt"

definition rsa_kind_of_entry :: "entry_kind \<Rightarrow> rsa_key_kind hsm_result" where
  "rsa_kind_of_entry k =
     (case k of EK_Rsa2kPrivate \<Rightarrow> Ok Rk_Rsa2kPrivate | EK_Rsa3kPrivate \<Rightarrow> Ok Rk_Rsa3kPrivate
      | EK_Rsa4kPrivate \<Rightarrow> Ok Rk_Rsa4kPrivate | EK_Rsa2kPrivateCrt \<Rightarrow> Ok Rk_Rsa2kPrivateCrt
      | EK_Rsa3kPrivateCrt \<Rightarrow> Ok Rk_Rsa3kPrivateCrt | EK_Rsa4kPrivateCrt \<Rightarrow> Ok Rk_Rsa4kPrivateCrt
      | _ \<Rightarrow> Err InvalidKeyType)"

datatype rsa_key_usage = Rku_SignVerify | Rku_EncryptDecrypt | Rku_Unwrap

definition rsa_usage_of_op :: "ddi_rsa_op_type \<Rightarrow> rsa_key_usage hsm_result" where
  "rsa_usage_of_op op =
     (case op of RO_Sign \<Rightarrow> Ok Rku_SignVerify | RO_Decrypt \<Rightarrow> Ok Rku_EncryptDecrypt | _ \<Rightarrow> Err InvalidArgument)"

definition rsa_usage_of_ddi :: "ddi_key_usage \<Rightarrow> rsa_key_usage hsm_result" where
  "rsa_usage_of_ddi u =
     (case u of KU_SignVerify \<Rightarrow> Ok Rku_SignVerify | KU_EncryptDecrypt \<Rightarrow> Ok Rku_EncryptDecrypt
      | _ \<Rightarrow> Err InvalidPermissions)"

primrec rsa_usage_flags :: "rsa_key_usage \<Rightarrow> attr_flag list" where
  "rsa_usage_flags Rku_SignVerify = [AF_sign, AF_verify]"
| "rsa_usage_flags Rku_EncryptDecrypt = [AF_encrypt, AF_decrypt]"
| "rsa_usage_flags Rku_Unwrap = [AF_unwrap]"

definition rsa_usage_allowed :: "key_store \<Rightarrow> u16 \<Rightarrow> rsa_key_usage \<Rightarrow> unit hsm_result" where
  "rsa_usage_allowed s key_id usage = and_then (vk_attributes s key_id) (flags_allow (rsa_usage_flags usage))"

definition is_crt_kind :: "entry_kind \<Rightarrow> bool" where
  "is_crt_kind k \<longleftrightarrow> k = EK_Rsa2kPrivateCrt \<or> k = EK_Rsa3kPrivateCrt \<or> k = EK_Rsa4kPrivateCrt"

definition is_crt_key :: "key_store \<Rightarrow> u16 \<Rightarrow> bool hsm_result" where
  "is_crt_key s key_id = map_ok is_crt_kind (vk_kind s key_id)"

definition expected_data_len :: "key_store \<Rightarrow> u16 \<Rightarrow> nat hsm_result" where
  "expected_data_len s key_id =
     and_then (vk_kind s key_id) (\<lambda>k.
       case k of EK_Rsa2kPrivate \<Rightarrow> Ok (2048 div 8) | EK_Rsa2kPrivateCrt \<Rightarrow> Ok (2048 div 8)
       | EK_Rsa3kPrivate \<Rightarrow> Ok (3072 div 8) | EK_Rsa3kPrivateCrt \<Rightarrow> Ok (3072 div 8)
       | EK_Rsa4kPrivate \<Rightarrow> Ok (4096 div 8) | EK_Rsa4kPrivateCrt \<Rightarrow> Ok (4096 div 8)
       | _ \<Rightarrow> Err InvalidKeyType)"

definition crt_param1_len :: "key_store \<Rightarrow> u16 \<Rightarrow> nat hsm_result" where
  "crt_param1_len s key_id =
     and_then (vk_kind s key_id) (\<lambda>k.
       case k of EK_Rsa2kPrivateCrt \<Rightarrow> Ok 512 | EK_Rsa3kPrivateCrt \<Rightarrow> Ok 768
       | EK_Rsa4kPrivateCrt \<Rightarrow> Ok 1024 | _ \<Rightarrow> Err InvalidKeyType)"

definition rsa_blob :: "key_store \<Rightarrow> u16 \<Rightarrow> bytes hsm_result" where
  "rsa_blob s key_id =
     and_then (is_crt_key s key_id) (\<lambda>crt. if crt then Err InvalidKeyType else vk_blob s key_id)"

definition rsa_n :: "key_store \<Rightarrow> u16 \<Rightarrow> bytes hsm_result" where
  "rsa_n s key_id =
     and_then (vk_blob s key_id) (\<lambda>blob.
     and_then (expected_data_len s key_id) (\<lambda>full_operand_len.
     and_then (is_crt_key s key_id) (\<lambda>crt.
     and_then (if crt then crt_param1_len s key_id else Ok full_operand_len) (\<lambda>start.
       slice_get start full_operand_len blob))))"

definition crt_param1 :: "key_store \<Rightarrow> u16 \<Rightarrow> bytes hsm_result" where
  "crt_param1 s key_id =
     and_then (crt_param1_len s key_id) (\<lambda>len.
     and_then (vk_blob s key_id) (\<lambda>blob. slice_get 0 len blob))"

definition crt_param2 :: "key_store \<Rightarrow> u16 \<Rightarrow> bytes hsm_result" where
  "crt_param2 s key_id =
     and_then (crt_param1_len s key_id) (\<lambda>len.
     and_then (vk_blob s key_id) (\<lambda>blob.
       if len \<le> length blob then Ok (drop len blob) else Panic))"

definition rsa_key_try_from :: "key_store \<Rightarrow> u16 \<Rightarrow> u16 hsm_result" where
  "rsa_key_try_from s key_id =
     and_then (vk_class s key_id) (\<lambda>class.
       if class \<noteq> EC_Rsa \<and> class \<noteq> EC_RsaCrt then Err InvalidKeyType else Ok key_id)"

record rsa_key_imported =
  rki_kind :: rsa_key_kind
  rki_usage :: rsa_key_usage
  rki_blob :: bytes

definition rsa_key_imported_new :: "rsa_key_kind \<Rightarrow> rsa_key_usage \<Rightarrow> bytes \<Rightarrow> rsa_key_imported hsm_result" where
  "rsa_key_imported_new kind usage val =
     (if length val \<noteq> rsa_kind_len kind then Err InvalidKeyType
      else Ok \<lparr>rki_kind = kind, rki_usage = usage, rki_blob = val\<rparr>)"

definition rki_key_blob :: "rsa_key_imported \<Rightarrow> bytes hsm_result" where
  "rki_key_blob key = slice_get 0 (rsa_kind_len (rki_kind key)) (rki_blob key)"

section \<open>Internal keys\<close>

text \<open>
  The keys the device makes for itself have a single kind: the pair that encrypts credentials, the
  pair that opens sessions, the session record and the masking key. Their import records hold a
  blob of exactly that size.
\<close>

definition ECC384_PAIR_SIZE :: nat where
  "ECC384_PAIR_SIZE = 144"

definition SESSION_KEY_SIZE :: nat where
  "SESSION_KEY_SIZE = 8"

definition MK_AES_CBC_256_HMAC384_SIZE_BYTES :: nat where
  "MK_AES_CBC_256_HMAC384_SIZE_BYTES = 80"

definition session_encryption_key_new :: "bytes \<Rightarrow> bytes hsm_result" where
  "session_encryption_key_new val =
     (if length val \<noteq> ECC384_PAIR_SIZE then Err InvalidKeyType
      else copy_into 0 ECC384_PAIR_SIZE val (replicate ECC384_PAIR_SIZE 0))"

definition session_encryption_key_try_from :: "key_store \<Rightarrow> u16 \<Rightarrow> u16 hsm_result" where
  "session_encryption_key_try_from s key_id =
     and_then (vk_kind s key_id) (\<lambda>k. if k \<noteq> EK_SessionEncryption then Err InvalidKeyType else Ok key_id)"

definition establish_cred_key_new :: "bytes \<Rightarrow> bytes hsm_result" where
  "establish_cred_key_new val =
     (if length val \<noteq> ECC384_PAIR_SIZE then Err InvalidKeyType
      else copy_into 0 ECC384_PAIR_SIZE val (replicate ECC384_PAIR_SIZE 0))"

definition establish_cred_key_try_from :: "key_store \<Rightarrow> u16 \<Rightarrow> u16 hsm_result" where
  "establish_cred_key_try_from s key_id =
     and_then (vk_class s key_id) (\<lambda>class. if class \<noteq> EC_Ecc then Err InvalidKeyType else Ok key_id)"

definition session_key_new :: "bytes \<Rightarrow> bytes \<Rightarrow> bytes hsm_result" where
  "session_key_new sk smk =
     (if length sk \<noteq> SESSION_KEY_SIZE \<or> length smk \<noteq> MK_AES_CBC_256_HMAC384_SIZE_BYTES
      then Err InvalidKeyType
      else and_then (copy_into 0 SESSION_KEY_SIZE sk
                       (replicate (SESSION_KEY_SIZE + MK_AES_CBC_256_HMAC384_SIZE_BYTES) 0))
             (copy_into SESSION_KEY_SIZE MK_AES_CBC_256_HMAC384_SIZE_BYTES smk))"

definition session_key_try_from :: "key_store \<Rightarrow> u16 \<Rightarrow> u16 hsm_result" where
  "session_key_try_from s key_id =
     and_then (vk_kind s key_id) (\<lambda>k. if k \<noteq> EK_Session then Err InvalidKeyType else Ok key_id)"

definition session_key_blob :: "key_store \<Rightarrow> u16 \<Rightarrow> bytes hsm_result" where
  "session_key_blob s key_id = and_then (vk_blob s key_id) (slice_get 0 SESSION_KEY_SIZE)"

definition masking_key_blob :: "key_store \<Rightarrow> u16 \<Rightarrow> bytes hsm_result" where
  "masking_key_blob s key_id =
     and_then (vk_blob s key_id) (\<lambda>b.
       if SESSION_KEY_SIZE \<le> length b then Ok (drop SESSION_KEY_SIZE b) else Panic)"

definition masking_key_new :: "bytes \<Rightarrow> bytes hsm_result" where
  "masking_key_new val =
     (if length val \<noteq> MK_AES_CBC_256_HMAC384_SIZE_BYTES then Err InvalidKeyType
      else copy_into 0 MK_AES_CBC_256_HMAC384_SIZE_BYTES val (replicate MK_AES_CBC_256_HMAC384_SIZE_BYTES 0))"

definition masking_key_try_from :: "key_store \<Rightarrow> u16 \<Rightarrow> u16 hsm_result" where
  "masking_key_try_from s key_id =
     and_then (vk_class s key_id) (\<lambda>class. if class \<noteq> EC_MaskingKey then Err InvalidKeyType else Ok key_id)"

end
