(* ===== verification/Key_Vault.thy ===== *)
theory Key_Vault
  imports Vault_Keys Store_Props
begin

text \<open>
  The key vault (\<open>vault/mod.rs\<close>, \<open>KeyVaultImpl\<close>): import, open and delete typed keys on behalf of
  an application and a session. Opening checks, in this order, that the key exists and is enabled,
  that it belongs to the application and, for a session key, to the session, that its class fits
  and that the intended use is permitted. The contract \<open>typed_key\<close> of importing and opening is
  stated once and met by each kind of user key.
\<close>

section \<open>Opening a key\<close>

definition vault_key :: "key_store \<Rightarrow> u8 \<Rightarrow> u16 \<Rightarrow> u16 \<Rightarrow> bool \<Rightarrow> u16 hsm_result" where
  "vault_key s app session key_id allow_disabled =
     and_then (ks_get_entry s key_id allow_disabled) (\<lambda>entry.
       if pe_app_id entry \<noteq> app then Err InvalidPermissions
       else if ef_session (pe_flags entry) \<and> pe_session_id entry \<noteq> Some session then Err InvalidPermissions
       else Ok key_id)"

definition validate_key_params :: "key_availability \<Rightarrow> u16 option \<Rightarrow> unit hsm_result" where
  "validate_key_params availability tag =
     (if availability = Avail_Session \<and> tag \<noteq> None then Err InvalidArgument
      else if tag = Some KEY_TAG_UNASSIGNED then Err InvalidArgument
      else Ok ())"

text \<open>The session of a session key, the tag of an application key or no tag.\<close>

definition sess_id_or_tag :: "key_availability \<Rightarrow> u16 \<Rightarrow> u16 option \<Rightarrow> u16" where
  "sess_id_or_tag availability session key_tag =
     (if availability = Avail_Session then session
      else case key_tag of Some t \<Rightarrow> t | None \<Rightarrow> KEY_TAG_UNASSIGNED)"

definition availability_of :: "entry_attributes \<Rightarrow> key_availability" where
  "availability_of attributes =
     (if flag_get AF_session (attr_flags attributes) then Avail_Session else Avail_App)"

section \<open>User keys\<close>

definition aes_import_key ::
  "u8 \<Rightarrow> u16 \<Rightarrow> u16 option \<Rightarrow> aes_key_imported \<Rightarrow> entry_attributes \<Rightarrow> u16 store_op" where
  "aes_import_key app session key_tag key attributes s =
     (if \<not> (flag_get AF_encrypt (attr_flags attributes) \<and> flag_get AF_decrypt (attr_flags attributes))
      then (Err InvalidArgument, s)
      else
        let availability = availability_of attributes in
        try_in (validate_key_params availability key_tag) s (\<lambda>_.
        try_in (aki_key_blob key) s (\<lambda>blob.
          ks_add_entry attributes (sess_id_or_tag availability session key_tag)
            (entry_of_aes_kind (aki_kind key)) app blob s)))"

definition aes_open_key :: "key_store \<Rightarrow> u8 \<Rightarrow> u16 \<Rightarrow> u16 \<Rightarrow> aes_key_usage \<Rightarrow> u16 hsm_result" where
  "aes_open_key s app session key_id intent =
     and_then (vault_key s app session key_id False) (\<lambda>key.
     and_then (aes_key_try_from s key) (\<lambda>aes_key.
     and_then (aes_usage_allowed s aes_key intent) (\<lambda>_. Ok aes_key)))"

definition ecc_import_key ::
  "u8 \<Rightarrow> u16 \<Rightarrow> u16 option \<Rightarrow> bool \<Rightarrow> ecc_key_imported \<Rightarrow> key_availability \<Rightarrow> u16 store_op" where
  "ecc_import_key app session key_tag generated key availability s =
     try_in (validate_key_params availability key_tag) s (\<lambda>_.
       let attributes = set_flags (ecc_usage_flags (eki_usage key))
             (set_flag_if generated AF_local
               (set_session (availability = Avail_Session) default_attributes))
       in try_in (eki_key_blob key) s (\<lambda>blob.
            ks_add_entry attributes (sess_id_or_tag availability session key_tag)
              (entry_of_ecc_kind (eki_kind key)) app blob s))"

definition ecc_open_key :: "key_store \<Rightarrow> u8 \<Rightarrow> u16 \<Rightarrow> u16 \<Rightarrow> ecc_key_usage option \<Rightarrow> u16 hsm_result" where
  "ecc_open_key s app session key_id intent =
     and_then (vault_key s app session key_id False) (\<lambda>key.
     and_then (ecc_key_try_from s key) (\<lambda>ecc_key.
       case intent of None \<Rightarrow> Ok ecc_key
       | Some usage \<Rightarrow> and_then (ecc_usage_allowed s ecc_key usage) (\<lambda>_. Ok ecc_key)))"

definition ecdh_import_key ::
  "u8 \<Rightarrow> u16 \<Rightarrow> u16 option \<Rightarrow> bool \<Rightarrow> ecdh_key_imported \<Rightarrow> key_availability \<Rightarrow> u16 store_op" where
  "ecdh_import_key app session key_tag generated key availability s =
     try_in (validate_key_params availability key_tag) s (\<lambda>_.
       let attributes = set_flags (ecdh_usage_flags (edi_usage key))
             (set_flag_if generated AF_local
               (set_session (availability = Avail_Session) default_attributes))
       in try_in (edi_key_blob key) s (\<lambda>blob.
            ks_add_entry attributes (sess_id_or_tag availability session key_tag)
              (entry_of_ecdh_kind (edi_kind key)) app blob s))"

definition ecdh_open_key :: "key_store \<Rightarrow> u8 \<Rightarrow> u16 \<Rightarrow> u16 \<Rightarrow> ecdh_key_usage option \<Rightarrow> u16 hsm_result" where
  "ecdh_open_key s app session key_id intent =
     and_then (vault_key s app session key_id False) (\<lambda>key.
     and_then (ecdh_key_try_from s key) (\<lambda>ecdh_key.
       case intent of None \<Rightarrow> Ok ecdh_key
       | Some usage \<Rightarrow> and_then (ecdh_usage_allowed s ecdh_key usage) (\<lambda>_. Ok ecdh_key)))"

definition hmac_import_key ::
  "u8 \<Rightarrow> u16 \<Rightarrow> u16 option \<Rightarrow> bool \<Rightarrow> hmac_key_imported \<Rightarrow> key_availability \<Rightarrow> u16 store_op" where
  "hmac_import_key app session key_tag generated key availability s =
     try_in (validate_key_params availability key_tag) s (\<lambda>_.
       let attributes = set_flags (hmac_usage_flags (hki_usage key))
             (set_flag_if generated AF_local
               (set_session (availability = Avail_Session) default_attributes))
       in try_in (hki_key_blob key) s (\<lambda>blob.
            ks_add_entry attributes (sess_id_or_tag availability session key_tag)
              (entry_of_hmac_kind (hki_kind key)) app blob s))"

definition hmac_open_key :: "key_store \<Rightarrow> u8 \<Rightarrow> u16 \<Rightarrow> u16 \<Rightarrow> hmac_key_usage option \<Rightarrow> u16 hsm_result" where
  "hmac_open_key s app session key_id intent =
     and_then (vault_key s app session key_id False) (\<lambda>key.
     and_then (hmac_key_try_from s key) (\<lambda>hmac_key.
       case intent of None \<Rightarrow> Ok hmac_key
       | Some usage \<Rightarrow> and_then (hmac_usage_allowed s hmac_key usage) (\<lambda>_. Ok hmac_key)))"

definition rsa_import_key ::
  "u8 \<Rightarrow> u16 \<Rightarrow> u16 option \<Rightarrow> bool \<Rightarrow> rsa_key_imported \<Rightarrow> key_availability \<Rightarrow> u16 store_op" where
  "rsa_import_key app session key_tag generated key availability s =
     try_in (validate_key_params availability key_tag) s (\<lambda>_.
       let attributes = set_flags (rsa_usage_flags (rki_usage key))
             (set_flag_if generated AF_local
               (set_session (availability = Avail_Session) default_attributes))
       in try_in (rki_key_blob key) s (\<lambda>blob.
            ks_add_entry attributes (sess_id_or_tag availability session key_tag)
              (entry_of_rsa_kind (rki_kind key)) app blob s))"

definition rsa_open_key :: "key_store \<Rightarrow> u8 \<Rightarrow> u16 \<Rightarrow> u16 \<Rightarrow> rsa_key_usage option \<Rightarrow> u16 hsm_result" where
  "rsa_open_key s app session key_id intent =
     and_then (vault_key s app session key_id False) (\<lambda>key.
     and_then (rsa_key_try_from s key) (\<lambda>rsa_key.
       case intent of None \<Rightarrow> Ok rsa_key
       | Some usage \<Rightarrow> and_then (rsa_usage_allowed s rsa_key usage) (\<lambda>_. Ok rsa_key)))"

definition import_var_hmac_key ::
  "u8 \<Rightarrow> u16 \<Rightarrow> u16 option \<Rightarrow> bool \<Rightarrow> var_hmac_key_imported \<Rightarrow> key_availability \<Rightarrow> u16 store_op" where
  "import_var_hmac_key app session key_tag generated key availability s =
     try_in (validate_key_params availability key_tag) s (\<lambda>_.
       let attributes = set_flags (hmac_usage_flags (vhi_usage key))
             (set_flag_if generated AF_local
               (set_session (availability = Avail_Session) default_attributes));
           attributes = attributes\<lparr>entry_specific := (entry_specific attributes)[KEY_LENGTH_INDEX := vhi_length key]\<rparr>
       in try_in (vhi_key_blob key) s (\<lambda>blob.
            ks_add_entry attributes (sess_id_or_tag availability session key_tag)
              (entry_of_var_hmac_kind (vhi_kind key)) app blob s))"

definition var_hmac_open_key :: "key_store \<Rightarrow> u8 \<Rightarrow> u16 \<Rightarrow> u16 \<Rightarrow> hmac_key_usage option \<Rightarrow> u16 hsm_result" where
  "var_hmac_open_key s app session key_id intent =
     and_then (vault_key s app session key_id False) (\<lambda>key.
     and_then (var_hmac_key_try_from s key) (\<lambda>var_hmac_key.
       case intent of None \<Rightarrow> Ok var_hmac_key
       | Some usage \<Rightarrow> and_then (var_hmac_usage_allowed s var_hmac_key usage) (\<lambda>_. Ok var_hmac_key)))"

definition import_raw_key ::
  "u8 \<Rightarrow> u16 \<Rightarrow> u16 option \<Rightarrow> entry_kind \<Rightarrow> entry_attributes \<Rightarrow> bytes \<Rightarrow> u16 store_op" where
  "import_raw_key app_id session key_tag kind attributes blob s =
     (let availability = availability_of attributes in
      try_in (validate_key_params availability key_tag) s (\<lambda>_.
        ks_add_entry attributes (sess_id_or_tag availability session key_tag) kind app_id blob s))"

section \<open>Internal keys\<close>

definition import_establish_cred_encryption_key :: "u8 \<Rightarrow> bytes \<Rightarrow> u16 store_op" where
  "import_establish_cred_encryption_key app key s =
     ks_add_entry (set_flags [AF_local, AF_derive] (set_session False default_attributes))
       KEY_TAG_UNASSIGNED EK_EstablishCred app key s"

definition open_establish_cred_encryption_key :: "key_store \<Rightarrow> u8 \<Rightarrow> u16 \<Rightarrow> u16 hsm_result" where
  "open_establish_cred_encryption_key s app key_id =
     and_then (vault_key s app KEY_TAG_UNASSIGNED key_id False) (establish_cred_key_try_from s)"

definition import_session_encryption_key :: "u8 \<Rightarrow> bytes \<Rightarrow> u16 store_op" where
  "import_session_encryption_key app key s =
     ks_add_entry (set_flags [AF_local, AF_derive] (set_session False default_attributes))
       KEY_TAG_UNASSIGNED EK_SessionEncryption app key s"

definition open_session_encryption_key :: "key_store \<Rightarrow> u8 \<Rightarrow> u16 \<Rightarrow> u16 hsm_result" where
  "open_session_encryption_key s app key_id =
     and_then (vault_key s app KEY_TAG_UNASSIGNED key_id False) (session_encryption_key_try_from s)"

definition import_session_key :: "u8 \<Rightarrow> bytes \<Rightarrow> u16 store_op" where
  "import_session_key app key s =
     ks_add_entry (set_flags [AF_local] (set_session False default_attributes))
       KEY_TAG_UNASSIGNED EK_Session app key s"

definition open_session_key :: "key_store \<Rightarrow> u8 \<Rightarrow> u16 \<Rightarrow> bool \<Rightarrow> u16 hsm_result" where
  "open_session_key s app key_id allow_disabled =
     and_then (vault_key s app KEY_TAG_UNASSIGNED key_id allow_disabled) (session_key_try_from s)"

definition import_masking_key :: "u8 \<Rightarrow> bytes \<Rightarrow> u16 store_op" where
  "import_masking_key app key s =
     ks_add_entry (set_flags [AF_local, AF_encrypt, AF_decrypt] (set_session False default_attributes))
       KEY_TAG_UNASSIGNED EK_MaskingKey app key s"

definition open_masking_key :: "key_store \<Rightarrow> u8 \<Rightarrow> u16 \<Rightarrow> u16 hsm_result" where
  "open_masking_key s app key_id =
     and_then (vault_key s app KEY_TAG_UNASSIGNED key_id False) (masking_key_try_from s)"

section \<open>Deleting\<close>

definition delete_key :: "u8 \<Rightarrow> u16 \<Rightarrow> u16 \<Rightarrow> (u16 \<Rightarrow> bool) \<Rightarrow> unit store_op" where
  "delete_key app session key_id predicate s =
     try_in (vault_key s app session key_id True) s (\<lambda>_. ks_remove_entry predicate key_id s)"

definition delete_all_session_keys :: "u16 \<Rightarrow> (u16 \<Rightarrow> bool) \<Rightarrow> unit store_op" where
  "delete_all_session_keys session predicate s =
     (case ks_remove_all_session_only_entries predicate session s of (r, s') \<Rightarrow> (map_ok (\<lambda>_. ()) r, s'))"

definition delete_all_app_keys :: "u8 \<Rightarrow> (u16 \<Rightarrow> bool) \<Rightarrow> unit store_op" where
  "delete_all_app_keys app predicate s =
     (case ks_remove_all_entries_for_app predicate app s of (r, s') \<Rightarrow> (map_ok (\<lambda>_. ()) r, s'))"

section \<open>What opening checks\<close>

definition open_spec ::
  "(entry_kind \<Rightarrow> bool) \<Rightarrow> attr_flag list \<Rightarrow> bool \<Rightarrow> u8 \<Rightarrow> u16 \<Rightarrow> u16 \<Rightarrow> u16 kmap \<Rightarrow> u16 hsm_result" where
  "open_spec accepts fs allow_disabled app session n m =
     (case m n of None \<Rightarrow> Err InvalidKeyIndex
      | Some k \<Rightarrow>
          if \<not> allow_disabled \<and> sk_disabled k then Err InvalidKeyIndex
          else if sk_app_id k \<noteq> app then Err InvalidPermissions
          else if sk_session_id k \<noteq> None \<and> sk_session_id k \<noteq> Some session then Err InvalidPermissions
          else if \<not> accepts (sk_kind k) then Err InvalidKeyType
          else if \<not> list_all (\<lambda>f. flag_get f (attr_flags (sk_attributes k))) fs then Err InvalidPermissions
          else Ok n)"

lemma stored_entry:
  assumes "store_view s n = Some k"
  shows "\<exists>e. entry_matches e k \<and>
    ks_get_entry s n allow = (if \<not> allow \<and> sk_disabled k then Err InvalidKeyIndex else Ok e)"
proof -
  let ?t = "ks_tables s ! unat (key_number_table n)"
  let ?e = "entry_list ?t ! unat (key_number_entry n)"
  have "k = stored_of (key_data_memory ?t) ?e"
    using assms by (auto simp: store_view_def table_view_def Let_def split: if_splits)
  then have "entry_matches ?e k" using entry_matches_stored by simp
  moreover have "ks_get_entry s n allow = (if \<not> allow \<and> sk_disabled k then Err InvalidKeyIndex else Ok ?e)"
    using assms by (simp add: ks_get_entry_cases)
  ultimately show ?thesis by blast
qed

lemma vault_key_view:
  "vault_key s app session n allow = open_spec (\<lambda>_. True) [] allow app session n (store_view s)"
proof (cases "store_view s n")
  case None
  then show ?thesis by (simp add: vault_key_def ks_get_entry_cases open_spec_def)
next
  case (Some k)
  obtain e where "entry_matches e k"
    "ks_get_entry s n allow = (if \<not> allow \<and> sk_disabled k then Err InvalidKeyIndex else Ok e)"
    using stored_entry [OF Some] by blast
  then show ?thesis
    using Some entry_matches_derived(1) [of e k]
    by (simp add: vault_key_def open_spec_def)
       (auto simp: entry_matches_def sk_session_id_def split: if_splits)
qed

lemma vk_kind_view:
  "store_view s n = Some k \<Longrightarrow> vk_kind s n = Ok (sk_kind k)"
  using stored_entry [of s n k True] by (auto simp: vk_kind_def entry_matches_def)

lemma vk_class_view:
  "store_view s n = Some k \<Longrightarrow> vk_class s n = Ok (class_of_kind (sk_kind k))"
  by (simp add: vk_class_def vk_kind_view)

lemma vk_attributes_view:
  "store_wf s \<Longrightarrow> store_view s n = Some k \<Longrightarrow> vk_attributes s n = Ok (sk_attributes k)"
  by (simp add: vk_attributes_def ks_get_entry_attributes_view spec_attributes_def)

lemma vk_blob_view:
  "store_wf s \<Longrightarrow> store_view s n = Some k \<Longrightarrow> vk_blob s n = Ok (sk_blob k)"
  by (simp add: vk_blob_def ks_get_entry_blob_view spec_blob_def)

definition intent_flags :: "('u \<Rightarrow> attr_flag list) \<Rightarrow> 'u option \<Rightarrow> attr_flag list" where
  "intent_flags f intent = (case intent of None \<Rightarrow> [] | Some u \<Rightarrow> f u)"

lemmas open_key_defs =
  aes_open_key_def ecc_open_key_def ecdh_open_key_def hmac_open_key_def rsa_open_key_def
  var_hmac_open_key_def

lemmas try_from_defs =
  aes_key_try_from_def ecc_key_try_from_def ecdh_key_try_from_def hmac_key_try_from_def
  rsa_key_try_from_def var_hmac_key_try_from_def

lemmas usage_allowed_defs =
  aes_usage_allowed_def ecc_usage_allowed_def ecdh_usage_allowed_def hmac_usage_allowed_def
  rsa_usage_allowed_def var_hmac_usage_allowed_def

lemma open_key_spec:
  assumes wf: "store_wf s"
  shows "aes_open_key s app session n u =
      open_spec (\<lambda>k. class_of_kind k = EC_Aes) (aes_usage_flags u) False app session n (store_view s)"
    and "ecc_open_key s app session n ei =
      open_spec (\<lambda>k. class_of_kind k = EC_Ecc) (intent_flags ecc_usage_flags ei) False app session n (store_view s)"
    and "ecdh_open_key s app session n di =
      open_spec (\<lambda>k. class_of_kind k = EC_Secret) (intent_flags ecdh_usage_flags di) False app session n (store_view s)"
    and "hmac_open_key s app session n hi =
      open_spec (\<lambda>k. class_of_kind k = EC_Hmac) (intent_flags hmac_usage_flags hi) False app session n (store_view s)"
    and "rsa_open_key s app session n ri =
      open_spec (\<lambda>k. class_of_kind k \<in> {EC_Rsa, EC_RsaCrt}) (intent_flags rsa_usage_flags ri) False app session n (store_view s)"
    and "var_hmac_open_key s app session n hi =
      open_spec (\<lambda>k. class_of_kind k = EC_VarLenHmacSha) (intent_flags hmac_usage_flags hi) False app session n (store_view s)"
  by (cases "store_view s n";
      auto simp: open_key_defs try_from_defs usage_allowed_defs vault_key_view open_spec_def
        vk_class_view vk_attributes_view [OF wf] flags_allow_def intent_flags_def split: option.splits)+

lemma open_internal_spec:
  "open_establish_cred_encryption_key s app n =
     open_spec (\<lambda>k. class_of_kind k = EC_Ecc) [] False app KEY_TAG_UNASSIGNED n (store_view s)"
  "open_session_encryption_key s app n =
     open_spec (\<lambda>k. k = EK_SessionEncryption) [] False app KEY_TAG_UNASSIGNED n (store_view s)"
  "open_session_key s app n allow =
     open_spec (\<lambda>k. k = EK_Session) [] allow app KEY_TAG_UNASSIGNED n (store_view s)"
  "open_masking_key s app n =
     open_spec (\<lambda>k. class_of_kind k = EC_MaskingKey) [] False app KEY_TAG_UNASSIGNED n (store_view s)"
  by (cases "store_view s n";
      auto simp: open_establish_cred_encryption_key_def open_session_encryption_key_def
        open_session_key_def open_masking_key_def establish_cred_key_try_from_def
        session_encryption_key_try_from_def session_key_try_from_def masking_key_try_from_def
        vault_key_view open_spec_def vk_class_view vk_kind_view)+

section \<open>The contract of a typed key\<close>

text \<open>
  What importing with the attributes and tag of an import does to the store: the arguments are
  checked, then exactly one entry is added.
\<close>

definition imports_as ::
  "u16 hsm_result \<times> key_store \<Rightarrow> u8 \<Rightarrow> u16 \<Rightarrow> u16 option \<Rightarrow> bool \<Rightarrow> (entry_kind \<Rightarrow> bool) \<Rightarrow> attr_flag list \<Rightarrow>
   bytes \<Rightarrow> key_store \<Rightarrow> bool" where
  "imports_as res app session tag is_session accepts fs b s \<longleftrightarrow>
     (\<exists>a kind. attributes_wf a \<and> flag_get AF_session (attr_flags a) = is_session \<and> accepts kind \<and>
        list_all (\<lambda>f. flag_get f (attr_flags a)) fs \<and> (is_session \<longrightarrow> tag = None) \<and>
        res = ks_add_entry a
          (if is_session then session else case tag of Some t \<Rightarrow> t | None \<Rightarrow> KEY_TAG_UNASSIGNED) kind app b s)"

locale typed_key =
  fixes import_key :: "u8 \<Rightarrow> u16 \<Rightarrow> u16 option \<Rightarrow> 'g \<Rightarrow> 'k \<Rightarrow> key_store \<Rightarrow> u16 hsm_result \<times> key_store"
    and open_key :: "key_store \<Rightarrow> u8 \<Rightarrow> u16 \<Rightarrow> u16 \<Rightarrow> 'i \<Rightarrow> u16 hsm_result"
    and key_ok :: "'g \<Rightarrow> 'k \<Rightarrow> bool"
    and session_only :: "'g \<Rightarrow> bool"
    and flags_of :: "'k \<Rightarrow> attr_flag list"
    and key_blob :: "'k \<Rightarrow> bytes"
    and accepts :: "entry_kind \<Rightarrow> bool"
    and intents :: "'i \<Rightarrow> attr_flag list"
  assumes import_law: "store_wf s \<Longrightarrow> key_ok g k \<Longrightarrow> import_key app session tag g k s = (Ok n, s') \<Longrightarrow>
            imports_as (Ok n, s') app session tag (session_only g) accepts
              (flags_of k) (key_blob k) s"
    and import_fail: "store_wf s \<Longrightarrow> key_ok g k \<Longrightarrow> import_key app session tag g k s = (r, s') \<Longrightarrow> \<not> is_ok r \<Longrightarrow>
            s' = s \<and> r \<noteq> Panic"
    and open_law: "store_wf s \<Longrightarrow> open_key s app session n i =
            open_spec accepts (intents i) False app session n (store_view s)"
begin

lemma import_Ok:
  assumes wf: "store_wf s" and ok: "key_ok g k" and imp: "import_key app session tag g k s = (Ok n, s')"
  obtains a kind where "attributes_wf a" "accepts kind"
    "flag_get AF_session (attr_flags a) = session_only g"
    "list_all (\<lambda>f. flag_get f (attr_flags a)) (flags_of k)"
    "store_wf s'" "store_view s n = None"
    "store_view s' = (store_view s)(n \<mapsto> new_key a
       (if session_only g then session else case tag of Some t \<Rightarrow> t | None \<Rightarrow> KEY_TAG_UNASSIGNED) kind app (key_blob k))"
proof -
  obtain a kind where a: "attributes_wf a" "flag_get AF_session (attr_flags a) = session_only g" "accepts kind"
      "list_all (\<lambda>f. flag_get f (attr_flags a)) (flags_of k)"
    and add: "ks_add_entry a (if session_only g then session
        else case tag of Some t \<Rightarrow> t | None \<Rightarrow> KEY_TAG_UNASSIGNED) kind app (key_blob k) s = (Ok n, s')"
    using import_law [OF wf ok imp] imp unfolding imports_as_def by auto
  note res = ks_add_entry_Ok [OF wf a(1) add]
  show ?thesis by (rule that [OF a(1,3,2,4) res(1,3,5)])
qed

text \<open>
  A key that was imported opens again for its application (and for its session when it is bound to
  one) for every use its usage flags cover, and reads back.
\<close>

lemma import_then_open:
  assumes wf: "store_wf s" and ok: "key_ok g k" and imp: "import_key app session tag g k s = (Ok n, s')"
    and i: "set (intents i) \<subseteq> set (flags_of k)" and sess: "session_only g \<longrightarrow> session' = session"
  shows "open_key s' app session' n i = Ok n" and "vk_blob s' n = Ok (key_blob k)"
proof -
  obtain a kind where a: "attributes_wf a" "accepts kind" "flag_get AF_session (attr_flags a) = session_only g"
      "list_all (\<lambda>f. flag_get f (attr_flags a)) (flags_of k)" "store_wf s'" "store_view s n = None"
      "store_view s' = (store_view s)(n \<mapsto> new_key a
       (if session_only g then session else case tag of Some t \<Rightarrow> t | None \<Rightarrow> KEY_TAG_UNASSIGNED) kind app (key_blob k))"
    by (rule import_Ok [OF wf ok imp])
  have "list_all (\<lambda>f. flag_get f (attr_flags a)) (intents i)" using a(4) i by (auto simp: list_all_iff)
  then show "open_key s' app session' n i = Ok n"
    using a sess by (simp add: open_law open_spec_def)
      (auto simp: new_key_def sk_disabled_def sk_session_id_def entry_flags_of_def default_entry_flags_def)
  show "vk_blob s' n = Ok (key_blob k)"
    using a(5,7) by (simp add: vk_blob_view [of s' n]) (simp add: new_key_def)
qed

text \<open>Nobody else opens it.\<close>

lemma import_isolated:
  assumes wf: "store_wf s" and ok: "key_ok g k" and imp: "import_key app session tag g k s = (Ok n, s')"
    and other: "app' \<noteq> app \<or> session_only g \<and> session' \<noteq> session"
  shows "open_key s' app' session' n i = Err InvalidPermissions"
proof -
  obtain a kind where a: "attributes_wf a" "accepts kind" "flag_get AF_session (attr_flags a) = session_only g"
      "list_all (\<lambda>f. flag_get f (attr_flags a)) (flags_of k)" "store_wf s'" "store_view s n = None"
      "store_view s' = (store_view s)(n \<mapsto> new_key a
       (if session_only g then session else case tag of Some t \<Rightarrow> t | None \<Rightarrow> KEY_TAG_UNASSIGNED) kind app (key_blob k))"
    by (rule import_Ok [OF wf ok imp])
  then show ?thesis
    using other by (simp add: open_law open_spec_def)
      (auto simp: new_key_def sk_disabled_def sk_session_id_def entry_flags_of_def default_entry_flags_def)
qed

end

section \<open>Every user key meets the contract\<close>

lemma flag_get_set_flags [simp]:
  "flag_get f (attr_flags (set_flags fs a)) \<longleftrightarrow> f \<in> set fs \<or> flag_get f (attr_flags a)"
proof -
  have "flag_get f (fold (\<lambda>f w. flag_set f True w) fs w) \<longleftrightarrow> f \<in> set fs \<or> flag_get f w" for w
    by (induction fs arbitrary: w) auto
  then show ?thesis by (simp add: set_flags_def)
qed

lemma attr_flags_wf [simp]: "attributes_wf (set_flags fs a) = attributes_wf a"
  by (simp add: set_flags_def attributes_wf_def)

definition import_attributes :: "attr_flag list \<Rightarrow> bool \<Rightarrow> key_availability \<Rightarrow> entry_attributes" where
  "import_attributes fs generated availability =
     set_flags fs (set_flag_if generated AF_local (set_session (availability = Avail_Session) default_attributes))"

lemma import_attributes_wf [simp]: "attributes_wf (import_attributes fs generated availability)"
  using attributes_wf_default
  by (simp add: import_attributes_def set_flags_def set_flag_if_def set_session_def attributes_wf_def)

lemma import_attributes_session:
  "AF_session \<notin> set fs \<Longrightarrow>
    flag_get AF_session (attr_flags (import_attributes fs generated availability)) = (availability = Avail_Session)"
  by (simp add: import_attributes_def set_flag_if_def set_session_def)

lemma validate_Ok:
  "validate_key_params availability tag = Ok u \<Longrightarrow> availability = Avail_Session \<Longrightarrow> tag = None"
  by (auto simp: validate_key_params_def split: if_splits)

lemma sess_id_or_tag_eq:
  "sess_id_or_tag availability session tag = (if availability = Avail_Session then session
     else case tag of Some t \<Rightarrow> t | None \<Rightarrow> KEY_TAG_UNASSIGNED)"
  by (simp add: sess_id_or_tag_def)

text \<open>The common shape of the imports, for attributes that extend \<open>import_attributes\<close>.\<close>

lemma import_shape:
  assumes "AF_session \<notin> set fs" and "accepts kind" and "attributes_wf a"
    and "attr_flags a = attr_flags (import_attributes fs generated availability)"
    and "try_in (validate_key_params availability tag) s (\<lambda>_.
      ks_add_entry a (sess_id_or_tag availability session tag) kind app b s) = (Ok n, s')"
  shows "imports_as (Ok n, s') app session tag (availability = Avail_Session) accepts fs b s"
proof -
  obtain u where v: "validate_key_params availability tag = Ok u" using assms(5) by (auto simp: res_simps)
  have "list_all (\<lambda>f. flag_get f (attr_flags a)) fs"
    using assms(4) by (simp add: list_all_iff import_attributes_def)
  moreover have "flag_get AF_session (attr_flags a) = (availability = Avail_Session)"
    using assms(1,4) import_attributes_session by simp
  ultimately show ?thesis
    unfolding imports_as_def using assms(2,3,5) v validate_Ok [OF v]
    by (intro exI [of _ a] exI [of _ kind]) (simp add: sess_id_or_tag_eq)
qed

lemma import_shape_fail:
  assumes wf: "store_wf s" and a: "attributes_wf a"
    and r: "try_in (validate_key_params availability tag) s (\<lambda>_. ks_add_entry a t kind app b s) = (r, s')" "\<not> is_ok r"
  shows "s' = s \<and> r \<noteq> Panic"
proof (cases "validate_key_params availability tag")
  case (Ok u)
  then show ?thesis using r ks_add_entry_not_Ok [OF wf a, of t kind app b r s'] by auto
next
  case (Err e)
  then show ?thesis using r by auto
qed (use r in \<open>auto simp: validate_key_params_def split: if_splits\<close>)

lemma blob_of_new: "length b = n \<Longrightarrow> slice_get 0 n b = Ok b"
  by (simp add: slice_get_def slice_all)

text \<open>An import record made by its constructor holds exactly the bytes of its kind.\<close>

lemma import_shapes:
  "length (eki_blob ek) = ecc_kind_len (eki_kind ek) \<Longrightarrow>
    ecc_import_key app session tag generated ek availability s =
      try_in (validate_key_params availability tag) s (\<lambda>_.
        ks_add_entry (import_attributes (ecc_usage_flags (eki_usage ek)) generated availability)
          (sess_id_or_tag availability session tag) (entry_of_ecc_kind (eki_kind ek)) app (eki_blob ek) s)"
  "length (edi_blob dk) = ecdh_kind_len (edi_kind dk) \<Longrightarrow>
    ecdh_import_key app session tag generated dk availability s =
      try_in (validate_key_params availability tag) s (\<lambda>_.
        ks_add_entry (import_attributes (ecdh_usage_flags (edi_usage dk)) generated availability)
          (sess_id_or_tag availability session tag) (entry_of_ecdh_kind (edi_kind dk)) app (edi_blob dk) s)"
  "length (hki_blob hk) = hmac_kind_len (hki_kind hk) \<Longrightarrow>
    hmac_import_key app session tag generated hk availability s =
      try_in (validate_key_params availability tag) s (\<lambda>_.
        ks_add_entry (import_attributes (hmac_usage_flags (hki_usage hk)) generated availability)
          (sess_id_or_tag availability session tag) (entry_of_hmac_kind (hki_kind hk)) app (hki_blob hk) s)"
  "length (rki_blob rk) = rsa_kind_len (rki_kind rk) \<Longrightarrow>
    rsa_import_key app session tag generated rk availability s =
      try_in (validate_key_params availability tag) s (\<lambda>_.
        ks_add_entry (import_attributes (rsa_usage_flags (rki_usage rk)) generated availability)
          (sess_id_or_tag availability session tag) (entry_of_rsa_kind (rki_kind rk)) app (rki_blob rk) s)"
  "length (vhi_blob vk) = unat (vhi_length vk) \<Longrightarrow>
    import_var_hmac_key app session tag generated vk availability s =
      try_in (validate_key_params availability tag) s (\<lambda>_.
        ks_add_entry ((import_attributes (hmac_usage_flags (vhi_usage vk)) generated availability)
            \<lparr>entry_specific := (entry_specific (import_attributes (hmac_usage_flags (vhi_usage vk)) generated availability))
               [KEY_LENGTH_INDEX := vhi_length vk]\<rparr>)
          (sess_id_or_tag availability session tag) (entry_of_var_hmac_kind (vhi_kind vk)) app (vhi_blob vk) s)"
  by (simp_all add: ecc_import_key_def eki_key_blob_def ecdh_import_key_def edi_key_blob_def
      hmac_import_key_def hki_key_blob_def rsa_import_key_def rki_key_blob_def import_var_hmac_key_def
      vhi_key_blob_def Let_def import_attributes_def slice_get_def slice_all)

lemma usage_flags_no_session [simp]:
  "AF_session \<notin> set (ecc_usage_flags eu)" "AF_session \<notin> set (ecdh_usage_flags du)"
  "AF_session \<notin> set (hmac_usage_flags hu)" "AF_session \<notin> set (rsa_usage_flags ru)"
  by (cases eu; cases du; cases hu; cases ru; simp)+

lemma entry_kind_classes [simp]:
  "class_of_kind (entry_of_ecc_kind ek) = EC_Ecc" "class_of_kind (entry_of_ecdh_kind dk) = EC_Secret"
  "class_of_kind (entry_of_hmac_kind hk) = EC_Hmac" "class_of_kind (entry_of_var_hmac_kind vk) = EC_VarLenHmacSha"
  "class_of_kind (entry_of_rsa_kind rk) = EC_Rsa \<longleftrightarrow> class_of_kind (entry_of_rsa_kind rk) \<noteq> EC_RsaCrt"
  by (cases ek; cases dk; cases hk; cases vk; cases rk; simp)+

interpretation ecc: typed_key "\<lambda>app session tag g k. ecc_import_key app session tag (fst g) k (snd g)" ecc_open_key
  "\<lambda>g k. length (eki_blob k) = ecc_kind_len (eki_kind k)" "\<lambda>g. snd g = Avail_Session"
  "\<lambda>k. ecc_usage_flags (eki_usage k)" eki_blob "\<lambda>k. class_of_kind k = EC_Ecc" "intent_flags ecc_usage_flags"
  by unfold_locales
     (auto simp: import_shapes open_key_spec intro!: import_shape [OF _ _ import_attributes_wf refl] dest: import_shape_fail [OF _ import_attributes_wf])

interpretation ecdh: typed_key "\<lambda>app session tag g k. ecdh_import_key app session tag (fst g) k (snd g)" ecdh_open_key
  "\<lambda>g k. length (edi_blob k) = ecdh_kind_len (edi_kind k)" "\<lambda>g. snd g = Avail_Session"
  "\<lambda>k. ecdh_usage_flags (edi_usage k)" edi_blob "\<lambda>k. class_of_kind k = EC_Secret" "intent_flags ecdh_usage_flags"
  by unfold_locales
     (auto simp: import_shapes open_key_spec intro!: import_shape [OF _ _ import_attributes_wf refl] dest: import_shape_fail [OF _ import_attributes_wf])

interpretation hmac: typed_key "\<lambda>app session tag g k. hmac_import_key app session tag (fst g) k (snd g)" hmac_open_key
  "\<lambda>g k. length (hki_blob k) = hmac_kind_len (hki_kind k)" "\<lambda>g. snd g = Avail_Session"
  "\<lambda>k. hmac_usage_flags (hki_usage k)" hki_blob "\<lambda>k. class_of_kind k = EC_Hmac" "intent_flags hmac_usage_flags"
  by unfold_locales
     (auto simp: import_shapes open_key_spec intro!: import_shape [OF _ _ import_attributes_wf refl] dest: import_shape_fail [OF _ import_attributes_wf])

interpretation rsa: typed_key "\<lambda>app session tag g k. rsa_import_key app session tag (fst g) k (snd g)" rsa_open_key
  "\<lambda>g k. length (rki_blob k) = rsa_kind_len (rki_kind k)" "\<lambda>g. snd g = Avail_Session"
  "\<lambda>k. rsa_usage_flags (rki_usage k)" rki_blob "\<lambda>k. class_of_kind k \<in> {EC_Rsa, EC_RsaCrt}" "intent_flags rsa_usage_flags"
  by unfold_locales
     (auto simp: import_shapes open_key_spec intro!: import_shape [OF _ _ import_attributes_wf refl] dest: import_shape_fail [OF _ import_attributes_wf])

lemma set_key_length_wf:
  "attributes_wf (a\<lparr>entry_specific := (entry_specific a)[KEY_LENGTH_INDEX := x]\<rparr>) = attributes_wf a"
  by (simp add: attributes_wf_def)

interpretation var_hmac: typed_key "\<lambda>app session tag g k. import_var_hmac_key app session tag (fst g) k (snd g)"
  var_hmac_open_key "\<lambda>g k. length (vhi_blob k) = unat (vhi_length k)" "\<lambda>g. snd g = Avail_Session"
  "\<lambda>k. hmac_usage_flags (vhi_usage k)" vhi_blob "\<lambda>k. class_of_kind k = EC_VarLenHmacSha" "intent_flags hmac_usage_flags"
proof (unfold_locales, goal_cases)
  case (1 s g k app session tag n s')
  then show ?case
    by (intro import_shape [where generated = "fst g" and kind = "entry_of_var_hmac_kind (vhi_kind k)" and
          a = "(import_attributes (hmac_usage_flags (vhi_usage k)) (fst g) (snd g))
            \<lparr>entry_specific := (entry_specific (import_attributes (hmac_usage_flags (vhi_usage k)) (fst g) (snd g)))
               [KEY_LENGTH_INDEX := vhi_length k]\<rparr>"])
       (simp_all add: import_shapes set_key_length_wf)
next
  case (2 s g k app session tag r s')
  then show ?case
    using import_shape_fail [OF 2(1), where a = "(import_attributes (hmac_usage_flags (vhi_usage k)) (fst g) (snd g))
            \<lparr>entry_specific := (entry_specific (import_attributes (hmac_usage_flags (vhi_usage k)) (fst g) (snd g)))
               [KEY_LENGTH_INDEX := vhi_length k]\<rparr>"]
    by (simp add: import_shapes set_key_length_wf)
next
  case (3 s app session n i)
  then show ?case by (rule open_key_spec)
qed

text \<open>
  AES keys come with their attributes. The bulk kinds are imported the same way but have classes
  of their own, which \<open>AesKey\<close> does not accept.
\<close>

interpretation aes: typed_key "\<lambda>app session tag g k. aes_import_key app session tag k g" aes_open_key
  "\<lambda>g k. attributes_wf g \<and> length (aki_blob k) = aes_kind_len (aki_kind k) \<and>
      aki_kind k \<in> {Ak_Aes128, Ak_Aes192, Ak_Aes256}"
  "\<lambda>g. flag_get AF_session (attr_flags g)"
  "\<lambda>k. aes_usage_flags (aki_usage k)" aki_blob "\<lambda>k. class_of_kind k = EC_Aes" aes_usage_flags
proof (unfold_locales, goal_cases)
  case (1 s g k app session tag n s')
  let ?av = "availability_of g"
  have blob: "aki_key_blob k = Ok (aki_blob k)"
    using 1(2) by (simp add: aki_key_blob_def slice_get_def slice_all)
  have flags: "flag_get AF_encrypt (attr_flags g)" "flag_get AF_decrypt (attr_flags g)"
    and val: "\<exists>u. validate_key_params ?av tag = Ok u"
    and add: "ks_add_entry g (sess_id_or_tag ?av session tag) (entry_of_aes_kind (aki_kind k)) app (aki_blob k) s = (Ok n, s')"
    using 1(3) blob by (auto simp: aes_import_key_def Let_def res_simps split: if_splits)
  have av: "?av = Avail_Session \<longleftrightarrow> flag_get AF_session (attr_flags g)" by (simp add: availability_of_def)
  show ?case
    unfolding imports_as_def
    using 1(2) flags val add validate_Ok [of ?av tag] av
    by (intro exI [of _ g] exI [of _ "entry_of_aes_kind (aki_kind k)"])
       (cases "aki_usage k"; auto simp: sess_id_or_tag_eq)
next
  case (2 s g k app session tag r s')
  have blob: "aki_key_blob k = Ok (aki_blob k)"
    using 2(2) by (simp add: aki_key_blob_def slice_get_def slice_all)
  show ?case
  proof (cases "flag_get AF_encrypt (attr_flags g) \<and> flag_get AF_decrypt (attr_flags g)")
    case True
    then show ?thesis
      using 2 blob import_shape_fail [OF 2(1), where a = g and r = r and s' = s']
      by (auto simp: aes_import_key_def Let_def)
  next
    case False
    then show ?thesis using 2(3) by (auto simp: aes_import_key_def)
  qed
next
  case (3 s app session n i)
  then show ?case by (rule open_key_spec)
qed

end
