(* ===== verification/Vault_Props.thy ===== *)
theory Vault_Props
  imports Key_Vault
begin

text \<open>
  The properties of the key vault: who may open a key, that imported keys open and read back, what
  deleting does, and the layout of the session and RSA keys.
\<close>

section \<open>Lemmas\<close>

text \<open>A stored key has the length of its kind.\<close>

lemma table_view_length:
  assumes wf: "table_wf t" and k: "table_view t i = Some k" and nv: "\<not> is_var_hmac_key (sk_kind k)"
  shows "raw_key_blob_size (sk_kind k) = Ok (length (sk_blob k))"
proof -
  let ?e = "entry_list t ! unat i" and ?m = "key_data_memory t"
  have ne: "\<not> pe_is_empty ?e" and keq: "k = stored_of ?m ?e"
    using k by (auto simp: table_view_def Let_def split: if_splits)
  have "8 * entry_first ?e + 32 + entry_key_len ?m ?e \<le> length ?m"
    using entry_fits [OF wf u8_index ne] entry_span_bounds(2) [of ?m ?e] table_wf_lengths [OF wf] by simp
  then have "length (sk_blob k) = entry_key_len ?m ?e"
    by (simp add: keq stored_of_def entry_offsets)
  moreover have "sk_kind k = pe_kind ?e" by (simp add: keq stored_of_def)
  ultimately show ?thesis
    using nv by (cases "pe_kind ?e" rule: raw_size_cases) (simp_all add: entry_key_len_def)
qed

lemma store_view_length:
  assumes wf: "store_wf s" and k: "store_view s n = Some k" and nv: "\<not> is_var_hmac_key (sk_kind k)"
  shows "raw_key_blob_size (sk_kind k) = Ok (length (sk_blob k))"
proof -
  have v: "is_valid_table s (key_number_table n)" using k by (auto simp: store_view_def split: if_splits)
  show ?thesis
    using table_view_length [OF store_wf_table [OF wf v] _ nv] k v by (simp add: store_view_def)
qed

lemma delete_key_cases:
  assumes wf: "store_wf s"
  shows "delete_key app session n predicate s =
    (case open_spec (\<lambda>_. True) [] True app session n (store_view s) of
       Ok _ \<Rightarrow> ks_remove_entry predicate n s | Err e \<Rightarrow> (Err e, s) | Panic \<Rightarrow> (Panic, s))"
  by (simp add: delete_key_def vault_key_view split: outcome.splits)

lemma open_spec_not_Panic: "open_spec accepts fs allow app session n m \<noteq> Panic"
  by (auto simp: open_spec_def split: option.splits)

lemma open_spec_Ok:
  "open_spec accepts fs allow app session n m = Ok x \<longleftrightarrow> x = n \<and>
     (\<exists>k. m n = Some k \<and> (allow \<or> \<not> sk_disabled k) \<and> sk_app_id k = app \<and>
        (sk_session_id k = None \<or> sk_session_id k = Some session) \<and> accepts (sk_kind k) \<and>
        list_all (\<lambda>f. flag_get f (attr_flags (sk_attributes k))) fs)"
  by (auto simp: open_spec_def split: option.splits)

context typed_key
begin

text \<open>Calls that spare a key change neither who can open it nor what it holds.\<close>

lemma run_spares_import:
  assumes wf: "store_wf s" and ok: "key_ok g k" and imp: "import_key app session tag g k s = (Ok n, s')"
    and cs: "list_all call_wf cs" "list_all (call_spares n (the (store_view s' n))) cs"
  shows "open_key (store_run cs s') app' session' n i = open_key s' app' session' n i"
    and "vk_blob (store_run cs s') n = vk_blob s' n"
proof -
  obtain k' where s': "store_wf s'" "store_view s' n = Some k'"
    by (rule import_Ok [OF wf ok imp]) auto
  have wf': "store_wf (store_run cs s')" using store_run_wf [OF s'(1) cs(1)] by simp
  have view: "store_view (store_run cs s') n = Some k'"
    by (rule store_run_spares [OF s'(1) cs(1) _ s'(2)]) (use cs(2) s'(2) in simp)
  show "open_key (store_run cs s') app' session' n i = open_key s' app' session' n i"
    using s' view by (simp add: open_law wf' open_spec_def)
  show "vk_blob (store_run cs s') n = vk_blob s' n"
    using s' view by (simp add: vk_blob_view wf')
qed

lemma import_works:
  assumes wf: "store_wf s" and ok: "key_ok g k" and imp: "import_key app session tag g k s = (Ok n, s')"
    and cs: "list_all call_wf cs" "list_all (call_spares n (the (store_view s' n))) cs"
    and i: "set (intents i) \<subseteq> set (flags_of k)"
  shows "vk_blob (store_run cs s') n = Ok (key_blob k) \<and>
    (if app' = app \<and> (session_only g \<longrightarrow> session' = session)
     then open_key (store_run cs s') app' session' n i = Ok n
     else open_key (store_run cs s') app' session' n i = Err InvalidPermissions)"
proof -
  note same = run_spares_import [OF wf ok imp cs]
  show ?thesis
    using import_then_open [OF wf ok imp i, of session'] import_isolated [OF wf ok imp, of app' session']
      import_then_open(2) [OF wf ok imp i, of session]
    by (auto simp: same)
qed

end

lemma new_key_valid:
  "ecc_key_imported_new kind eu val = Ok ek \<Longrightarrow>
    length (eki_blob ek) = ecc_kind_len (eki_kind ek) \<and> eki_blob ek = val \<and> eki_usage ek = eu"
  "rsa_key_imported_new rkind ru val = Ok rk \<Longrightarrow>
    length (rki_blob rk) = rsa_kind_len (rki_kind rk) \<and> rki_blob rk = val \<and> rki_usage rk = ru"
  "var_hmac_key_imported_new vkind hu val = Ok vk \<Longrightarrow>
    length (vhi_blob vk) = unat (vhi_length vk) \<and> vhi_blob vk = val \<and> vhi_usage vk = hu"
proof -
  have "length val < 256" if "length val \<le> max_length vkind"
    using that var_hmac_bounds(2) [of vkind] by simp
  then show "var_hmac_key_imported_new vkind hu val = Ok vk \<Longrightarrow>
    length (vhi_blob vk) = unat (vhi_length vk) \<and> vhi_blob vk = val \<and> vhi_usage vk = hu"
    by (auto simp: var_hmac_key_imported_new_def split: if_splits)
qed (auto simp: ecc_key_imported_new_def rsa_key_imported_new_def split: if_splits)

section \<open>Properties\<close>





text \<open>
  Deleting a key. Only the owner gets past the check: for another application, or another session of
  a session key, nothing changes. For the owner, a key that is not in use is gone, and a key in
  use is kept but disabled, so that it cannot be opened any more, and the caller is told.
\<close>

theorem delete_key_checked:
  assumes wf: "store_wf s"
  shows "case delete_key app session n in_use s of (r, s') \<Rightarrow>
    store_wf s' \<and>
    (case open_spec (\<lambda>_. True) [] True app session n (store_view s) of
       Ok _ \<Rightarrow> (if in_use n
               then r = Err CannotDeleteKeyInUse \<and> vault_key s' app session n False = Err InvalidKeyIndex \<and>
                    ks_get_entry_blob s' n = ks_get_entry_blob s n
               else r = Ok () \<and> store_view s' n = None) \<and>
              (\<forall>m. m \<noteq> n \<longrightarrow> store_view s' m = store_view s m)
     | Err e \<Rightarrow> r = Err e \<and> s' = s
     | Panic \<Rightarrow> False)"
proof (cases "open_spec (\<lambda>_. True) [] True app session n (store_view s)")
  case (Ok x)
  then obtain k where k: "store_view s n = Some k" by (auto simp: open_spec_Ok)
  obtain r s' where rem: "ks_remove_entry in_use n s = (r, s')" by fastforce
  note f = followsD [OF ks_remove_entry_follows wf rem]
  have del: "delete_key app session n in_use s = (r, s')"
    using Ok rem by (simp add: delete_key_cases [OF wf])
  have "vault_key s' app session n False = Err InvalidKeyIndex" if "in_use n"
    using f(3) k that by (simp add: vault_key_view open_spec_def spec_remove_def)
  then show ?thesis
    using f k by (cases "in_use n") (simp_all add: del Ok spec_remove_def ks_get_entry_blob_view wf spec_blob_def)
next
  case (Err e)
  then show ?thesis by (simp add: delete_key_cases [OF wf] wf)
qed (simp add: open_spec_not_Panic)

theorem delete_key_checked_witness:
  "\<exists>n. fst (delete_key 3 0 n (\<lambda>_. False) one_key_store) = Ok () \<and>
     delete_key 4 0 n (\<lambda>_. False) one_key_store = (Err InvalidPermissions, one_key_store)"
proof -
  obtain n where wf: "store_wf one_key_store"
    and view: "store_view one_key_store = [n \<mapsto> new_key default_attributes 7 EK_Aes128 3 (replicate 16 9)]"
    by (rule one_key_store_facts)
  have "open_spec (\<lambda>_. True) [] True 3 0 n (store_view one_key_store) = Ok n"
    "open_spec (\<lambda>_. True) [] True 4 0 n (store_view one_key_store) = Err InvalidPermissions"
    by (simp_all add: view open_spec_def new_key_def sk_session_id_def entry_flags_of_def
        default_entry_flags_def default_attributes_def)
  then show ?thesis
    using delete_key_checked [OF wf, where app = 3 and session = 0 and n = n and in_use = "\<lambda>_. False"]
      delete_key_checked [OF wf, where app = 4 and session = 0 and n = n and in_use = "\<lambda>_. False"]
    by (intro exI [of _ n]) (auto split: prod.splits)
qed

definition session_key_attributes :: entry_attributes where
  "session_key_attributes = set_flags [AF_local] (set_session False default_attributes)"

lemma session_key_attributes_wf: "attributes_wf session_key_attributes"
  using attributes_wf_default by (simp add: session_key_attributes_def set_session_def set_flags_def attributes_wf_def)

lemma session_key_new_Ok:
  "session_key_new sk smk = Ok key \<longleftrightarrow> length sk = 8 \<and> length smk = 80 \<and> key = sk @ smk"
  by (auto simp: session_key_new_def SESSION_KEY_SIZE_def MK_AES_CBC_256_HMAC384_SIZE_BYTES_def
      copy_into_def mem_write_def)

lemma import_session_key_eq:
  "import_session_key app key s = ks_add_entry session_key_attributes KEY_TAG_UNASSIGNED EK_Session app key s"
  by (simp add: import_session_key_def session_key_attributes_def)

text \<open>What the stored session record looks like, and how it is read.\<close>

lemma session_record:
  assumes wf: "store_wf s" and view: "store_view s n = Some (new_key session_key_attributes KEY_TAG_UNASSIGNED EK_Session app (sk @ smk))"
    and len: "length sk = 8"
  shows "open_session_key s app n allow = Ok n" "session_key_blob s n = Ok sk" "masking_key_blob s n = Ok smk"
proof -
  have sess: "\<not> flag_get AF_session (attr_flags session_key_attributes)"
    by (simp add: session_key_attributes_def set_session_def)
  show "open_session_key s app n allow = Ok n"
    using view sess by (simp add: open_internal_spec open_spec_Ok)
      (simp add: new_key_def sk_disabled_def sk_session_id_def entry_flags_of_def default_entry_flags_def)
  have "vk_blob s n = Ok (sk @ smk)"
    using vk_blob_view [OF wf view] by (simp add: new_key_def)
  then show "session_key_blob s n = Ok sk" "masking_key_blob s n = Ok smk"
    using len
    by (simp_all add: session_key_blob_def masking_key_blob_def slice_get_def slice_def SESSION_KEY_SIZE_def)
qed

lemmas import_session_key_Ok = ks_add_entry_Ok [OF _ session_key_attributes_wf, where tag = KEY_TAG_UNASSIGNED and kind = EK_Session,
    folded import_session_key_eq]
lemmas import_session_key_not_Ok = ks_add_entry_not_Ok [OF _ session_key_attributes_wf, where tag = KEY_TAG_UNASSIGNED and kind = EK_Session,
    folded import_session_key_eq]

text \<open>
  The session record. A session key and a masking key of the right sizes, stored as one entry, are read
  back as the same two keys, by the application that stored them.
\<close>

theorem session_key_roundtrip:
  assumes wf: "store_wf s" and new: "session_key_new sk smk = Ok key"
    and imp: "import_session_key app key s = (Ok n, s')"
  shows "open_session_key s' app n allow = Ok n \<and> session_key_blob s' n = Ok sk \<and> masking_key_blob s' n = Ok smk"
proof -
  have key: "length sk = 8" "key = sk @ smk" using new by (simp_all add: session_key_new_Ok)
  have "store_view s' n = Some (new_key session_key_attributes KEY_TAG_UNASSIGNED EK_Session app (sk @ smk))"
    using import_session_key_Ok(5) [OF wf imp] key by simp
  from session_record [OF import_session_key_Ok(1) [OF wf imp] this key(1)] show ?thesis by simp
qed

theorem session_key_roundtrip_witness:
  "\<exists>key n s'. session_key_new (replicate 8 1) (replicate 80 2) = Ok key \<and>
     import_session_key 4 key (empty_store 1) = (Ok n, s') \<and> session_key_blob s' n = Ok (replicate 8 1)"
proof -
  let ?key = "replicate 8 (1 :: u8) @ replicate 80 2"
  let ?a = "set_flags [AF_local] (set_session False default_attributes)"
  have new: "session_key_new (replicate 8 1) (replicate 80 2) = Ok ?key"
    by (simp add: session_key_new_def SESSION_KEY_SIZE_def MK_AES_CBC_256_HMAC384_SIZE_BYTES_def
        copy_into_def mem_write_def)
  have a: "attributes_wf ?a"
    using attributes_wf_default by (simp add: set_session_def set_flags_def attributes_wf_def)
  have valid: "add_valid ?a EK_Session ?key"
    by (simp add: add_valid_def expected_key_len_def is_var_hmac_key_def)
  obtain n s' where "ks_add_entry ?a KEY_TAG_UNASSIGNED EK_Session 4 ?key (empty_store 1) = (Ok n, s')"
    by (rule empty_store_adds [OF a valid]) (simp_all add: blocks_for_def align8_def is_var_hmac_key_def)
  then have imp: "import_session_key 4 ?key (empty_store 1) = (Ok n, s')" by (simp add: import_session_key_def)
  show ?thesis using session_key_roundtrip [OF empty_store_wf new imp] new imp by blast
qed

text \<open>
  The parts of an RSA key. For every stored RSA private key the modulus is found without running out of
  the blob: it is the second half of a plain key after the private exponent, and the part after
  the first parameters of a CRT key, and the two CRT parts put together are the whole blob.
\<close>

theorem rsa_parts_total:
  assumes wf: "store_wf s" and k: "store_view s n = Some k" and kind: "sk_kind k = entry_of_rsa_kind rk"
  shows "\<exists>m. rsa_n s n = Ok m \<and> expected_data_len s n = Ok (length m) \<and>
    (if is_crt_kind (sk_kind k)
     then rsa_blob s n = Err InvalidKeyType \<and>
       (\<exists>p1 p2. crt_param1 s n = Ok p1 \<and> crt_param2 s n = Ok p2 \<and> p1 @ p2 = sk_blob k \<and> m = take (length m) p2)
     else rsa_blob s n = Ok (sk_blob k) \<and> m = slice (length m) (length m) (sk_blob k) \<and>
       crt_param1 s n = Err InvalidKeyType)"
proof -
  have nv: "\<not> is_var_hmac_key (sk_kind k)" using kind by (cases rk) (simp_all add: is_var_hmac_key_def)
  have size: "raw_key_blob_size (sk_kind k) = Ok (length (sk_blob k))" by (rule store_view_length [OF wf k nv])
  note views = vk_kind_view [OF k] vk_blob_view [OF wf k]
  show ?thesis
    using size kind views
    by (cases rk)
       (simp_all add: rsa_n_def expected_data_len_def is_crt_key_def is_crt_kind_def crt_param1_len_def
         rsa_blob_def crt_param1_def crt_param2_def slice_get_def slice_def eq_commute [of _ "length (sk_blob k)"])
qed

theorem rsa_parts_total_witness:
  "\<exists>n s' m. import_raw_key 1 0 None EK_Rsa2kPrivate default_attributes (replicate 516 3) (empty_store 1) = (Ok n, s') \<and>
     rsa_n s' n = Ok m"
proof -
  have valid: "add_valid default_attributes EK_Rsa2kPrivate (replicate 516 3)"
    by (simp add: add_valid_def expected_key_len_def is_var_hmac_key_def)
  obtain n s' where add: "ks_add_entry default_attributes KEY_TAG_UNASSIGNED EK_Rsa2kPrivate 1 (replicate 516 3) (empty_store 1) = (Ok n, s')"
    by (rule empty_store_adds [OF attributes_wf_default valid])
       (simp_all add: blocks_for_def align8_def is_var_hmac_key_def)
  note ok = ks_add_entry_Ok [OF empty_store_wf attributes_wf_default add]
  have imp: "import_raw_key 1 0 None EK_Rsa2kPrivate default_attributes (replicate 516 3) (empty_store 1) = (Ok n, s')"
    using add by (simp add: import_raw_key_def availability_of_def validate_key_params_def sess_id_or_tag_def
        default_attributes_def)
  have "store_view s' n = Some (new_key default_attributes KEY_TAG_UNASSIGNED EK_Rsa2kPrivate 1 (replicate 516 3))"
    using ok(5) by simp
  from rsa_parts_total [OF ok(1) this, of Rk_Rsa2kPrivate] imp show ?thesis
    by (auto simp: new_key_def)
qed

end
