(* ===== verification/Session_Table.thy ===== *)
theory Session_Table
  imports Hsm_Prelude
begin

text \<open>
  The session indirection table (\<^verbatim>\<open>hsm/src/partition/session_table.rs\<close>): eight virtual
  session ids, each free, waiting to be renegotiated after a restore, or mapped to the physical
  session of the vault. The code keeps two bit masks and an array; the specification is a list of
  eight slots, and every operation is shown to be the same operation on the slots.

  The masks are read and written through the traits \<^verbatim>\<open>Bit\<close> and \<^verbatim>\<open>BitMut\<close> of the
  crate \<^verbatim>\<open>bitfield\<close>, which is not part of the repository: its two methods are the
  argument \<open>B\<close> of the operations, and \<open>bit_trait_laws\<close> states their documentation.
\<close>

section \<open>The program\<close>

record bit_trait =
  bit_get :: "u8 \<Rightarrow> nat \<Rightarrow> bool"
  bit_set :: "u8 \<Rightarrow> nat \<Rightarrow> bool \<Rightarrow> u8"

definition MAX_SESSIONS :: nat where
  "MAX_SESSIONS = 8"

record session_table =
  session_allocation_mask :: u8
  session_renegotiation_mask :: u8
  session_ids :: "u16 list"

text \<open>\<^verbatim>\<open>count_zeros\<close> and \<^verbatim>\<open>trailing_ones\<close> of the standard library.\<close>

definition count_zeros :: "u8 \<Rightarrow> nat" where
  "count_zeros m = length (filter (\<lambda>i. \<not> bit m i) [0..<8])"

definition trailing_ones :: "u8 \<Rightarrow> nat" where
  "trailing_ones m = length (takeWhile (bit m) [0..<8])"

definition st_backup :: "session_table \<Rightarrow> u8" where
  "st_backup t = session_allocation_mask t"

definition st_restore :: "u8 \<Rightarrow> session_table \<Rightarrow> session_table" where
  "st_restore m t = t\<lparr>session_allocation_mask := m, session_renegotiation_mask := m,
     session_ids := replicate MAX_SESSIONS 0\<rparr>"

definition get_available_session_count :: "session_table \<Rightarrow> nat" where
  "get_available_session_count t = count_zeros (session_allocation_mask t)"

definition needs_renegotiation :: "bit_trait \<Rightarrow> session_table \<Rightarrow> u16 \<Rightarrow> bool" where
  "needs_renegotiation B t i =
     (if unat i > MAX_SESSIONS - 1 then False
      else bit_get B (session_allocation_mask t) (unat i) \<and>
        bit_get B (session_renegotiation_mask t) (unat i))"

definition st_valid :: "bit_trait \<Rightarrow> session_table \<Rightarrow> u16 \<Rightarrow> unit hsm_result" where
  "st_valid B t i =
     (if unat i > MAX_SESSIONS - 1 then Err SessionLimitReached
      else if \<not> bit_get B (session_allocation_mask t) (unat i) then Err SessionNotFound
      else if bit_get B (session_renegotiation_mask t) (unat i) then Err SessionNeedsRenegotiation
      else Ok ())"

definition recreate_session ::
  "bit_trait \<Rightarrow> u16 \<Rightarrow> u16 \<Rightarrow> session_table \<Rightarrow> unit hsm_result \<times> session_table" where
  "recreate_session B i target t = (case st_valid B t i of
     Ok _ \<Rightarrow> (Err InvalidState, t)
   | Err e \<Rightarrow>
       if e = SessionNeedsRenegotiation
       then (Ok (), t\<lparr>session_renegotiation_mask :=
                 bit_set B (session_renegotiation_mask t) (unat i) False,
               session_ids := (session_ids t)[unat i := target]\<rparr>)
       else (Err e, t)
   | Panic \<Rightarrow> (Panic, t))"

definition create_session ::
  "bit_trait \<Rightarrow> u16 \<Rightarrow> session_table \<Rightarrow> u16 hsm_result \<times> session_table" where
  "create_session B target t =
     (let i = trailing_ones (session_allocation_mask t)
      in if i > MAX_SESSIONS - 1 then (Err SessionLimitReached, t)
         else (Ok (of_nat i), t\<lparr>session_ids := (session_ids t)[i := target],
           session_allocation_mask := bit_set B (session_allocation_mask t) i True\<rparr>))"

definition get_target_session :: "bit_trait \<Rightarrow> session_table \<Rightarrow> u16 \<Rightarrow> u16 hsm_result" where
  "get_target_session B t i = and_then (st_valid B t i) (\<lambda>_. Ok (session_ids t ! unat i))"

definition rollback_recreation :: "bit_trait \<Rightarrow> u16 \<Rightarrow> session_table \<Rightarrow> session_table" where
  "rollback_recreation B i t =
     (if unat i < MAX_SESSIONS
      then t\<lparr>session_allocation_mask := bit_set B (session_allocation_mask t) (unat i) True,
        session_renegotiation_mask := bit_set B (session_renegotiation_mask t) (unat i) True,
        session_ids := (session_ids t)[unat i := 0]\<rparr>
      else t)"

definition st_delete :: "bit_trait \<Rightarrow> u16 \<Rightarrow> session_table \<Rightarrow> session_table" where
  "st_delete B i t =
     (if unat i < MAX_SESSIONS
      then t\<lparr>session_allocation_mask := bit_set B (session_allocation_mask t) (unat i) False,
        session_renegotiation_mask := bit_set B (session_renegotiation_mask t) (unat i) False,
        session_ids := (session_ids t)[unat i := 0]\<rparr>
      else t)"

section \<open>Invariant and slots\<close>

definition bit_trait_laws :: "bit_trait \<Rightarrow> bool" where
  "bit_trait_laws B \<longleftrightarrow>
     (\<forall>m. \<forall>i < 8. bit_get B m i = bit m i) \<and>
     (\<forall>m x. \<forall>i < 8. bit_set B m i x = (if x then Bit_Operations.set_bit i m else unset_bit i m))"

definition plain_bits :: bit_trait where
  "plain_bits = \<lparr>bit_get = bit,
     bit_set = (\<lambda>m i x. if x then Bit_Operations.set_bit i m else unset_bit i m)\<rparr>"

lemma plain_bits_laws: "bit_trait_laws plain_bits"
  by (simp add: bit_trait_laws_def plain_bits_def)

lemma bit_trait_get: "bit_trait_laws B \<Longrightarrow> i < 8 \<Longrightarrow> bit_get B m i = bit m i"
  by (simp add: bit_trait_laws_def)

lemma bit_trait_set:
  "bit_trait_laws B \<Longrightarrow> i < 8 \<Longrightarrow> j < 8 \<Longrightarrow> bit (bit_set B m i x) j = (if j = i then x else bit m j)"
  by (auto simp: bit_trait_laws_def bit_set_bit_iff bit_unset_bit_iff)

text \<open>A slot can only be waiting for renegotiation if it is allocated.\<close>

definition session_table_wf :: "session_table \<Rightarrow> bool" where
  "session_table_wf t \<longleftrightarrow> length (session_ids t) = MAX_SESSIONS \<and>
     (\<forall>i < MAX_SESSIONS. bit (session_renegotiation_mask t) i \<longrightarrow> bit (session_allocation_mask t) i)"

definition empty_session_table :: session_table where
  "empty_session_table = \<lparr>session_allocation_mask = 0, session_renegotiation_mask = 0,
     session_ids = replicate MAX_SESSIONS 0\<rparr>"

datatype slot = Free | Pending | Active u16

definition slot_at :: "session_table \<Rightarrow> nat \<Rightarrow> slot" where
  "slot_at t i = (if \<not> bit (session_allocation_mask t) i then Free
     else if bit (session_renegotiation_mask t) i then Pending
     else Active (session_ids t ! i))"

definition slots :: "session_table \<Rightarrow> slot list" where
  "slots t = map (slot_at t) [0..<MAX_SESSIONS]"

lemma length_slots [simp]: "length (slots t) = MAX_SESSIONS"
  by (simp add: slots_def)

lemma nth_slots: "i < MAX_SESSIONS \<Longrightarrow> slots t ! i = slot_at t i"
  by (simp add: slots_def)

lemma slots_eqI:
  assumes "length ss = MAX_SESSIONS" and "\<And>i. i < MAX_SESSIONS \<Longrightarrow> slot_at t i = ss ! i"
  shows "slots t = ss"
  by (rule nth_equalityI) (use assms in \<open>simp_all add: nth_slots\<close>)

text \<open>The same operations on the slots.\<close>

primrec slot_error :: "slot \<Rightarrow> unit hsm_result" where
  "slot_error Free = Err SessionNotFound"
| "slot_error Pending = Err SessionNeedsRenegotiation"
| "slot_error (Active _) = Ok ()"

primrec slot_target :: "slot \<Rightarrow> u16 hsm_result" where
  "slot_target Free = Err SessionNotFound"
| "slot_target Pending = Err SessionNeedsRenegotiation"
| "slot_target (Active p) = Ok p"

definition spec_target :: "slot list \<Rightarrow> u16 \<Rightarrow> u16 hsm_result" where
  "spec_target ss i =
     (if unat i < MAX_SESSIONS then slot_target (ss ! unat i) else Err SessionLimitReached)"

definition spec_create :: "u16 \<Rightarrow> slot list \<Rightarrow> u16 hsm_result \<times> slot list" where
  "spec_create p ss = (case position (\<lambda>s. s = Free) ss of
     None \<Rightarrow> (Err SessionLimitReached, ss)
   | Some i \<Rightarrow> (Ok (of_nat i), ss[i := Active p]))"

definition spec_recreate :: "u16 \<Rightarrow> u16 \<Rightarrow> slot list \<Rightarrow> unit hsm_result \<times> slot list" where
  "spec_recreate i p ss =
     (if unat i < MAX_SESSIONS
      then (case ss ! unat i of
          Free \<Rightarrow> (Err SessionNotFound, ss)
        | Pending \<Rightarrow> (Ok (), ss[unat i := Active p])
        | Active _ \<Rightarrow> (Err InvalidState, ss))
      else (Err SessionLimitReached, ss))"

definition spec_put :: "u16 \<Rightarrow> slot \<Rightarrow> slot list \<Rightarrow> slot list" where
  "spec_put i s ss = (if unat i < MAX_SESSIONS then ss[unat i := s] else ss)"

definition spec_restore :: "u8 \<Rightarrow> slot list" where
  "spec_restore m = map (\<lambda>i. if bit m i then Pending else Free) [0..<MAX_SESSIONS]"

section \<open>Each operation refines its specification\<close>

lemma trailing_ones_position:
  "trailing_ones m = (case position (\<lambda>i. \<not> bit m i) [0..<8] of None \<Rightarrow> 8 | Some i \<Rightarrow> i)"
proof -
  have "length (takeWhile p xs) = (case position (\<lambda>x. \<not> p x) xs of None \<Rightarrow> length xs | Some i \<Rightarrow> i)"
    for p and xs :: "nat list"
    by (induction xs) (auto split: option.splits)
  then show ?thesis by (simp add: trailing_ones_def cong: option.case_cong)
qed

lemma position_map: "position p (map f xs) = position (\<lambda>x. p (f x)) xs"
  by (induction xs) auto

lemma slot_at_Free: "slot_at t i = Free \<longleftrightarrow> \<not> bit (session_allocation_mask t) i"
  by (simp add: slot_at_def)

lemma trailing_ones_free:
  "trailing_ones (session_allocation_mask t) =
     (case position (\<lambda>s. s = Free) (slots t) of None \<Rightarrow> MAX_SESSIONS | Some i \<Rightarrow> i)"
  by (simp add: trailing_ones_position slots_def position_map slot_at_Free MAX_SESSIONS_def
      cong: option.case_cong)

lemma st_valid_refines:
  "bit_trait_laws B \<Longrightarrow> st_valid B t i =
     (if unat i < MAX_SESSIONS then slot_error (slots t ! unat i) else Err SessionLimitReached)"
  by (auto simp: st_valid_def MAX_SESSIONS_def bit_trait_get nth_slots slot_at_def)

lemma get_target_refines: "bit_trait_laws B \<Longrightarrow> get_target_session B t i = spec_target (slots t) i"
  by (auto simp: get_target_session_def st_valid_refines spec_target_def nth_slots slot_at_def)

lemma needs_renegotiation_refines:
  "bit_trait_laws B \<Longrightarrow>
     needs_renegotiation B t i = (unat i < MAX_SESSIONS \<and> slots t ! unat i = Pending)"
  by (auto simp: needs_renegotiation_def MAX_SESSIONS_def bit_trait_get nth_slots slot_at_def)

lemma available_count_refines:
  "get_available_session_count t = length (filter (\<lambda>s. s = Free) (slots t))"
  by (simp add: get_available_session_count_def count_zeros_def slots_def filter_map
      comp_def slot_at_Free MAX_SESSIONS_def)

lemma restore_refines:
  "session_table_wf (st_restore m t) \<and> slots (st_restore m t) = spec_restore m"
  by (simp add: session_table_wf_def st_restore_def slots_def spec_restore_def slot_at_def)

lemma slots_updateI:
  assumes wf: "session_table_wf t" and i: "i < 8"
    and ids: "session_ids t' = (session_ids t)[i := p]"
    and alloc: "\<And>j. j < 8 \<Longrightarrow> bit (session_allocation_mask t') j =
       (if j = i then a else bit (session_allocation_mask t) j)"
    and reneg: "\<And>j. j < 8 \<Longrightarrow> bit (session_renegotiation_mask t') j =
       (if j = i then r else bit (session_renegotiation_mask t) j)"
    and ar: "r \<Longrightarrow> a"
  shows "session_table_wf t'"
    and "slots t' = (slots t)[i := (if a then if r then Pending else Active p else Free)]"
proof -
  have len: "length (session_ids t) = 8"
    using wf by (simp add: session_table_wf_def MAX_SESSIONS_def)
  have "bit (session_allocation_mask t') j" if "j < 8" "bit (session_renegotiation_mask t') j" for j
    using wf that ar by (cases "j = i") (simp_all add: session_table_wf_def MAX_SESSIONS_def alloc reneg)
  then show "session_table_wf t'"
    by (simp add: session_table_wf_def MAX_SESSIONS_def ids len)
  show "slots t' = (slots t)[i := (if a then if r then Pending else Active p else Free)]"
  proof (rule slots_eqI)
    fix j assume "j < MAX_SESSIONS"
    then have j: "j < 8" by (simp add: MAX_SESSIONS_def)
    show "slot_at t' j = (slots t)[i := (if a then if r then Pending else Active p else Free)] ! j"
      using i j by (cases "j = i")
        (simp_all add: slot_at_def alloc reneg ids len nth_slots MAX_SESSIONS_def)
  qed simp
qed

lemma create_refines:
  assumes B: "bit_trait_laws B" and wf: "session_table_wf t"
  shows "case create_session B p t of (r, t') \<Rightarrow>
     session_table_wf t' \<and> spec_create p (slots t) = (r, slots t')"
proof (cases "position (\<lambda>s. s = Free) (slots t)")
  case None
  then show ?thesis
    by (simp add: create_session_def trailing_ones_free spec_create_def MAX_SESSIONS_def wf)
next
  case (Some i)
  define t' where t: "t' = t\<lparr>session_ids := (session_ids t)[i := p],
      session_allocation_mask := bit_set B (session_allocation_mask t) i True\<rparr>"
  have i: "i < MAX_SESSIONS"
    using position_Some [of "\<lambda>s. s = Free" "slots t" i] Some by simp
  have free: "slot_at t i = Free"
    using position_Some [of "\<lambda>s. s = Free" "slots t" i] Some i by (simp add: nth_slots)
  have r: "create_session B p t = (Ok (of_nat i), t')"
    using i by (simp add: create_session_def trailing_ones_free Some MAX_SESSIONS_def t)
  have not_pending: "\<not> bit (session_renegotiation_mask t) i"
    using wf i free by (auto simp: session_table_wf_def slot_at_Free)
  have alloc: "bit (session_allocation_mask t') j = (if j = i then True else bit (session_allocation_mask t) j)"
    if "j < 8" for j
    using i that B by (simp add: t MAX_SESSIONS_def bit_trait_set)
  have reneg: "bit (session_renegotiation_mask t') j =
      (if j = i then False else bit (session_renegotiation_mask t) j)" for j
    using not_pending by (simp add: t)
  note upd = slots_updateI [OF wf _ _ alloc reneg, of p]
  have "session_table_wf t'" "slots t' = (slots t)[i := Active p]"
    using upd i by (simp_all add: t MAX_SESSIONS_def)
  then show ?thesis by (simp add: r spec_create_def Some)
qed

lemma recreate_refines:
  assumes B: "bit_trait_laws B" and wf: "session_table_wf t"
  shows "case recreate_session B i p t of (r, t') \<Rightarrow>
     session_table_wf t' \<and> spec_recreate i p (slots t) = (r, slots t')"
proof (cases "unat i < MAX_SESSIONS \<and> slots t ! unat i = Pending")
  case False
  then show ?thesis using wf
    by (cases "slots t ! unat i") (auto simp: recreate_session_def spec_recreate_def st_valid_refines B)
next
  case True
  then have i: "unat i < 8" by (simp add: MAX_SESSIONS_def)
  define t' where t: "t' = t\<lparr>session_renegotiation_mask :=
                 bit_set B (session_renegotiation_mask t) (unat i) False,
               session_ids := (session_ids t)[unat i := p]\<rparr>"
  have r: "recreate_session B i p t = (Ok (), t')"
    using True by (simp add: recreate_session_def st_valid_refines B t)
  have alloc: "bit (session_allocation_mask t) (unat i)"
    using True by (auto simp: nth_slots slot_at_def split: if_splits)
  have am: "bit (session_allocation_mask t') j =
      (if j = unat i then True else bit (session_allocation_mask t) j)" for j
    using alloc by (simp add: t)
  have rm: "bit (session_renegotiation_mask t') j =
      (if j = unat i then False else bit (session_renegotiation_mask t) j)" if "j < 8" for j
    using i that B by (simp add: t bit_trait_set)
  note upd = slots_updateI [OF wf i _ am rm, of p]
  have "session_table_wf t'" "slots t' = (slots t)[unat i := Active p]"
    using upd by (simp_all add: t)
  then show ?thesis using True by (simp add: r spec_recreate_def)
qed

lemma put_refines:
  assumes B: "bit_trait_laws B" and wf: "session_table_wf t" and i: "unat i < MAX_SESSIONS"
    and t': "t' = t\<lparr>session_allocation_mask := bit_set B (session_allocation_mask t) (unat i) x,
        session_renegotiation_mask := bit_set B (session_renegotiation_mask t) (unat i) x,
        session_ids := (session_ids t)[unat i := 0]\<rparr>"
  shows "session_table_wf t' \<and> slots t' = (slots t)[unat i := (if x then Pending else Free)]"
proof -
  have i8: "unat i < 8" using i by (simp add: MAX_SESSIONS_def)
  have am: "bit (session_allocation_mask t') j =
      (if j = unat i then x else bit (session_allocation_mask t) j)" if "j < 8" for j
    using i8 that B by (simp add: t' bit_trait_set)
  have rm: "bit (session_renegotiation_mask t') j =
      (if j = unat i then x else bit (session_renegotiation_mask t) j)" if "j < 8" for j
    using i8 that B by (simp add: t' bit_trait_set)
  have ids: "session_ids t' = (session_ids t)[unat i := 0]" by (simp add: t')
  show ?thesis using slots_updateI [OF wf i8 ids am rm] by auto
qed

lemma delete_refines:
  assumes "bit_trait_laws B" and "session_table_wf t"
  shows "session_table_wf (st_delete B i t) \<and> slots (st_delete B i t) = spec_put i Free (slots t)"
  using put_refines [OF assms, of i _ False] assms(2) by (simp add: st_delete_def spec_put_def)

lemma rollback_refines:
  assumes "bit_trait_laws B" and "session_table_wf t"
  shows "session_table_wf (rollback_recreation B i t) \<and>
    slots (rollback_recreation B i t) = spec_put i Pending (slots t)"
  using put_refines [OF assms, of i _ True] assms(2) by (simp add: rollback_recreation_def spec_put_def)

section \<open>Sequences of calls\<close>

datatype session_call =
  CreateSession u16 | RecreateSession u16 u16 | RollbackRecreation u16
  | DeleteSession u16 | RestoreMask u8

primrec session_exec :: "bit_trait \<Rightarrow> session_call \<Rightarrow> session_table \<Rightarrow> session_table" where
  "session_exec B (CreateSession p) t = snd (create_session B p t)"
| "session_exec B (RecreateSession i p) t = snd (recreate_session B i p t)"
| "session_exec B (RollbackRecreation i) t = rollback_recreation B i t"
| "session_exec B (DeleteSession i) t = st_delete B i t"
| "session_exec B (RestoreMask m) t = st_restore m t"

primrec spec_exec :: "session_call \<Rightarrow> slot list \<Rightarrow> slot list" where
  "spec_exec (CreateSession p) ss = snd (spec_create p ss)"
| "spec_exec (RecreateSession i p) ss = snd (spec_recreate i p ss)"
| "spec_exec (RollbackRecreation i) ss = spec_put i Pending ss"
| "spec_exec (DeleteSession i) ss = spec_put i Free ss"
| "spec_exec (RestoreMask m) ss = spec_restore m"

definition session_run :: "bit_trait \<Rightarrow> session_call list \<Rightarrow> session_table \<Rightarrow> session_table" where
  "session_run B cs t = fold (session_exec B) cs t"

lemma session_exec_refines:
  assumes "bit_trait_laws B" and "session_table_wf t"
  shows "session_table_wf (session_exec B c t) \<and> slots (session_exec B c t) = spec_exec c (slots t)"
proof (cases c)
  case (CreateSession p)
  with create_refines [OF assms, of p] show ?thesis by (auto split: prod.splits)
next
  case (RecreateSession i p)
  with recreate_refines [OF assms, of i p] show ?thesis by (auto split: prod.splits)
qed (use assms in \<open>simp_all add: delete_refines rollback_refines restore_refines\<close>)

lemma session_run_refines:
  "bit_trait_laws B \<Longrightarrow> session_table_wf t \<Longrightarrow>
     session_table_wf (session_run B cs t) \<and> slots (session_run B cs t) = fold spec_exec cs (slots t)"
proof (induction cs arbitrary: t)
  case Nil
  then show ?case by (simp add: session_run_def)
next
  case (Cons c cs)
  have "session_table_wf (session_exec B c t) \<and> slots (session_exec B c t) = spec_exec c (slots t)"
    using Cons.prems by (rule session_exec_refines)
  with Cons.IH [of "session_exec B c t"] Cons.prems(1) show ?case by (simp add: session_run_def)
qed

lemma empty_session_table_wf:
  "session_table_wf empty_session_table" "slots empty_session_table = replicate MAX_SESSIONS Free"
  by (auto simp: session_table_wf_def empty_session_table_def slots_def slot_at_def
      MAX_SESSIONS_def intro: nth_equalityI)

lemma length_spec_exec: "length ss = MAX_SESSIONS \<Longrightarrow> length (spec_exec c ss) = MAX_SESSIONS"
  by (cases c) (auto simp: spec_create_def spec_recreate_def spec_put_def spec_restore_def
      split: option.splits slot.splits)

text \<open>The calls that may end the waiting of a slot for its renegotiation.\<close>

primrec leaves_pending :: "u16 \<Rightarrow> session_call \<Rightarrow> bool" where
  "leaves_pending i (CreateSession _) = True"
| "leaves_pending i (RecreateSession j _) = (i \<noteq> j)"
| "leaves_pending i (RollbackRecreation _) = True"
| "leaves_pending i (DeleteSession j) = (i \<noteq> j)"
| "leaves_pending i (RestoreMask _) = False"

lemma pending_kept:
  assumes "length ss = MAX_SESSIONS" and "unat i < MAX_SESSIONS" and "ss ! unat i = Pending"
    and "leaves_pending i c"
  shows "spec_exec c ss ! unat i = Pending"
proof (cases c)
  case (CreateSession p)
  show ?thesis
  proof (cases "position (\<lambda>s. s = Free) ss")
    case None
    with CreateSession assms(3) show ?thesis by (simp add: spec_create_def)
  next
    case (Some j)
    with position_Some [of "\<lambda>s. s = Free" ss j] have "ss ! j = Free" by simp
    with assms(3) have "j \<noteq> unat i" by auto
    with CreateSession Some assms(3) show ?thesis by (simp add: spec_create_def)
  qed
qed (use assms in \<open>auto simp: spec_recreate_def spec_put_def nth_list_update
    dest: word_unat_eq_iff [THEN iffD2] split: slot.splits\<close>)

lemma pending_kept_run:
  "length ss = MAX_SESSIONS \<Longrightarrow> unat i < MAX_SESSIONS \<Longrightarrow> ss ! unat i = Pending \<Longrightarrow>
     list_all (leaves_pending i) cs \<Longrightarrow> fold spec_exec cs ss ! unat i = Pending"
  by (induction cs arbitrary: ss) (auto simp: pending_kept length_spec_exec)

section \<open>Properties\<close>

text \<open>
  C20: after any sequence of calls starting from a zeroed table, the two masks and the array
  represent the eight slots that the same sequence of slot operations gives, and every answer is
  the answer of the slots: the physical session of an active slot, and the precise error of any
  other id (out of range, free, or waiting for renegotiation); creating takes the lowest free
  slot and reports the limit exactly when there is none; the free count is the number of free slots.
\<close>

theorem session_table_refines:
  assumes "bit_trait_laws B"
  shows "let t = session_run B cs empty_session_table;
             ss = fold spec_exec cs (replicate MAX_SESSIONS Free)
         in slots t = ss \<and>
            get_target_session B t i = spec_target ss i \<and>
            needs_renegotiation B t i = (unat i < MAX_SESSIONS \<and> ss ! unat i = Pending) \<and>
            get_available_session_count t = length (filter (\<lambda>s. s = Free) ss) \<and>
            fst (create_session B p t) = fst (spec_create p ss) \<and>
            fst (recreate_session B i p t) = fst (spec_recreate i p ss)"
proof -
  let ?t = "session_run B cs empty_session_table"
  have run: "session_table_wf ?t" "slots ?t = fold spec_exec cs (replicate MAX_SESSIONS Free)"
    using session_run_refines [OF assms empty_session_table_wf(1)] empty_session_table_wf(2) by simp_all
  show ?thesis
    using run assms create_refines [OF assms run(1), of p] recreate_refines [OF assms run(1), of i p]
    by (auto simp: Let_def get_target_refines needs_renegotiation_refines available_count_refines
        split: prod.splits)
qed

theorem session_table_refines_witness:
  "let t = session_run plain_bits [CreateSession 7, RestoreMask 3, RecreateSession 1 9]
             empty_session_table
   in get_target_session plain_bits t 1 = Ok 9 \<and>
      get_target_session plain_bits t 0 = Err SessionNeedsRenegotiation \<and>
      get_available_session_count t = 6 \<and> fst (create_session plain_bits 5 t) = Ok 2"
proof -
  let ?cs = "[CreateSession 7, RestoreMask 3, RecreateSession 1 9]"
  have ss: "fold spec_exec ?cs (replicate MAX_SESSIONS Free) =
      [Pending, Active 9, Free, Free, Free, Free, Free, Free]"
    by code_simp
  show ?thesis
    using session_table_refines [OF plain_bits_laws, of ?cs 1 5]
      session_table_refines [OF plain_bits_laws, of ?cs 0 5]
    unfolding ss by (simp add: Let_def spec_target_def MAX_SESSIONS_def spec_create_def)
qed

text \<open>
  A session that was live when the mask was saved can not be used after the restore until it
  is renegotiated: whatever sequence of other calls follows, as long as this id is neither
  recreated nor deleted and no other mask is restored, every use of it is refused with
  \<open>SessionNeedsRenegotiation\<close>, its id is never handed out to a new session, and recreating it then
  succeeds and maps it to the new physical session.
\<close>

theorem restored_session_locked:
  assumes "bit_trait_laws B" and "session_table_wf t" and "unat i < MAX_SESSIONS"
    and "bit (st_backup t) (unat i)" and "list_all (leaves_pending i) cs"
  shows "let t' = session_run B cs (st_restore (st_backup t) s)
         in get_target_session B t' i = Err SessionNeedsRenegotiation \<and>
            st_valid B t' i = Err SessionNeedsRenegotiation \<and>
            fst (create_session B p t') \<noteq> Ok i \<and>
            fst (recreate_session B i p t') = Ok () \<and>
            get_target_session B (snd (recreate_session B i p t')) i = Ok p"
proof -
  let ?r = "st_restore (st_backup t) s"
  let ?t = "session_run B cs ?r"
  have wf: "session_table_wf ?r" and r: "slots ?r = spec_restore (st_backup t)"
    using restore_refines by auto
  have run: "session_table_wf ?t" "slots ?t = fold spec_exec cs (slots ?r)"
    using session_run_refines [OF assms(1) wf] by auto
  have "slots ?r ! unat i = Pending"
    using assms(3,4) by (simp add: r spec_restore_def)
  then have pend: "slots ?t ! unat i = Pending"
    unfolding run(2) using assms(3,5) by (intro pending_kept_run) simp_all
  obtain q t2 where re: "recreate_session B i p ?t = (q, t2)" by fastforce
  have rec: "q = Ok ()" "slots t2 = (slots ?t)[unat i := Active p]"
    using recreate_refines [OF assms(1) run(1), of i p] pend assms(3) by (simp_all add: re spec_recreate_def)
  have "fst (spec_create p (slots ?t)) \<noteq> Ok i"
  proof (cases "position (\<lambda>s. s = Free) (slots ?t)")
    case (Some j)
    then have "j < MAX_SESSIONS" "slots ?t ! j = Free"
      using position_Some [of "\<lambda>s. s = Free" "slots ?t" j] by simp_all
    then have "unat (of_nat j :: u16) \<noteq> unat i"
      using pend by (auto simp: MAX_SESSIONS_def unat_of_nat)
    with Some show ?thesis by (auto simp: spec_create_def)
  qed (simp add: spec_create_def)
  then have "fst (create_session B p ?t) \<noteq> Ok i"
    using create_refines [OF assms(1) run(1), of p] by (auto split: prod.splits)
  then show ?thesis
    using pend rec assms(3)
    by (simp add: Let_def get_target_refines st_valid_refines assms(1) spec_target_def re)
qed

theorem restored_session_locked_witness:
  "get_target_session plain_bits
     (session_run plain_bits [DeleteSession 1, CreateSession 4]
        (st_restore (st_backup (empty_session_table\<lparr>session_allocation_mask := 3\<rparr>)) empty_session_table)) 0 =
     Err SessionNeedsRenegotiation"
  using restored_session_locked [OF plain_bits_laws,
      of "empty_session_table\<lparr>session_allocation_mask := 3\<rparr>" 0 "[DeleteSession 1, CreateSession 4]"]
  by (simp add: session_table_wf_def empty_session_table_def MAX_SESSIONS_def st_backup_def Let_def)

end
