(* ===== verification/Pin_Policy.thy ===== *)
theory Pin_Policy
  imports Hsm_Prelude
begin

text \<open>
  The PIN policy (\<^verbatim>\<open>hsm/src/partition/pin_policy_mgr.rs\<close>, its persistent context in
  \<^verbatim>\<open>types/src/hsm.rs\<close>): after every thousand failed logins the delay between two
  attempts grows by a minute, up to thirty-two minutes. The readings of the time stamp counter
  come from the environment and are arguments: \<open>now\<close> is the reading of the check, \<open>now'\<close> the
  later one of the lockout.
\<close>

section \<open>The program\<close>

datatype pin_policy_state = Ready | Lockout

record pin_policy =
  pp_state :: pin_policy_state
  delay_factor :: u16
  allowed_attempts :: u16
  lockout_time :: bytes

definition pin_policy_default :: pin_policy where
  "pin_policy_default = \<lparr>pp_state = Ready, delay_factor = 0, allowed_attempts = 0,
     lockout_time = replicate 8 0\<rparr>"

definition MAX_ALLOWED_PIN_AUTH_ATTEMPTS :: u16 where
  "MAX_ALLOWED_PIN_AUTH_ATTEMPTS = 1000"

definition DELAY_FACTOR_INCREMENT_IN_SEC :: u64 where
  "DELAY_FACTOR_INCREMENT_IN_SEC = 60"

definition MAX_DELAY_FACTOR_IN_MINS :: u16 where
  "MAX_DELAY_FACTOR_IN_MINS = 32"

definition tsc_freq_hz :: u64 where
  "tsc_freq_hz = 62500000"

definition can_login :: "u64 \<Rightarrow> pin_policy \<Rightarrow> bool" where
  "can_login now p \<longleftrightarrow> pp_state p = Ready \<or> now \<ge> le_word (lockout_time p)"

definition reset_context :: "pin_policy \<Rightarrow> pin_policy" where
  "reset_context p = p\<lparr>allowed_attempts := 0, delay_factor := 0, lockout_time := replicate 8 0\<rparr>"

definition increment_delay_factor :: "pin_policy \<Rightarrow> pin_policy" where
  "increment_delay_factor p =
     (let p = p\<lparr>delay_factor := delay_factor p + 1\<rparr>
      in if delay_factor p > MAX_DELAY_FACTOR_IN_MINS then reset_context p else p)"

definition increment_allowed_attempts :: "pin_policy \<Rightarrow> pin_policy" where
  "increment_allowed_attempts p =
     (let p = p\<lparr>allowed_attempts := allowed_attempts p + 1\<rparr>
      in if allowed_attempts p = MAX_ALLOWED_PIN_AUTH_ATTEMPTS
         then (increment_delay_factor p)\<lparr>allowed_attempts := 0\<rparr> else p)"

definition set_lockout_time :: "u64 \<Rightarrow> pin_policy \<Rightarrow> pin_policy" where
  "set_lockout_time now' p =
     (let delay = ucast (delay_factor p) * DELAY_FACTOR_INCREMENT_IN_SEC * tsc_freq_hz
      in p\<lparr>lockout_time := le_bytes 8 (now' + delay)\<rparr>)"

definition lockout :: "u64 \<Rightarrow> pin_policy \<Rightarrow> pin_policy" where
  "lockout now' p = set_lockout_time now' (increment_allowed_attempts p)"

definition enforce_pin_policy ::
  "u64 \<Rightarrow> u64 \<Rightarrow> bool \<Rightarrow> pin_policy \<Rightarrow> unit hsm_result \<times> pin_policy" where
  "enforce_pin_policy now now' valid_attempt p =
     (if \<not> can_login now p then (Err LoginFailed, p)
      else if valid_attempt
      then (Ok (), if pp_state p = Lockout then reset_context p else p)
      else (let p = (if pp_state p = Ready then p\<lparr>pp_state := Lockout\<rparr> else p)
            in (Err InvalidUserCredential, lockout now' p)))"

section \<open>Counters\<close>

text \<open>
  The policy after \<open>n\<close> failed attempts that were let through since the last reset: the counters
  are the quotient and the remainder of \<open>n\<close>, and roll over after 33000.
\<close>

definition delay_minutes :: "nat \<Rightarrow> nat" where
  "delay_minutes n = (n div 1000) mod 33"

definition delay_ticks :: "nat \<Rightarrow> nat" where
  "delay_ticks n = delay_minutes n * 3750000000"

definition after_failures :: "nat \<Rightarrow> pin_policy \<Rightarrow> bool" where
  "after_failures n p \<longleftrightarrow> allowed_attempts p = of_nat (n mod 1000) \<and>
     delay_factor p = of_nat (delay_minutes n)"

definition pin_policy_wf :: "pin_policy \<Rightarrow> bool" where
  "pin_policy_wf p \<longleftrightarrow> length (lockout_time p) = 8 \<and> (\<exists>n. after_failures n p) \<and>
     (pp_state p = Ready \<longrightarrow>
        allowed_attempts p = 0 \<and> delay_factor p = 0 \<and> lockout_time p = replicate 8 0)"

lemma le_word_zeros: "(le_word (replicate 8 0) :: u64) = 0"
  by (simp add: numeral_eq_Suc)

lemma after_failures_0: "after_failures 0 p \<longleftrightarrow> allowed_attempts p = 0 \<and> delay_factor p = 0"
  by (simp add: after_failures_def delay_minutes_def)

lemma next_failure:
  "(Suc n mod 1000 = 0 \<longleftrightarrow> n mod 1000 = 999) \<and>
   (n mod 1000 = 999 \<longrightarrow> delay_minutes (Suc n) = (if delay_minutes n = 32 then 0 else Suc (delay_minutes n))) \<and>
   (n mod 1000 \<noteq> 999 \<longrightarrow> Suc n mod 1000 = Suc (n mod 1000) \<and> delay_minutes (Suc n) = delay_minutes n)"
proof -
  have "Suc n div 1000 = (if n mod 1000 = 999 then Suc (n div 1000) else n div 1000)"
    by (simp add: div_Suc mod_Suc)
  then show ?thesis by (auto simp: delay_minutes_def mod_Suc)
qed

lemma increment_counts:
  assumes "after_failures n p"
  shows "after_failures (Suc n) (increment_allowed_attempts p)"
proof -
  have lt: "n mod 1000 < 1000" "delay_minutes n < 33" by (simp_all add: delay_minutes_def)
  have eq: "(of_nat (n mod 1000) + 1 :: u16) = 1000 \<longleftrightarrow> n mod 1000 = 999"
  proof -
    have "(of_nat (n mod 1000) + 1 :: u16) = of_nat (Suc (n mod 1000))" by simp
    also have "\<dots> = 1000 \<longleftrightarrow> Suc (n mod 1000) = 1000"
      using lt(1) word_of_nat_eq_iff [where 'a = 16, of "Suc (n mod 1000)" 1000] by (simp add: take_bit_nat_eq_self)
    finally show ?thesis by simp
  qed
  have gt: "(of_nat (delay_minutes n) + 1 :: u16) > 32 \<longleftrightarrow> delay_minutes n = 32"
  proof -
    have "(of_nat (delay_minutes n) + 1 :: u16) = of_nat (Suc (delay_minutes n))" by simp
    moreover have "unat (of_nat (Suc (delay_minutes n)) :: u16) = Suc (delay_minutes n)"
      using lt(2) by (simp add: unsigned_of_nat take_bit_nat_eq_self del: of_nat_Suc)
    ultimately have "(of_nat (delay_minutes n) + 1 :: u16) > 32 \<longleftrightarrow> Suc (delay_minutes n) > 32"
      by (simp only: word_less_nat_alt) simp
    with lt(2) show ?thesis by auto
  qed
  show ?thesis
  proof (cases "n mod 1000 = 999")
    case True
    with assms eq gt next_failure [of n] show ?thesis
      by (auto simp: increment_allowed_attempts_def increment_delay_factor_def after_failures_def
          reset_context_def Let_def MAX_ALLOWED_PIN_AUTH_ATTEMPTS_def MAX_DELAY_FACTOR_IN_MINS_def)
  next
    case False
    with assms eq next_failure [of n] show ?thesis
      by (simp add: increment_allowed_attempts_def after_failures_def Let_def
          MAX_ALLOWED_PIN_AUTH_ATTEMPTS_def)
  qed
qed

lemma set_lockout_time_ticks:
  assumes "after_failures n p" and "unat now' + delay_ticks n < 2 ^ 64"
  shows "unat (le_word (lockout_time (set_lockout_time now' p)) :: u64) = unat now' + delay_ticks n"
proof -
  have d: "delay_minutes n < 33" by (simp add: delay_minutes_def)
  then have "delay_ticks n < 2 ^ 64" by (simp add: delay_ticks_def)
  have "(ucast (of_nat (delay_minutes n) :: u16) :: u64) = of_nat (delay_minutes n)"
    using d by (simp add: word_eq_iff_unsigned unsigned_ucast_eq unsigned_of_nat take_bit_nat_eq_self)
  then have "(ucast (delay_factor p) * DELAY_FACTOR_INCREMENT_IN_SEC * tsc_freq_hz :: u64) =
      of_nat (delay_ticks n)"
    using assms(1) by (simp add: after_failures_def delay_ticks_def DELAY_FACTOR_INCREMENT_IN_SEC_def
        tsc_freq_hz_def)
  then have "(le_word (lockout_time (set_lockout_time now' p)) :: u64) = of_nat (unat now' + delay_ticks n)"
    by (simp add: set_lockout_time_def Let_def le_word_le_bytes)
  then show ?thesis using assms(2) by (simp add: unsigned_of_nat take_bit_nat_eq_self del: of_nat_add)
qed

section \<open>One call\<close>

lemma pin_policy_default_wf: "pin_policy_wf pin_policy_default" "after_failures 0 pin_policy_default"
  by (auto simp: pin_policy_wf_def pin_policy_default_def after_failures_0 intro: exI [of _ 0])

lemma length_lockout_time_set [simp]: "length (lockout_time (set_lockout_time now' p)) = 8"
  by (simp add: set_lockout_time_def Let_def)

lemma counters_set_lockout_time [simp]:
  "after_failures n (set_lockout_time now' p) = after_failures n p"
  "pp_state (set_lockout_time now' p) = pp_state p"
  by (simp_all add: after_failures_def set_lockout_time_def Let_def)

lemma state_increment [simp]: "pp_state (increment_allowed_attempts p) = pp_state p"
  by (simp add: increment_allowed_attempts_def increment_delay_factor_def reset_context_def Let_def)

lemma state_reset [simp]: "pp_state (reset_context p) = pp_state p"
  by (simp add: reset_context_def)

lemma after_failures_state [simp]: "after_failures n (p\<lparr>pp_state := s\<rparr>) = after_failures n p"
  by (simp add: after_failures_def)

lemma lockout_counts:
  assumes "after_failures n p"
  shows "after_failures (Suc n) (lockout now' p)" and "pp_state (lockout now' p) = pp_state p"
    and "length (lockout_time (lockout now' p)) = 8"
    and "unat now' + delay_ticks (Suc n) < 2 ^ 64 \<Longrightarrow>
      unat (le_word (lockout_time (lockout now' p)) :: u64) = unat now' + delay_ticks (Suc n)"
  using set_lockout_time_ticks [OF increment_counts [OF assms]]
  by (simp_all add: lockout_def increment_counts [OF assms])

lemma failed_attempt:
  assumes "can_login now p" and "after_failures n p"
  shows "enforce_pin_policy now now' False p = (Err InvalidUserCredential, lockout now' (p\<lparr>pp_state := Lockout\<rparr>))"
proof (cases "pp_state p")
  case Lockout
  then have eq: "p\<lparr>pp_state := pin_policy_state.Lockout\<rparr> = p" by (cases p) simp
  show ?thesis unfolding eq using assms(1) Lockout by (simp add: enforce_pin_policy_def)
qed (use assms(1) in \<open>simp add: enforce_pin_policy_def\<close>)

lemma enforce_wf:
  assumes "pin_policy_wf p"
  shows "pin_policy_wf (snd (enforce_pin_policy now now' v p))"
proof -
  obtain n where n: "after_failures n p" using assms by (auto simp: pin_policy_wf_def)
  consider "\<not> can_login now p" | "can_login now p" "v" | "can_login now p" "\<not> v" by blast
  then show ?thesis
  proof cases
    case 1
    with assms show ?thesis by (simp add: enforce_pin_policy_def)
  next
    case 2
    have "pin_policy_wf (reset_context p)"
      by (auto simp: pin_policy_wf_def reset_context_def after_failures_0 intro: exI [of _ 0])
    with 2 assms show ?thesis by (simp add: enforce_pin_policy_def)
  next
    case 3
    let ?p = "p\<lparr>pp_state := Lockout\<rparr>"
    have "after_failures n ?p" using n by simp
    then have "pin_policy_wf (lockout now' ?p)"
      using lockout_counts [of n ?p now'] by (auto simp: pin_policy_wf_def)
    with 3 failed_attempt [OF 3(1) n, of now'] show ?thesis by simp
  qed
qed

lemma wf_bounds:
  assumes "pin_policy_wf p"
  shows "unat (allowed_attempts p) < 1000" and "unat (delay_factor p) \<le> 32"
proof -
  obtain n where n: "after_failures n p" using assms by (auto simp: pin_policy_wf_def)
  have "n mod 1000 < 1000" "delay_minutes n < 33" by (simp_all add: delay_minutes_def)
  with n show "unat (allowed_attempts p) < 1000" "unat (delay_factor p) \<le> 32"
    by (simp_all add: after_failures_def unsigned_of_nat take_bit_nat_eq_self)
qed

section \<open>Sequences of attempts\<close>

text \<open>An attempt: the two readings of the counter and whether the credential was right.\<close>

type_synonym attempt = "u64 \<times> u64 \<times> bool"

primrec policy_run :: "attempt list \<Rightarrow> pin_policy \<Rightarrow> unit hsm_result list \<times> pin_policy" where
  "policy_run [] p = ([], p)"
| "policy_run (a # as) p =
     (case a of (now, now', v) \<Rightarrow>
       let (r, p') = enforce_pin_policy now now' v p; (rs, q) = policy_run as p'
       in (r # rs, q))"

lemma run_wf: "pin_policy_wf p \<Longrightarrow> pin_policy_wf (snd (policy_run as p))"
proof (induction as arbitrary: p)
  case (Cons a as)
  obtain now now' v where a: "a = (now, now', v)" by (cases a)
  have "pin_policy_wf (snd (enforce_pin_policy now now' v p))" using Cons.prems by (rule enforce_wf)
  from Cons.IH [OF this] show ?case by (simp add: a Let_def split_beta)
qed simp

text \<open>
  The guesses that were let through, one after the other: their pairs of readings, none of them
  refused by the policy.
\<close>

primrec admitted :: "(u64 \<times> u64) list \<Rightarrow> pin_policy \<Rightarrow> bool" where
  "admitted [] p = True"
| "admitted (g # gs) p =
     (can_login (fst g) p \<and> admitted gs (snd (enforce_pin_policy (fst g) (snd g) False p)))"

text \<open>The counter never goes backwards, from \<open>t\<close> on, and stays below \<open>2 ^ 63\<close> ticks (4600 years).\<close>

primrec ticking :: "nat \<Rightarrow> (u64 \<times> u64) list \<Rightarrow> bool" where
  "ticking t [] = (t < 2 ^ 63)"
| "ticking t (g # gs) = (t \<le> unat (fst g) \<and> unat (fst g) \<le> unat (snd g) \<and> ticking (unat (snd g)) gs)"

text \<open>
  The guesses of a caller who only presents wrong PINs that were evaluated, that is, not refused
  with \<open>LoginFailed\<close>.
\<close>

primrec evaluated :: "(u64 \<times> u64) list \<Rightarrow> pin_policy \<Rightarrow> (u64 \<times> u64) list" where
  "evaluated [] p = []"
| "evaluated (g # gs) p =
     (case enforce_pin_policy (fst g) (snd g) False p of (r, p') \<Rightarrow>
       if r = Err LoginFailed then evaluated gs p' else g # evaluated gs p')"

lemma wrong_refused: "fst (enforce_pin_policy now now' False p) = Err LoginFailed \<longleftrightarrow> \<not> can_login now p"
  by (simp add: enforce_pin_policy_def Let_def)

lemma refused_unchanged: "\<not> can_login now p \<Longrightarrow> enforce_pin_policy now now' v p = (Err LoginFailed, p)"
  by (simp add: enforce_pin_policy_def)

lemma admitted_evaluated: "admitted (evaluated gs p) p"
proof (induction gs arbitrary: p)
  case (Cons g gs)
  then show ?case
    using wrong_refused [of "fst g" "snd g" p]
    by (cases "can_login (fst g) p") (auto simp: refused_unchanged split: prod.splits)
qed simp

lemma ticking_weaken: "ticking t gs \<Longrightarrow> s \<le> t \<Longrightarrow> ticking s gs"
  by (cases gs) auto

lemma ticking_evaluated: "ticking t gs \<Longrightarrow> ticking t (evaluated gs p)"
proof (induction gs arbitrary: t p)
  case (Cons g gs)
  from Cons.prems have "ticking (unat (snd g)) gs" "t \<le> unat (snd g)" by simp_all
  then have "ticking (unat (snd g)) (evaluated gs q)" "ticking t (evaluated gs q)" for q
    using Cons.IH ticking_weaken by blast+
  with Cons.prems show ?case by (simp split: prod.splits)
qed simp

lemma ticking_bound: "ticking t gs \<Longrightarrow> t < 2 ^ 63"
proof (induction gs arbitrary: t)
  case (Cons g gs)
  from Cons.IH [of "unat (snd g)"] Cons.prems show ?case by simp
qed simp

lemma delay_ticks_bound: "delay_ticks n \<le> 120000000000"
proof -
  have "delay_minutes n < 33" by (simp add: delay_minutes_def)
  then show ?thesis by (simp add: delay_ticks_def)
qed

text \<open>After \<open>n\<close> guesses, the last at \<open>t\<close>, the next one has to wait for the delay.\<close>

lemma admitted_waits:
  assumes "after_failures n p" and "pp_state p = Lockout"
    and "unat (le_word (lockout_time p) :: u64) = t + delay_ticks n"
    and "admitted gs p" and "ticking t gs" and "gs \<noteq> []"
  shows "t + (\<Sum>k = n..<n + length gs. delay_ticks k) \<le> unat (fst (last gs))"
  using assms
proof (induction gs arbitrary: n p t)
  case (Cons g gs)
  obtain now now' where g: "g = (now, now')" by (cases g)
  have login: "can_login now p" using Cons.prems(4) by (simp add: g)
  then have now: "t + delay_ticks n \<le> unat now"
    using Cons.prems(2,3) by (simp add: can_login_def word_le_nat_alt)
  define p' where "p' = lockout now' (p\<lparr>pp_state := Lockout\<rparr>)"
  have next_p: "snd (enforce_pin_policy now now' False p) = p'"
    using failed_attempt [OF login Cons.prems(1), of now'] by (simp add: p'_def)
  have af: "after_failures n (p\<lparr>pp_state := Lockout\<rparr>)" using Cons.prems(1) by simp
  have "unat now' < 2 ^ 63" using ticking_bound [of "unat now'" gs] Cons.prems(5) by (simp add: g)
  then have lt: "unat (le_word (lockout_time p') :: u64) = unat now' + delay_ticks (Suc n)"
    unfolding p'_def using delay_ticks_bound [of "Suc n"] by (intro lockout_counts(4) [OF af]) simp
  show ?case
  proof (cases "gs = []")
    case True
    then show ?thesis using now by (simp add: g)
  next
    case False
    have "unat now' + (\<Sum>k = Suc n..<Suc n + length gs. delay_ticks k) \<le> unat (fst (last gs))"
    proof (rule Cons.IH [OF _ _ lt _ _ False])
      show "after_failures (Suc n) p'" "pp_state p' = Lockout"
        unfolding p'_def using lockout_counts(1,2) [OF af, of now'] by simp_all
      show "admitted gs p'" "ticking (unat now') gs" using Cons.prems(4,5) next_p by (simp_all add: g)
    qed
    moreover have "(\<Sum>k = n..<n + length (g # gs). delay_ticks k) =
        delay_ticks n + (\<Sum>k = Suc n..<Suc n + length gs. delay_ticks k)"
      by (simp add: sum.atLeast_Suc_lessThan)
    ultimately show ?thesis using now Cons.prems(5) False by (simp add: g)
  qed
qed simp

text \<open>A whole cycle of the delays: 33000 guesses take at least 31680000 seconds.\<close>

lemma sum_thousand: "(\<Sum>k < 1000 * j. f (k div 1000)) = 1000 * (\<Sum>d < (j::nat). f d :: nat)"
proof (induction j)
  case (Suc j)
  have "(\<Sum>k < 1000 * Suc j. f (k div 1000)) =
      (\<Sum>k < 1000 * j. f (k div 1000)) + (\<Sum>k = 1000 * j..<1000 * j + 1000. f (k div 1000))"
    by (simp add: lessThan_atLeast0 sum.atLeastLessThan_concat add.commute)
  also have "(\<Sum>k = 1000 * j..<1000 * j + 1000. f (k div 1000)) = (\<Sum>k = 1000 * j..<1000 * j + 1000. f j)"
    by (intro sum.cong refl arg_cong [where f = f]) (auto simp: div_nat_eqI)
  finally show ?case by (simp add: Suc.IH)
qed simp

lemma delay_cycle: "(\<Sum>k < 33000 * m. delay_ticks k) = m * 31680000 * 62500000"
proof -
  have "(\<Sum>k < 33000 * m. delay_ticks k) = (\<Sum>k < 1000 * (33 * m). (\<lambda>d. d mod 33 * 3750000000) (k div 1000))"
    by (simp add: delay_ticks_def delay_minutes_def)
  also have "\<dots> = 1000 * (\<Sum>d < 33 * m. d mod 33 * 3750000000)"
    by (rule sum_thousand)
  also have "(\<Sum>d < 33 * m. d mod 33 * 3750000000) = m * (528 * 3750000000)"
  proof (induction m)
    case (Suc m)
    have "(\<Sum>d < 33 * Suc m. d mod 33 * 3750000000) =
        (\<Sum>d < 33 * m. d mod 33 * 3750000000) + (\<Sum>d = 33 * m..<33 * m + 33. d mod 33 * 3750000000 :: nat)"
      by (simp add: lessThan_atLeast0 sum.atLeastLessThan_concat add.commute)
    also have "(\<Sum>d = 33 * m..<33 * m + 33. d mod 33 * 3750000000 :: nat) = (\<Sum>d = 0..<33. d * 3750000000)"
      using sum.shift_bounds_nat_ivl [of "\<lambda>d. d mod 33 * 3750000000 :: nat" 0 "33 * m" 33]
      by (simp add: add.commute)
    also have "(\<Sum>d = 0..<33. d * 3750000000 :: nat) = 528 * 3750000000"
      by (simp add: sum_distrib_right [symmetric] Sum_Ico_nat)
    finally show ?case by (simp add: Suc.IH)
  qed simp
  finally show ?thesis by simp
qed

lemma delay_cycles_le:
  assumes "33000 * m < n"
  shows "m * 31680000 * 62500000 \<le> (\<Sum>k = 1..<n. delay_ticks k)"
proof -
  have "(\<Sum>k < 33000 * m. delay_ticks k) \<le> (\<Sum>k < n. delay_ticks k)"
    using assms by (intro sum_mono2) auto
  also have "(\<Sum>k < n. delay_ticks k) = delay_ticks 0 + (\<Sum>k = 1..<n. delay_ticks k)"
    using assms by (simp add: lessThan_atLeast0 sum.atLeast_Suc_lessThan)
  also have "delay_ticks 0 = 0" by (simp add: delay_ticks_def delay_minutes_def)
  finally show ?thesis unfolding delay_cycle by simp
qed

section \<open>After a successful login\<close>

text \<open>Two policies that only differ in the state, with no failure counted and no lockout.\<close>

definition is_new :: "pin_policy \<Rightarrow> bool" where
  "is_new p \<longleftrightarrow> lockout_time p = replicate 8 0 \<and> allowed_attempts p = 0 \<and> delay_factor p = 0"

definition like_new :: "pin_policy \<Rightarrow> pin_policy \<Rightarrow> bool" where
  "like_new p q \<longleftrightarrow> p = q \<or> is_new p \<and> is_new q"

lemma is_new_login: "is_new p \<Longrightarrow> can_login now p"
  by (simp add: is_new_def can_login_def le_word_zeros)

lemma is_new_locked:
  "is_new p \<Longrightarrow> p\<lparr>pp_state := Lockout\<rparr> = pin_policy_default\<lparr>pp_state := Lockout\<rparr>"
  by (cases p) (simp add: is_new_def pin_policy_default_def)

lemma is_new_wrong:
  assumes "is_new p"
  shows "enforce_pin_policy now now' False p =
    (Err InvalidUserCredential, lockout now' (pin_policy_default\<lparr>pp_state := Lockout\<rparr>))"
proof -
  have "after_failures 0 p" using assms by (simp add: is_new_def after_failures_0)
  from failed_attempt [OF is_new_login [OF assms] this] show ?thesis
    unfolding is_new_locked [OF assms] .
qed

lemma reset_is_new: "is_new (reset_context p)"
  by (simp add: is_new_def reset_context_def)

lemma is_new_right:
  "is_new p \<Longrightarrow> fst (enforce_pin_policy now now' True p) = Ok () \<and>
     is_new (snd (enforce_pin_policy now now' True p))"
  by (simp add: enforce_pin_policy_def is_new_login reset_is_new)

lemma like_new_step:
  assumes "like_new p q"
  shows "fst (enforce_pin_policy now now' v p) = fst (enforce_pin_policy now now' v q) \<and>
    like_new (snd (enforce_pin_policy now now' v p)) (snd (enforce_pin_policy now now' v q))"
proof (cases "p = q")
  case False
  with assms have "is_new p" "is_new q" by (simp_all add: like_new_def)
  then show ?thesis by (cases v) (simp_all add: like_new_def is_new_wrong is_new_right)
qed (simp add: like_new_def)

lemma like_new_run: "like_new p q \<Longrightarrow> fst (policy_run as p) = fst (policy_run as q)"
proof (induction as arbitrary: p q)
  case (Cons a as)
  obtain now now' v where a: "a = (now, now', v)" by (cases a)
  note step = like_new_step [OF Cons.prems, of now now' v]
  from Cons.IH [OF conjunct2 [OF step]] step show ?case by (simp add: a Let_def split_beta)
qed simp

section \<open>Properties\<close>

text \<open>
  C4: guessing a PIN is slow. When a caller presents wrong PINs, in whatever number and at whatever
  times, the time between the first and the last guess that the policy evaluates (all others are
  refused) is at least the sum of the delays that were due in between, one minute more after every
  thousand guesses up to thirty-two minutes; so every 33000 evaluated guesses take at least
  31680000 seconds (more than 366 days), for a counter that does not go backwards or reach \<open>2 ^ 63\<close>.
\<close>

theorem guessing_is_slow:
  assumes "evaluated as pin_policy_default = g # gs" and "ticking 0 as" and "gs \<noteq> []"
  shows "unat (snd g) + (\<Sum>k = 1..<length (g # gs). delay_ticks k) \<le> unat (fst (last gs)) \<and>
    (33000 * m < length (g # gs) \<longrightarrow>
       unat (snd g) + m * 31680000 * unat tsc_freq_hz \<le> unat (fst (last gs)))"
proof -
  have adm: "admitted (g # gs) pin_policy_default" and tick: "ticking 0 (g # gs)"
    using admitted_evaluated [of "as" pin_policy_default]
      ticking_evaluated [OF assms(2), of pin_policy_default] by (simp_all only: assms(1))
  let ?d = "pin_policy_default\<lparr>pp_state := Lockout\<rparr>"
  define p where "p = lockout (snd g) ?d"
  have new: "is_new pin_policy_default" by (simp add: is_new_def pin_policy_default_def)
  have af: "after_failures 0 ?d" by (simp add: after_failures_0 pin_policy_default_def)
  have "unat (snd g) < 2 ^ 63" using ticking_bound [of "unat (snd g)" gs] tick by simp
  then have lt: "unat (le_word (lockout_time p) :: u64) = unat (snd g) + delay_ticks (Suc 0)"
    unfolding p_def using delay_ticks_bound [of "Suc 0"] by (intro lockout_counts(4) [OF af]) simp
  have "unat (snd g) + (\<Sum>k = Suc 0..<Suc 0 + length gs. delay_ticks k) \<le> unat (fst (last gs))"
  proof (rule admitted_waits [OF _ _ lt _ _ assms(3)])
    show "after_failures (Suc 0) p" "pp_state p = Lockout"
      unfolding p_def using lockout_counts(1,2) [OF af, of "snd g"] by simp_all
    show "admitted gs p" "ticking (unat (snd g)) gs"
      using adm tick by (simp_all add: is_new_wrong [OF new] p_def)
  qed
  then have total: "unat (snd g) + (\<Sum>k = 1..<length (g # gs). delay_ticks k) \<le> unat (fst (last gs))"
    by simp
  have freq: "unat tsc_freq_hz = 62500000" by (simp add: tsc_freq_hz_def)
  have "unat (snd g) + m * 31680000 * unat tsc_freq_hz \<le> unat (fst (last gs))"
    if "33000 * m < length (g # gs)"
    unfolding freq using delay_cycles_le [OF that] total by linarith
  with total show ?thesis by blast
qed

theorem guessing_is_slow_witness:
  "evaluated [(5, 6), (7, 8), (8, 9)] pin_policy_default = [(5, 6), (7, 8), (8, 9)] \<and>
   ticking 0 [(5, 6), (7, 8), (8, 9)] \<and>
   unat (6 :: u64) + (\<Sum>k = 1..<3. delay_ticks k) \<le> unat (8 :: u64)"
proof -
  have e: "evaluated [(5, 6), (7, 8), (8, 9)] pin_policy_default = [(5, 6), (7, 8), (8, 9)]" by code_simp
  have t: "ticking 0 [(5, 6), (7, 8), (8, 9)]" by simp
  from guessing_is_slow [OF e t, of 0] e t show ?thesis
    by (simp add: numeral_3_eq_3 del: evaluated.simps ticking.simps)
qed

text \<open>
  The lockout window. After a wrong PIN that was let through, when \<open>n\<close> wrong ones came before
  it since the last reset, every attempt at a reading before the end of the delay is refused with
  \<open>LoginFailed\<close> and changes nothing, even with the right PIN; from then on a right PIN is accepted
  and clears the counters.
\<close>

theorem lockout_window:
  assumes "after_failures n p" and "can_login now p"
    and "unat now' + delay_ticks (Suc n) < 2 ^ 64"
  shows "let p' = snd (enforce_pin_policy now now' False p)
         in after_failures (Suc n) p' \<and>
            enforce_pin_policy t t' v p' =
              (if unat t < unat now' + delay_ticks (Suc n) then (Err LoginFailed, p')
               else if v then (Ok (), reset_context p')
               else (Err InvalidUserCredential, lockout t' p'))"
proof -
  have af: "after_failures n (p\<lparr>pp_state := Lockout\<rparr>)" using assms(1) by simp
  define p' where "p' = lockout now' (p\<lparr>pp_state := Lockout\<rparr>)"
  note counts = lockout_counts [OF af, of now', folded p'_def]
  have "can_login t p' \<longleftrightarrow> \<not> unat t < unat now' + delay_ticks (Suc n)"
    using counts(2) counts(4) [OF assms(3)] by (simp add: can_login_def word_le_nat_alt not_less)
  then show ?thesis
    using counts(1,2) failed_attempt [OF assms(2,1), of now', folded p'_def]
    by (simp add: Let_def enforce_pin_policy_def)
qed

theorem lockout_window_witness:
  "let p = pin_policy_default\<lparr>pp_state := Lockout, allowed_attempts := 999\<rparr>;
       p' = snd (enforce_pin_policy 10 20 False p)
   in enforce_pin_policy 3750000019 3750000019 True p' = (Err LoginFailed, p') \<and>
      enforce_pin_policy 3750000020 3750000020 True p' = (Ok (), reset_context p')"
proof -
  let ?p = "pin_policy_default\<lparr>pp_state := Lockout, allowed_attempts := 999\<rparr>"
  have n: "after_failures 999 ?p"
    by (simp add: after_failures_def delay_minutes_def pin_policy_default_def)
  have l: "can_login 10 ?p" by (simp add: can_login_def pin_policy_default_def le_word_zeros)
  have d: "delay_ticks 1000 = 3750000000" by (simp add: delay_ticks_def delay_minutes_def)
  show ?thesis
    using lockout_window [OF n l, of 20 3750000019 3750000019 True]
      lockout_window [OF n l, of 20 3750000020 3750000020 True]
    by (simp add: d Let_def)
qed

text \<open>
  A successful login forgets the failures. Every later sequence of attempts gets the answers
  that a partition with a fresh policy would give, although the stored state stays in lockout.
\<close>

theorem success_is_fresh:
  assumes "can_login now p" and "pin_policy_wf p"
  shows "fst (enforce_pin_policy now now' True p) = Ok () \<and>
    fst (policy_run as (snd (enforce_pin_policy now now' True p))) = fst (policy_run as pin_policy_default)"
proof -
  have "is_new (snd (enforce_pin_policy now now' True p))"
    using assms by (cases "pp_state p")
      (auto simp: enforce_pin_policy_def reset_context_def is_new_def pin_policy_wf_def)
  then have "like_new (snd (enforce_pin_policy now now' True p)) pin_policy_default"
    by (simp add: like_new_def is_new_def pin_policy_default_def)
  from like_new_run [OF this, of "as"] assms(1) show ?thesis by (simp add: enforce_pin_policy_def)
qed

theorem success_is_fresh_witness:
  "let p = snd (enforce_pin_policy 10 20 False pin_policy_default)
   in fst (enforce_pin_policy 30 31 True p) = Ok () \<and>
      fst (policy_run [(1, 2, False)] (snd (enforce_pin_policy 30 31 True p))) = [Err InvalidUserCredential]"
proof -
  let ?p = "snd (enforce_pin_policy 10 20 False pin_policy_default)"
  have l: "can_login 30 ?p" by code_simp
  have w: "pin_policy_wf ?p" by (rule enforce_wf [OF pin_policy_default_wf(1)])
  have r: "fst (policy_run [(1, 2, False)] pin_policy_default) = [Err InvalidUserCredential]" by code_simp
  show ?thesis using success_is_fresh [OF l w, of 31 "[(1, 2, False)]"] r by (simp only: Let_def)
qed

text \<open>
  The counters stay in range. In every state that attempts can reach from a fresh policy,
  fewer than a thousand failures are counted, the delay factor is at most thirty-two, the lockout
  time has eight bytes, and the counters are those of some number of failures; so the increments
  never wrap, and a policy that is ready has nothing counted.
\<close>

theorem policy_invariant:
  "let p = snd (policy_run as pin_policy_default)
   in pin_policy_wf p \<and> unat (allowed_attempts p) < 1000 \<and> unat (delay_factor p) \<le> 32 \<and>
      unat (allowed_attempts p + 1) = unat (allowed_attempts p) + 1 \<and>
      unat (delay_factor p + 1) = unat (delay_factor p) + 1"
proof -
  let ?p = "snd (policy_run as pin_policy_default)"
  have wf: "pin_policy_wf ?p" by (rule run_wf [OF pin_policy_default_wf(1)])
  note b = wf_bounds [OF wf]
  have "unat (w + 1) = unat w + 1" if "unat w < 1000" for w :: u16
    using that by (simp add: unat_word_ariths)
  with b have "unat (allowed_attempts ?p + 1) = unat (allowed_attempts ?p) + 1"
    "unat (delay_factor ?p + 1) = unat (delay_factor ?p) + 1" by auto
  with wf b show ?thesis by (simp add: Let_def)
qed

end
