(* ===== verification/Credential_Mgr.thy ===== *)
theory Credential_Mgr
  imports Pin_Policy
begin

text \<open>
  The user credential of a partition (\<^verbatim>\<open>hsm/src/partition/cred_mgr.rs\<close>), and its use
  together with the PIN policy by \<^verbatim>\<open>authorize_user_with_pin_policy\<close> of
  \<^verbatim>\<open>hsm/src/partition/part.rs\<close>: the credential is compared first and the policy decides
  with the outcome.
\<close>

section \<open>The program\<close>

record user_credential =
  cred_id :: bytes
  cred_pin :: bytes
  cred_vault_id :: u8

definition user_credential_default :: user_credential where
  "user_credential_default = \<lparr>cred_id = replicate 16 0, cred_pin = replicate 16 0, cred_vault_id = 0\<rparr>"

record credential_mgr =
  mgr_user_cred :: user_credential

definition credential_mgr_default :: credential_mgr where
  "credential_mgr_default = \<lparr>mgr_user_cred = user_credential_default\<rparr>"

definition verify_user_cred_is_set :: "credential_mgr \<Rightarrow> bool" where
  "verify_user_cred_is_set m \<longleftrightarrow>
     cred_id (mgr_user_cred m) \<noteq> replicate 16 0 \<and> cred_pin (mgr_user_cred m) \<noteq> replicate 16 0"

definition change_user_cred ::
  "bytes \<Rightarrow> bytes \<Rightarrow> credential_mgr \<Rightarrow> unit hsm_result \<times> credential_mgr" where
  "change_user_cred i pin m =
     (if length i \<noteq> 16 \<or> length pin \<noteq> 16 then (Err InvalidUserCredential, m)
      else if i = replicate 16 0 \<or> pin = replicate 16 0 then (Err InvalidUserCredential, m)
      else (Ok (), m\<lparr>mgr_user_cred := \<lparr>cred_id = i, cred_pin = pin,
              cred_vault_id = cred_vault_id (mgr_user_cred m)\<rparr>\<rparr>))"

definition restore_user_cred :: "user_credential \<Rightarrow> credential_mgr \<Rightarrow> credential_mgr" where
  "restore_user_cred c m = m\<lparr>mgr_user_cred := c\<rparr>"

definition authorize_user :: "credential_mgr \<Rightarrow> bytes \<Rightarrow> bytes \<Rightarrow> bool" where
  "authorize_user m i pin =
     (if cred_id (mgr_user_cred m) = replicate 16 0 \<or> cred_pin (mgr_user_cred m) = replicate 16 0
      then False
      else cred_id (mgr_user_cred m) = i \<and> cred_pin (mgr_user_cred m) = pin)"

definition get_user_vault_id :: "credential_mgr \<Rightarrow> u8" where
  "get_user_vault_id m = cred_vault_id (mgr_user_cred m)"

definition clear_cred :: "credential_mgr \<Rightarrow> credential_mgr" where
  "clear_cred m = m\<lparr>mgr_user_cred := user_credential_default\<rparr>"

text \<open>The login of a partition: the credential manager and the policy it is checked under.\<close>

definition authorize_user_with_pin_policy ::
  "u64 \<Rightarrow> u64 \<Rightarrow> bytes \<Rightarrow> bytes \<Rightarrow> credential_mgr \<Rightarrow> pin_policy \<Rightarrow> unit hsm_result \<times> pin_policy" where
  "authorize_user_with_pin_policy now now' i pin m p =
     (let auth_result = authorize_user m i pin in enforce_pin_policy now now' auth_result p)"

section \<open>Invariant\<close>

text \<open>The arrays have sixteen bytes, and id and PIN are set together.\<close>

definition credential_mgr_wf :: "credential_mgr \<Rightarrow> bool" where
  "credential_mgr_wf m \<longleftrightarrow>
     length (cred_id (mgr_user_cred m)) = 16 \<and> length (cred_pin (mgr_user_cred m)) = 16 \<and>
     (cred_id (mgr_user_cred m) = replicate 16 0 \<longleftrightarrow> cred_pin (mgr_user_cred m) = replicate 16 0)"

lemma credential_mgr_default_wf: "credential_mgr_wf credential_mgr_default"
  by (simp add: credential_mgr_wf_def credential_mgr_default_def user_credential_default_def)

lemma clear_cred_wf: "credential_mgr_wf (clear_cred m)"
  by (simp add: credential_mgr_wf_def clear_cred_def user_credential_default_def)

lemma change_user_cred_wf: "credential_mgr_wf m \<Longrightarrow> credential_mgr_wf (snd (change_user_cred i pin m))"
  by (simp add: credential_mgr_wf_def change_user_cred_def)

lemma authorize_set: "authorize_user m i pin \<Longrightarrow> verify_user_cred_is_set m"
  by (auto simp: authorize_user_def verify_user_cred_is_set_def)

section \<open>Properties\<close>

text \<open>
  The credential that was set is the one that authorizes. A change is accepted exactly for
  sixteen bytes each, neither all zero; then exactly that pair is authorized, the vault id is kept
  and the credential counts as set. Otherwise nothing changes.
\<close>

theorem change_then_authorize:
  assumes "credential_mgr_wf m"
  shows "case change_user_cred i pin m of (r, m') \<Rightarrow>
    credential_mgr_wf m' \<and> get_user_vault_id m' = get_user_vault_id m \<and>
    (if length i = 16 \<and> length pin = 16 \<and> i \<noteq> replicate 16 0 \<and> pin \<noteq> replicate 16 0
     then r = Ok () \<and> verify_user_cred_is_set m' \<and>
       (\<forall>j q. authorize_user m' j q \<longleftrightarrow> j = i \<and> q = pin)
     else r = Err InvalidUserCredential \<and> m' = m)"
  using assms change_user_cred_wf [OF assms, of i pin]
  by (auto simp: change_user_cred_def get_user_vault_id_def verify_user_cred_is_set_def
      authorize_user_def split: if_splits)

theorem change_then_authorize_witness:
  "\<forall>j q. authorize_user (snd (change_user_cred (replicate 16 1) (replicate 16 2) credential_mgr_default)) j q
     \<longleftrightarrow> j = replicate 16 1 \<and> q = replicate 16 2"
  using change_then_authorize [OF credential_mgr_default_wf, of "replicate 16 1" "replicate 16 2"]
  by (simp add: split_beta)

text \<open>
  Nobody logs in to a partition without credential. While no credential is set (after a
  clear, or before the first one) a login fails whatever id and PIN it presents, all-zero ones
  included, and it counts as a failed attempt of the policy.
\<close>

theorem no_login_without_credential:
  assumes "\<not> verify_user_cred_is_set m"
  shows "\<not> authorize_user m i pin \<and> \<not> authorize_user (clear_cred m') i pin \<and>
    fst (authorize_user_with_pin_policy now now' i pin m p) =
      (if can_login now p then Err InvalidUserCredential else Err LoginFailed) \<and>
    authorize_user_with_pin_policy now now' i pin m p = enforce_pin_policy now now' False p"
proof -
  have no: "\<not> authorize_user m i pin" using assms authorize_set by blast
  moreover have "\<not> authorize_user (clear_cred m') i pin"
    by (simp add: authorize_user_def clear_cred_def user_credential_default_def)
  ultimately show ?thesis
    by (simp add: authorize_user_with_pin_policy_def Let_def enforce_pin_policy_def)
qed

theorem no_login_without_credential_witness:
  "fst (authorize_user_with_pin_policy 5 6 (replicate 16 0) (replicate 16 0)
     credential_mgr_default pin_policy_default) = Err InvalidUserCredential"
proof -
  have n: "\<not> verify_user_cred_is_set credential_mgr_default"
    by (simp add: verify_user_cred_is_set_def credential_mgr_default_def user_credential_default_def)
  have c: "can_login 5 pin_policy_default" by (simp add: can_login_def pin_policy_default_def)
  show ?thesis using no_login_without_credential [OF n, of "replicate 16 0" "replicate 16 0" m 5 6 pin_policy_default] c
    by metis
qed

end
