(* ===== verification/Bks_Table.thy ===== *)
theory Bks_Table
  imports Hsm_Prelude
begin

text \<open>
  The table of boot keys (\<^verbatim>\<open>hsm/src/partition/bks_table.rs\<close>): eleven entries of BKS1, one
  per security version number, the current one first, followed in memory by the entry of BKS2. The
  entry is \<^verbatim>\<open>BksTableEntry\<close> of \<^verbatim>\<open>types/src/hsm.rs\<close>: a valid byte, the number in
  eight little-endian bytes, and thirty-two bytes of key.
\<close>

section \<open>The program\<close>

definition NUM_BKS1_ENTRIES :: nat where
  "NUM_BKS1_ENTRIES = 11"

record bks_table_entry =
  bks_valid :: u8
  bks_svn :: bytes
  bks_key :: bytes

record bks_table =
  bks1_entries :: "bks_table_entry list"
  bks2_entry :: bks_table_entry

text \<open>\<^verbatim>\<open>repr(C)\<close> of byte fields: 41 bytes without padding.\<close>

definition bks_entry_at :: "nat \<Rightarrow> bytes \<Rightarrow> bks_table_entry" where
  "bks_entry_at off mem = \<lparr>bks_valid = mem ! off, bks_svn = slice (off + 1) 8 mem,
     bks_key = slice (off + 9) 32 mem\<rparr>"

definition bks_table_new :: "nat \<Rightarrow> bytes \<Rightarrow> bks_table" where
  "bks_table_new base mem =
     \<lparr>bks1_entries = map (\<lambda>i. bks_entry_at (base + 41 * i) mem) [0..<NUM_BKS1_ENTRIES],
      bks2_entry = bks_entry_at (base + 41 * NUM_BKS1_ENTRIES) mem\<rparr>"

definition get_bks1_current :: "bks_table \<Rightarrow> bytes" where
  "get_bks1_current t = bks_key (bks1_entries t ! 0)"

definition get_bks1 :: "bks_table \<Rightarrow> u64 \<Rightarrow> bytes option" where
  "get_bks1 t svn = map_option bks_key (find (\<lambda>e. bks_svn e = le_bytes 8 svn) (bks1_entries t))"

definition get_current_svn :: "bks_table \<Rightarrow> u64" where
  "get_current_svn t = le_word (bks_svn (bks1_entries t ! 0))"

definition get_bks2 :: "bks_table \<Rightarrow> bytes" where
  "get_bks2 t = bks_key (bks2_entry t)"

section \<open>Properties\<close>

definition bks_table_wf :: "bks_table \<Rightarrow> bool" where
  "bks_table_wf t \<longleftrightarrow> length (bks1_entries t) = NUM_BKS1_ENTRIES \<and>
     list_all (\<lambda>e. length (bks_svn e) = 8 \<and> length (bks_key e) = 32) (bks2_entry t # bks1_entries t)"

lemma bks_table_new_wf:
  assumes "base + 41 * 12 \<le> length mem"
  shows "bks_table_wf (bks_table_new base mem)"
  using assms
  by (auto simp: bks_table_wf_def bks_table_new_def bks_entry_at_def NUM_BKS1_ENTRIES_def list_all_iff)

lemma le_bytes_8_iff:
  assumes "length bs = 8"
  shows "bs = le_bytes 8 (svn :: u64) \<longleftrightarrow> le_word bs = svn"
  using assms le_bytes_le_word [of bs, where 'a = 64] le_word_le_bytes [of 8 svn] by auto

lemma find_number:
  assumes "list_all (\<lambda>e. length (bks_svn e) = 8) es"
  shows "find (\<lambda>e. bks_svn e = le_bytes 8 (svn :: u64)) es = find (\<lambda>e. le_word (bks_svn e) = svn) es"
  using assms by (induction es) (auto simp: le_bytes_8_iff)

text \<open>
  Reading the table from memory and looking a boot key up. The key of a number is the key of
  the first of the eleven entries that carries the number, and there is none exactly if no entry
  carries it; the current number finds the current key; every key has thirty-two bytes. No index
  or slice is out of range when the memory holds the twelve entries.
\<close>

theorem bks1_lookup:
  assumes "base + 41 * 12 \<le> length mem"
  shows "let t = bks_table_new base mem; es = bks1_entries t
         in get_bks1 t svn = map_option bks_key (find (\<lambda>e. le_word (bks_svn e) = svn) es) \<and>
            (get_bks1 t svn = None \<longleftrightarrow> (\<forall>i < NUM_BKS1_ENTRIES. le_word (bks_svn (es ! i)) \<noteq> svn)) \<and>
            get_bks1 t (get_current_svn t) = Some (get_bks1_current t) \<and>
            (\<forall>k. get_bks1 t svn = Some k \<longrightarrow> length k = 32) \<and> length (get_bks2 t) = 32"
proof -
  let ?t = "bks_table_new base mem"
  let ?es = "bks1_entries ?t"
  have wf: "bks_table_wf ?t" using assms by (rule bks_table_new_wf)
  then have len: "length ?es = NUM_BKS1_ENTRIES" "\<And>e. e \<in> set ?es \<Longrightarrow> length (bks_key e) = 32"
    "list_all (\<lambda>e. length (bks_svn e) = 8) ?es"
    by (auto simp: bks_table_wf_def list_all_iff)
  have get: "get_bks1 ?t n = map_option bks_key (find (\<lambda>e. le_word (bks_svn e) = n) ?es)" for n
    unfolding get_bks1_def find_number [OF len(3)] ..
  have "?es \<noteq> []" using len(1) by (auto simp: NUM_BKS1_ENTRIES_def)
  then have "get_bks1 ?t (get_current_svn ?t) = Some (get_bks1_current ?t)"
    unfolding get by (cases ?es) (simp_all add: get_current_svn_def get_bks1_current_def)
  moreover have "get_bks1 ?t svn = None \<longleftrightarrow> (\<forall>i < NUM_BKS1_ENTRIES. le_word (bks_svn (?es ! i)) \<noteq> svn)"
    unfolding get by (simp add: find_None_iff in_set_conv_nth flip: len(1)) (metis in_set_conv_nth len(1))
  moreover have "length k = 32" if "get_bks1 ?t svn = Some k" for k
    using that len(2) unfolding get by (auto simp: find_Some_iff)
  moreover have "length (get_bks2 ?t) = 32" using wf by (simp add: get_bks2_def bks_table_wf_def)
  ultimately show ?thesis by (simp add: Let_def get)
qed

theorem bks1_lookup_witness:
  "get_bks1 (bks_table_new 0 (replicate 492 0)) 0 = Some (get_bks1_current (bks_table_new 0 (replicate 492 0)))"
proof -
  have "get_current_svn (bks_table_new 0 (replicate 492 0)) = 0"
    by (simp add: get_current_svn_def bks_table_new_def NUM_BKS1_ENTRIES_def bks_entry_at_def slice_def
        upt_conv_Cons take_replicate numeral_eq_Suc)
  moreover have "get_bks1 (bks_table_new 0 (replicate 492 0)) (get_current_svn (bks_table_new 0 (replicate 492 0))) =
      Some (get_bks1_current (bks_table_new 0 (replicate 492 0)))"
    using bks1_lookup [of 0 "replicate 492 0" 0] by (simp only: Let_def length_replicate)
  ultimately show ?thesis by simp
qed

end
