(* ===== verification/Mbor.thy ===== *)
theory Mbor
  imports Hsm_Prelude
begin

text \<open>
  The binary object representation of the device interface (\<^verbatim>\<open>serde/ddi/mbor\<close>): the
  encoder and decoder over a buffer, and the representations of integers, booleans, map headers,
  byte slices and padded byte arrays. The firmware is built without the feature
  \<^verbatim>\<open>array\<close>: a byte array is an address and a length, decoding returns an address inside the
  buffer, and encoding moves the array into the buffer (a null address only reserves the space).
  So encoder and decoder work on a memory, of which the buffer is the part of \<open>enc_len\<close> bytes at
  \<open>enc_base\<close>. Addresses and lengths are unbounded here; on the device they are 32-bit and the
  buffers are a few kilobytes.
\<close>

section \<open>Encoder and decoder\<close>

datatype mbor_encode_error = BufferOverflow | EncDerDecodeFailed | EncInvalidLen

datatype (plugins only: code size) mbor_decode_error =
  BufferUnderFlow | ExpectedMap | ExpectedU8 | ExpectedU16 | ExpectedU32 | ExpectedBool
  | DecodeU8 | DecodeU16 | DecodeU32 | DecodeU64 | DecodeU8N | InvalidId | InvalidLen
  | InvalidPadding | DecInvalidKeyType | InvalidKeyData

record mbor_encoder =
  enc_mem :: bytes
  enc_base :: nat
  enc_len :: nat
  enc_pos :: nat

record mbor_decoder =
  dec_mem :: bytes
  dec_base :: nat
  dec_len :: nat
  dec_pos :: nat

type_synonym 'a enc_op = "mbor_encoder \<Rightarrow> (mbor_encode_error, 'a) outcome \<times> mbor_encoder"

type_synonym 'a dec_op = "mbor_decoder \<Rightarrow> (mbor_decode_error, 'a) outcome \<times> mbor_decoder"

definition encoder_new :: "bytes \<Rightarrow> nat \<Rightarrow> nat \<Rightarrow> mbor_encoder" where
  "encoder_new mem base len = \<lparr>enc_mem = mem, enc_base = base, enc_len = len, enc_pos = 0\<rparr>"

definition enc_remaining :: "mbor_encoder \<Rightarrow> nat" where
  "enc_remaining e = enc_len e - enc_pos e"

definition enc_addr :: "mbor_encoder \<Rightarrow> nat" where
  "enc_addr e = enc_base e + enc_pos e"

definition enc_skip :: "nat \<Rightarrow> unit enc_op" where
  "enc_skip n e =
     (if n + enc_pos e > enc_len e then (Err BufferOverflow, e)
      else (Ok (), e\<lparr>enc_pos := enc_pos e + n\<rparr>))"

definition enc_write :: "bytes \<Rightarrow> unit enc_op" where
  "enc_write v e =
     (if length v + enc_pos e > enc_len e then (Err BufferOverflow, e)
      else (Ok (), e\<lparr>enc_mem := mem_write (enc_addr e) v (enc_mem e),
                     enc_pos := enc_pos e + length v\<rparr>))"

definition decoder_new :: "bytes \<Rightarrow> nat \<Rightarrow> nat \<Rightarrow> mbor_decoder" where
  "decoder_new mem base len = \<lparr>dec_mem = mem, dec_base = base, dec_len = len, dec_pos = 0\<rparr>"

definition dec_addr :: "mbor_decoder \<Rightarrow> nat" where
  "dec_addr d = dec_base d + dec_pos d"

definition dec_bytes :: "nat \<Rightarrow> bytes dec_op" where
  "dec_bytes n d =
     (if n + dec_pos d > dec_len d then (Err BufferUnderFlow, d)
      else (Ok (slice (dec_addr d) n (dec_mem d)), d\<lparr>dec_pos := dec_pos d + n\<rparr>))"

definition dec_byte :: "u8 dec_op" where
  "dec_byte = then_op (dec_bytes 1) (\<lambda>bs d. (Ok (bs ! 0), d))"

definition dec_skip :: "nat \<Rightarrow> unit dec_op" where
  "dec_skip n d =
     (if n + dec_pos d > dec_len d then (Err BufferUnderFlow, d)
      else (Ok (), d\<lparr>dec_pos := dec_pos d + n\<rparr>))"

definition peek_u8 :: "mbor_decoder \<Rightarrow> u8 option" where
  "peek_u8 d = (case fst (dec_bytes 2 d) of Ok bs \<Rightarrow> Some (bs ! 1) | _ \<Rightarrow> None)"

definition peek_byte :: "mbor_decoder \<Rightarrow> u8 option" where
  "peek_byte d = (case fst (dec_byte d) of Ok b \<Rightarrow> Some b | _ \<Rightarrow> None)"

section \<open>Representations\<close>

definition MAP_MARKER :: u8 where "MAP_MARKER = 0xA0"
definition MAP_FIELD_COUNT_MASK :: u8 where "MAP_FIELD_COUNT_MASK = 0x1F"
definition BOOL_MARKER :: u8 where "BOOL_MARKER = 0x14"
definition BYTES_MARKER :: u8 where "BYTES_MARKER = 0x80"
definition BYTES_PAD_MASK :: u8 where "BYTES_PAD_MASK = 3"
definition UINT_MARKER :: u8 where "UINT_MARKER = 0x18"
definition U8_MARKER :: u8 where "U8_MARKER = UINT_MARKER OR 0"
definition U16_MARKER :: u8 where "U16_MARKER = UINT_MARKER OR 1"
definition U32_MARKER :: u8 where "U32_MARKER = UINT_MARKER OR 2"
definition U64_MARKER :: u8 where "U64_MARKER = UINT_MARKER OR 3"

definition pad4 :: "u32 \<Rightarrow> u32" where
  "pad4 len = ((len + 3) AND NOT 3) - len"

record mbor_byte_array =
  ba_ptr :: nat
  ba_len :: nat

definition ba_slice :: "bytes \<Rightarrow> mbor_byte_array \<Rightarrow> bytes" where
  "ba_slice mem a = slice (ba_ptr a) (ba_len a) mem"

subsection \<open>Encoding\<close>

definition encode_map :: "u8 \<Rightarrow> unit enc_op" where
  "encode_map c = enc_write [MAP_MARKER OR (MAP_FIELD_COUNT_MASK AND c)]"

definition encode_u8 :: "u8 \<Rightarrow> unit enc_op" where
  "encode_u8 x = then_op (enc_write [U8_MARKER]) (\<lambda>_. enc_write [x])"

definition encode_u16 :: "u16 \<Rightarrow> unit enc_op" where
  "encode_u16 x = then_op (enc_write [U16_MARKER]) (\<lambda>_. enc_write (be_bytes 2 x))"

definition encode_u32 :: "u32 \<Rightarrow> unit enc_op" where
  "encode_u32 x = then_op (enc_write [U32_MARKER]) (\<lambda>_. enc_write (be_bytes 4 x))"

definition encode_u64 :: "u64 \<Rightarrow> unit enc_op" where
  "encode_u64 x = then_op (enc_write [U64_MARKER]) (\<lambda>_. enc_write (be_bytes 8 x))"

definition encode_bool :: "bool \<Rightarrow> unit enc_op" where
  "encode_bool x = enc_write [BOOL_MARKER + (if x then 1 else 0)]"

definition encode_slice :: "bytes \<Rightarrow> unit enc_op" where
  "encode_slice v =
     then_op (enc_write [BYTES_MARKER]) (\<lambda>_.
     then_op (enc_write (be_bytes 2 (of_nat (length v) :: u16))) (\<lambda>_. enc_write v))"

primrec enc_zeros :: "nat \<Rightarrow> unit enc_op" where
  "enc_zeros 0 e = (Ok (), e)"
| "enc_zeros (Suc n) e = then_op (enc_write [0]) (\<lambda>_. enc_zeros n) e"

text \<open>
  \<^verbatim>\<open>MborPaddedByteArray\<close>: the result is the array after the call, which is at the place of
  its bytes in the buffer. The bytes are read where the array was, unless that is null.
\<close>

definition encode_padded :: "nat \<Rightarrow> u8 \<Rightarrow> mbor_byte_array \<Rightarrow> mbor_byte_array enc_op" where
  "encode_padded cap pad a e =
     (if ba_len a > cap then (Err BufferOverflow, e)
      else
        let pad = BYTES_PAD_MASK AND pad in
        then_op (enc_write [BYTES_MARKER OR pad]) (\<lambda>_.
        then_op (enc_write (be_bytes 2 (of_nat (ba_len a) :: u16))) (\<lambda>_.
        then_op (enc_zeros (unat pad)) (\<lambda>_ e.
          let a' = a\<lparr>ba_ptr := enc_addr e\<rparr> in
          if ba_ptr a = 0 then then_op (enc_skip (ba_len a)) (\<lambda>_ e. (Ok a', e)) e
          else then_op (enc_write (ba_slice (enc_mem e) a)) (\<lambda>_ e. (Ok a', e)) e))) e)"

subsection \<open>Decoding\<close>

definition decode_map :: "u8 dec_op" where
  "decode_map = then_op dec_byte (\<lambda>b d.
     if b AND MAP_MARKER \<noteq> MAP_MARKER then (Err ExpectedMap, d)
     else (Ok (b AND MAP_FIELD_COUNT_MASK), d))"

definition decode_u8 :: "u8 dec_op" where
  "decode_u8 = then_op (dec_bytes 2) (\<lambda>bs d. (Ok (bs ! 1), d))"

definition decode_u16 :: "u16 dec_op" where
  "decode_u16 = then_op (dec_bytes 3) (\<lambda>bs d. (Ok (be_word (drop 1 bs)), d))"

definition decode_u32 :: "u32 dec_op" where
  "decode_u32 = then_op (dec_bytes 5) (\<lambda>bs d. (Ok (be_word (drop 1 bs)), d))"

definition decode_u64 :: "u64 dec_op" where
  "decode_u64 = then_op (dec_bytes 9) (\<lambda>bs d. (Ok (be_word (drop 1 bs)), d))"

definition decode_bool :: "bool dec_op" where
  "decode_bool = then_op dec_byte (\<lambda>b d.
     let b = b AND NOT BOOL_MARKER in
     if b = 0 then (Ok False, d) else if b = 1 then (Ok True, d) else (Err ExpectedBool, d))"

definition decode_array :: "nat \<Rightarrow> bytes dec_op" where
  "decode_array n = then_op dec_byte (\<lambda>marker d.
     if marker AND BYTES_MARKER \<noteq> BYTES_MARKER then (Err ExpectedU8, d)
     else if marker AND BYTES_PAD_MASK \<noteq> 0 then (Err InvalidPadding, d)
     else then_op (dec_bytes 2) (\<lambda>bs d.
       let len = (be_word bs :: u16) in
       if len \<noteq> of_nat n then (Err InvalidLen, d)
       else then_op (dec_bytes (unat len)) (\<lambda>data d.
         if length data = n then (Ok data, d) else (Err DecodeU8N, d)) d) d)"

definition decode_byte_array :: "nat \<Rightarrow> mbor_byte_array dec_op" where
  "decode_byte_array cap = then_op dec_byte (\<lambda>marker d.
     if marker AND BYTES_MARKER \<noteq> BYTES_MARKER then (Err ExpectedU8, d)
     else then_op (dec_bytes 2) (\<lambda>bs d.
       let len = (be_word bs :: u16) in
       if len > of_nat cap then (Err BufferUnderFlow, d)
       else then_op (dec_skip (unat (marker AND BYTES_PAD_MASK))) (\<lambda>_ d.
         let a = \<lparr>ba_ptr = dec_addr d, ba_len = unat len\<rparr>
         in then_op (dec_skip (unat len)) (\<lambda>_ d. (Ok a, d)) d) d) d)"

subsection \<open>Lengths\<close>

definition len_uint :: "nat \<Rightarrow> nat \<Rightarrow> nat" where
  "len_uint n acc = acc + (1 + n)"

definition len_bool :: "nat \<Rightarrow> nat" where
  "len_bool acc = acc + 1"

definition len_map :: "nat \<Rightarrow> nat" where
  "len_map acc = acc + 1"

definition len_slice :: "bytes \<Rightarrow> nat \<Rightarrow> nat" where
  "len_slice v acc = acc + 1 + 2 + length v"

definition len_padded :: "u8 \<Rightarrow> mbor_byte_array \<Rightarrow> nat \<Rightarrow> nat" where
  "len_padded pad a acc = acc + 1 + 2 + unat pad + ba_len a"

end
