(* ===== verification/Mbor_Codec.thy ===== *)
theory Mbor_Codec
  imports Mbor
begin

text \<open>
  What the representations of \<^verbatim>\<open>serde/ddi/mbor\<close> promise to the code that is built on them.
  An encoder appends bytes to its buffer and touches nothing else (\<open>wrote\<close>); a decoder turns
  these bytes, wherever it meets them, into the value and moves past them (\<open>parses\<close>). The locale
  \<open>mbor_codec\<close> is the contract of a pair of the traits \<^verbatim>\<open>MborEncode\<close> and
  \<^verbatim>\<open>MborDecode\<close>, with its exact length; it is interpreted on every representation.
\<close>

section \<open>Appending and parsing bytes\<close>

definition enc_wf :: "mbor_encoder \<Rightarrow> bool" where
  "enc_wf e \<longleftrightarrow> enc_base e + enc_len e \<le> length (enc_mem e) \<and> enc_pos e \<le> enc_len e"

definition enc_frame :: "mbor_encoder \<Rightarrow> mbor_encoder \<Rightarrow> bool" where
  "enc_frame e e' \<longleftrightarrow> enc_base e' = enc_base e \<and> enc_len e' = enc_len e \<and>
     length (enc_mem e') = length (enc_mem e) \<and> enc_pos e \<le> enc_pos e' \<and> enc_pos e' \<le> enc_len e \<and>
     (\<forall>i < length (enc_mem e). i < enc_addr e \<or> enc_addr e' \<le> i \<longrightarrow> enc_mem e' ! i = enc_mem e ! i)"

definition wrote :: "mbor_encoder \<Rightarrow> bytes \<Rightarrow> mbor_encoder \<Rightarrow> bool" where
  "wrote e bs e' \<longleftrightarrow> enc_frame e e' \<and> enc_pos e' = enc_pos e + length bs \<and>
     slice (enc_addr e) (length bs) (enc_mem e') = bs"

definition has_input :: "mbor_decoder \<Rightarrow> bytes \<Rightarrow> bool" where
  "has_input d bs \<longleftrightarrow> dec_base d + dec_len d \<le> length (dec_mem d) \<and>
     dec_pos d + length bs \<le> dec_len d \<and> slice (dec_addr d) (length bs) (dec_mem d) = bs"

definition dec_forward :: "nat \<Rightarrow> mbor_decoder \<Rightarrow> mbor_decoder" where
  "dec_forward n d = d\<lparr>dec_pos := dec_pos d + n\<rparr>"

definition parses :: "'a dec_op \<Rightarrow> bytes \<Rightarrow> nat \<Rightarrow> 'a \<Rightarrow> bool" where
  "parses dec bs a x \<longleftrightarrow>
     (\<forall>d. has_input d bs \<and> dec_addr d = a \<longrightarrow> dec d = (Ok x, dec_forward (length bs) d))"

lemma enc_wf_frame: "enc_wf e \<Longrightarrow> enc_frame e e' \<Longrightarrow> enc_wf e'"
  by (auto simp: enc_wf_def enc_frame_def)

lemma enc_frame_refl: "enc_wf e \<Longrightarrow> enc_frame e e"
  by (simp add: enc_frame_def enc_wf_def)

lemma enc_frame_trans: "enc_frame e1 e2 \<Longrightarrow> enc_frame e2 e3 \<Longrightarrow> enc_frame e1 e3"
  by (auto simp: enc_frame_def enc_addr_def)

lemma wrote_frame: "wrote e bs e' \<Longrightarrow> enc_frame e e'"
  by (simp add: wrote_def)

lemma wrote_addr: "wrote e bs e' \<Longrightarrow> enc_addr e' = enc_addr e + length bs"
  by (simp add: wrote_def enc_frame_def enc_addr_def)

lemma wrote_pos: "wrote e bs e' \<Longrightarrow> enc_pos e' = enc_pos e + length bs"
  by (simp add: wrote_def)

lemma slice_Nil [simp]: "slice off 0 m = []"
  by (simp add: slice_def)

lemma wrote_Nil: "enc_wf e \<Longrightarrow> wrote e [] e"
  by (simp add: wrote_def enc_frame_refl)

lemma wrote_append:
  assumes "enc_wf e" and "wrote e as e1" and "wrote e1 bs e2"
  shows "wrote e (as @ bs) e2"
proof -
  have fr: "enc_frame e e1" "enc_frame e1 e2" using assms(2,3) by (simp_all add: wrote_def)
  have a1: "enc_addr e1 = enc_addr e + length as" by (rule wrote_addr [OF assms(2)])
  have range: "enc_addr e + length as \<le> length (enc_mem e1)"
    using fr(1) assms(1) a1 by (auto simp: enc_frame_def enc_wf_def enc_addr_def)
  have "slice (enc_addr e) (length as) (enc_mem e2) = slice (enc_addr e) (length as) (enc_mem e1)"
    by (rule slice_eqI) (use fr(2) range a1 in \<open>auto simp: enc_frame_def\<close>)
  then have "slice (enc_addr e) (length (as @ bs)) (enc_mem e2) = as @ bs"
    using assms(2,3) a1 by (simp add: slice_add wrote_def)
  then show ?thesis
    using enc_frame_trans [OF fr] assms(2,3) by (simp add: wrote_def)
qed

lemma enc_write_fits:
  assumes "enc_wf e" and "enc_pos e + length v \<le> enc_len e"
  shows "\<exists>e'. enc_write v e = (Ok (), e') \<and> wrote e v e'"
proof -
  have "enc_addr e + length v \<le> length (enc_mem e)"
    using assms by (simp add: enc_wf_def enc_addr_def)
  then show ?thesis using assms(2)
    by (auto simp: enc_write_def wrote_def enc_frame_def enc_addr_def mem_simps)
qed

lemma enc_write_full: "enc_len e < enc_pos e + length v \<Longrightarrow> enc_write v e = (Err BufferOverflow, e)"
  by (simp add: enc_write_def)

lemma enc_skip_fits:
  assumes "enc_wf e" and "enc_pos e + n \<le> enc_len e"
  shows "\<exists>e'. enc_skip n e = (Ok (), e') \<and> wrote e (slice (enc_addr e) n (enc_mem e)) e'"
  using assms
  by (auto simp: enc_skip_def wrote_def enc_frame_def enc_addr_def enc_wf_def)

lemma has_input_append:
  "has_input d (as @ bs) \<longleftrightarrow> has_input d as \<and> has_input (dec_forward (length as) d) bs"
proof -
  have "slice (dec_addr d) (length as + length bs) (dec_mem d) = as @ bs \<longleftrightarrow>
      slice (dec_addr d) (length as) (dec_mem d) = as \<and>
      slice (dec_addr d + length as) (length bs) (dec_mem d) = bs"
    if "dec_addr d + length as + length bs \<le> length (dec_mem d)"
    using that by (simp add: slice_add)
  then show ?thesis
    by (auto simp: has_input_def dec_forward_def dec_addr_def algebra_simps)
qed

lemma dec_forward_simps [simp]:
  "dec_addr (dec_forward n d) = dec_addr d + n"
  "dec_forward m (dec_forward n d) = dec_forward (n + m) d"
  "dec_forward 0 d = d"
  by (simp_all add: dec_forward_def dec_addr_def)

lemma parses_then:
  assumes "parses m as a x" and "parses (k x) bs (a + length as) y"
  shows "parses (then_op m k) (as @ bs) a y"
  using assms by (auto simp: parses_def has_input_append)

lemma parses_return: "parses (\<lambda>d. (Ok x, d)) [] a x"
  by (simp add: parses_def)

lemma parses_bytes: "length bs = n \<Longrightarrow> parses (dec_bytes n) bs a bs"
  by (auto simp: parses_def has_input_def dec_bytes_def dec_forward_def)

lemma parses_skip: "length bs = n \<Longrightarrow> parses (dec_skip n) bs a ()"
  by (auto simp: parses_def has_input_def dec_skip_def dec_forward_def)

lemma parses_map:
  assumes "parses m bs a x"
  shows "parses (then_op m (\<lambda>x d. (Ok (f x), d))) bs a (f x)"
  using parses_then [OF assms, of "\<lambda>x d. (Ok (f x), d)" "[]" "f x"] by (simp add: parses_return)

lemma parses_byte: "parses dec_byte [b] a b"
  unfolding dec_byte_def using parses_map [OF parses_bytes [of "[b]" 1], where f = "\<lambda>bs. bs ! 0"] by simp

lemma peek_u8_input: "has_input d (m # x # bs) \<Longrightarrow> peek_u8 d = Some x"
proof -
  assume "has_input d (m # x # bs)"
  then have "has_input d [m, x]" using has_input_append [of d "[m, x]" bs] by simp
  then have "fst (dec_bytes 2 d) = Ok [m, x]"
    using parses_bytes [of "[m, x]" 2] by (simp add: parses_def)
  then show ?thesis by (simp add: peek_u8_def)
qed

section \<open>Runs of an encoder\<close>

definition emits :: "'r enc_op \<Rightarrow> mbor_encoder \<Rightarrow> bytes \<Rightarrow> 'r \<Rightarrow> bool" where
  "emits m e bs r \<longleftrightarrow> (\<exists>e'. m e = (Ok r, e') \<and> wrote e bs e')"

definition overflows :: "'r enc_op \<Rightarrow> mbor_encoder \<Rightarrow> bool" where
  "overflows m e \<longleftrightarrow> (\<exists>e'. m e = (Err BufferOverflow, e') \<and> enc_frame e e')"

lemma emits_then:
  assumes "enc_wf e" and "emits m e as x" and "\<And>e'. wrote e as e' \<Longrightarrow> enc_wf e' \<Longrightarrow> emits (k x) e' bs y"
  shows "emits (then_op m k) e (as @ bs) y"
proof -
  obtain e1 where e1: "m e = (Ok x, e1)" "wrote e as e1" using assms(2) by (auto simp: emits_def)
  then have "emits (k x) e1 bs y"
    using assms(3) [OF e1(2)] enc_wf_frame [OF assms(1) wrote_frame [OF e1(2)]] by blast
  then obtain e2 where "k x e1 = (Ok y, e2)" "wrote e1 bs e2" by (auto simp: emits_def)
  with e1 wrote_append [OF assms(1) e1(2)] show ?thesis by (auto simp: emits_def)
qed

lemma emits_return: "enc_wf e \<Longrightarrow> emits (\<lambda>e. (Ok r, e)) e [] r"
  by (auto simp: emits_def wrote_Nil)

lemma emits_map:
  assumes "enc_wf e" and "emits m e bs x"
  shows "emits (then_op m (\<lambda>_ e. (Ok y, e))) e bs y"
  using emits_then [OF assms, of "\<lambda>_ e. (Ok y, e)" "[]" y] by (simp add: emits_return)

lemma overflows_then:
  assumes "overflows m e"
  shows "overflows (then_op m k) e"
  using assms by (auto simp: overflows_def)

lemma emits_then_overflows:
  assumes "enc_wf e" and "emits m e as x" and "\<And>e'. wrote e as e' \<Longrightarrow> enc_wf e' \<Longrightarrow> overflows (k x) e'"
  shows "overflows (then_op m k) e"
proof -
  obtain e1 where e1: "m e = (Ok x, e1)" "wrote e as e1" using assms(2) by (auto simp: emits_def)
  have wf: "enc_wf e1" by (rule enc_wf_frame [OF assms(1) wrote_frame [OF e1(2)]])
  obtain e2 where "k x e1 = (Err BufferOverflow, e2)" "enc_frame e1 e2"
    using assms(3) [OF e1(2) wf] by (auto simp: overflows_def)
  with e1 enc_frame_trans [OF wrote_frame [OF e1(2)]] show ?thesis by (auto simp: overflows_def)
qed

lemma emits_write: "enc_wf e \<Longrightarrow> enc_pos e + length v \<le> enc_len e \<Longrightarrow> emits (enc_write v) e v ()"
  using enc_write_fits by (auto simp: emits_def)

lemma overflows_write: "enc_wf e \<Longrightarrow> enc_len e < enc_pos e + length v \<Longrightarrow> overflows (enc_write v) e"
  by (simp add: overflows_def enc_write_full enc_frame_refl)

text \<open>A write followed by something of a known length.\<close>

lemma write_then_emits:
  assumes "enc_wf e" and "enc_pos e + length v + n \<le> enc_len e"
    and "\<And>e'. wrote e v e' \<Longrightarrow> enc_wf e' \<Longrightarrow> enc_pos e' + n \<le> enc_len e' \<Longrightarrow> emits (k ()) e' bs y"
  shows "emits (then_op (enc_write v) k) e (v @ bs) y"
proof (rule emits_then [OF assms(1) emits_write])
  fix e' assume w: "wrote e v e'" and wf: "enc_wf e'"
  have "enc_pos e' + n \<le> enc_len e'"
    using assms(2) wrote_pos [OF w] wrote_frame [OF w] by (simp add: enc_frame_def)
  then show "emits (k ()) e' bs y" using assms(3) w wf by blast
qed (use assms in auto)

lemma write_then_overflows:
  assumes "enc_wf e" and "enc_len e < enc_pos e + length v + n"
    and "\<And>e'. wrote e v e' \<Longrightarrow> enc_wf e' \<Longrightarrow> enc_len e' < enc_pos e' + n \<Longrightarrow> overflows (k ()) e'"
  shows "overflows (then_op (enc_write v) k) e"
proof (cases "enc_pos e + length v \<le> enc_len e")
  case True
  show ?thesis
  proof (rule emits_then_overflows [OF assms(1) emits_write [OF assms(1) True]])
    fix e' assume w: "wrote e v e'" and wf: "enc_wf e'"
    have "enc_len e' < enc_pos e' + n"
      using assms(2) wrote_pos [OF w] wrote_frame [OF w] by (simp add: enc_frame_def)
    then show "overflows (k ()) e'" using assms(3) w wf by blast
  qed
next
  case False
  then show ?thesis by (intro overflows_then overflows_write) (use assms in auto)
qed

lemma emits_zeros: "enc_wf e \<Longrightarrow> enc_pos e + n \<le> enc_len e \<Longrightarrow> emits (enc_zeros n) e (replicate n 0) ()"
proof (induction n arbitrary: e)
  case 0
  then show ?case by (auto simp: emits_def wrote_Nil)
next
  case (Suc n)
  have "emits (then_op (enc_write [0]) (\<lambda>_. enc_zeros n)) e ([0] @ replicate n 0) ()"
    by (rule write_then_emits [where n = n]) (use Suc in auto)
  then show ?case by (simp add: emits_def)
qed

lemma overflows_zeros: "enc_wf e \<Longrightarrow> enc_len e < enc_pos e + n \<Longrightarrow> overflows (enc_zeros n) e"
proof (induction n arbitrary: e)
  case 0
  then show ?case by (simp add: enc_wf_def)
next
  case (Suc n)
  have "overflows (then_op (enc_write [0]) (\<lambda>_. enc_zeros n)) e"
    by (rule write_then_overflows [where n = n]) (use Suc in auto)
  then show ?case by (simp add: overflows_def)
qed

section \<open>The contract of a representation\<close>

text \<open>
  \<open>good x e\<close>: the value can be represented; \<open>size_of x\<close>: its length; \<open>reread x a\<close>: the value that is
  read back from address \<open>a\<close> (a byte array is read back at its new place).
\<close>

locale mbor_codec =
  fixes enc :: "'a \<Rightarrow> 'r enc_op"
    and dec :: "'b dec_op"
    and good :: "'a \<Rightarrow> mbor_encoder \<Rightarrow> bool"
    and size_of :: "'a \<Rightarrow> nat"
    and reread :: "'a \<Rightarrow> nat \<Rightarrow> 'b"
  assumes enc_fits: "enc_wf e \<Longrightarrow> good x e \<Longrightarrow> enc_pos e + size_of x \<le> enc_len e \<Longrightarrow>
      \<exists>bs r. emits (enc x) e bs r \<and> length bs = size_of x \<and>
        parses dec bs (enc_addr e) (reread x (enc_addr e))"
    and enc_full: "enc_wf e \<Longrightarrow> good x e \<Longrightarrow> enc_len e < enc_pos e + size_of x \<Longrightarrow> overflows (enc x) e"
begin

lemma enc_succeeds_iff:
  assumes "enc_wf e" and "good x e"
  shows "is_ok (fst (enc x e)) \<longleftrightarrow> enc_pos e + size_of x \<le> enc_len e"
proof (cases "enc_pos e + size_of x \<le> enc_len e")
  case True
  with enc_fits [OF assms] show ?thesis by (auto simp: emits_def)
next
  case False
  with enc_full [OF assms] show ?thesis by (auto simp: overflows_def)
qed

text \<open>The value reads back, whatever is written behind it afterwards.\<close>

lemma reads_back:
  assumes "enc_wf e" and "good x e" and "enc x e = (Ok r, e')" and "enc_frame e' e''"
    and "enc_pos e' \<le> n" and "n \<le> enc_len e"
  shows "dec \<lparr>dec_mem = enc_mem e'', dec_base = enc_base e, dec_len = n, dec_pos = enc_pos e\<rparr> =
    (Ok (reread x (enc_addr e)),
     \<lparr>dec_mem = enc_mem e'', dec_base = enc_base e, dec_len = n, dec_pos = enc_pos e'\<rparr>)"
proof -
  have "enc_pos e + size_of x \<le> enc_len e"
    using enc_succeeds_iff [OF assms(1,2)] assms(3) by simp
  then obtain bs where bs: "wrote e bs e'" "parses dec bs (enc_addr e) (reread x (enc_addr e))"
    using enc_fits [OF assms(1,2)] assms(3) by (auto simp: emits_def)
  let ?d = "\<lparr>dec_mem = enc_mem e'', dec_base = enc_base e, dec_len = n, dec_pos = enc_pos e\<rparr>"
  have fr: "enc_frame e e'" using bs(1) by (rule wrote_frame)
  have "slice (enc_addr e) (length bs) (enc_mem e'') = slice (enc_addr e) (length bs) (enc_mem e')"
    by (rule slice_eqI)
      (use fr assms(1,4) wrote_addr [OF bs(1)] wrote_pos [OF bs(1)] in
        \<open>auto simp: enc_frame_def enc_wf_def enc_addr_def\<close>)
  then have "has_input ?d bs"
    using bs(1) fr assms(1,4,5,6)
    by (auto simp: has_input_def wrote_def enc_frame_def enc_wf_def dec_addr_def enc_addr_def)
  then have "dec ?d = (Ok (reread x (enc_addr e)), dec_forward (length bs) ?d)"
    using bs(2) by (simp add: parses_def dec_addr_def enc_addr_def)
  then show ?thesis by (simp add: dec_forward_def wrote_pos [OF bs(1)])
qed

end

section \<open>The representations\<close>

text \<open>A marker and a body, decoded from the bytes taken at once.\<close>

lemma marked_codec:
  assumes "\<And>x. length (body x) = n" and "\<And>x. f (m # body x) = x"
  shows "mbor_codec (\<lambda>x. then_op (enc_write [m]) (\<lambda>_. enc_write (body x)))
    (then_op (dec_bytes (Suc n)) (\<lambda>bs d. (Ok (f bs), d))) (\<lambda>_ _. True) (\<lambda>_. Suc n) (\<lambda>x _. x)"
proof
  fix e x
  assume wf: "enc_wf e" and room: "enc_pos e + Suc n \<le> enc_len e"
  have "emits (then_op (enc_write [m]) (\<lambda>_. enc_write (body x))) e ([m] @ body x) ()"
    by (rule write_then_emits [where n = n]) (use wf room assms(1) in \<open>auto intro: emits_write\<close>)
  moreover have "parses (then_op (dec_bytes (Suc n)) (\<lambda>bs d. (Ok (f bs), d))) (m # body x) (enc_addr e) x"
    using parses_map [OF parses_bytes [of "m # body x" "Suc n" "enc_addr e"], where f = f] assms by simp
  ultimately show "\<exists>bs r. emits (then_op (enc_write [m]) (\<lambda>_. enc_write (body x))) e bs r \<and>
      length bs = Suc n \<and> parses (then_op (dec_bytes (Suc n)) (\<lambda>bs d. (Ok (f bs), d))) bs (enc_addr e) x"
    using assms(1) by (intro exI [of _ "m # body x"]) auto
next
  fix e x
  assume "enc_wf e" and "enc_len e < enc_pos e + Suc n"
  then show "overflows (then_op (enc_write [m]) (\<lambda>_. enc_write (body x))) e"
    by (intro write_then_overflows [where n = n]) (use assms(1) in \<open>auto intro: overflows_write\<close>)
qed

interpretation u8: mbor_codec encode_u8 decode_u8 "\<lambda>_ _. True" "\<lambda>_. 2" "\<lambda>x _. x"
  using marked_codec [of "\<lambda>x. [x]" 1 "\<lambda>bs. bs ! 1" U8_MARKER]
  by (simp add: encode_u8_def [abs_def] decode_u8_def numeral_2_eq_2)

interpretation u16: mbor_codec encode_u16 decode_u16 "\<lambda>_ _. True" "\<lambda>_. 3" "\<lambda>x _. x"
  using marked_codec [of "be_bytes 2 :: u16 \<Rightarrow> bytes" 2 "\<lambda>bs. be_word (drop 1 bs)" U16_MARKER]
  by (simp add: encode_u16_def [abs_def] decode_u16_def be_word_be_bytes)

interpretation u32: mbor_codec encode_u32 decode_u32 "\<lambda>_ _. True" "\<lambda>_. 5" "\<lambda>x _. x"
  using marked_codec [of "be_bytes 4 :: u32 \<Rightarrow> bytes" 4 "\<lambda>bs. be_word (drop 1 bs)" U32_MARKER]
  by (simp add: encode_u32_def [abs_def] decode_u32_def be_word_be_bytes)

interpretation u64: mbor_codec encode_u64 decode_u64 "\<lambda>_ _. True" "\<lambda>_. 9" "\<lambda>x _. x"
  using marked_codec [of "be_bytes 8 :: u64 \<Rightarrow> bytes" 8 "\<lambda>bs. be_word (drop 1 bs)" U64_MARKER]
  by (simp add: encode_u64_def [abs_def] decode_u64_def be_word_be_bytes)

text \<open>One byte that carries the value.\<close>

lemma byte_codec:
  assumes "\<And>x a. ok x \<Longrightarrow> parses dec [img x] a x"
  shows "mbor_codec (\<lambda>x. enc_write [img x]) dec (\<lambda>x _. ok x) (\<lambda>_. 1) (\<lambda>x _. x)"
proof
  fix e x
  assume "enc_wf e" and "ok x" and "enc_pos e + 1 \<le> enc_len e"
  then show "\<exists>bs r. emits (enc_write [img x]) e bs r \<and> length bs = 1 \<and> parses dec bs (enc_addr e) x"
    using assms emits_write [of e "[img x]"] by (intro exI [of _ "[img x]"]) auto
next
  fix e x
  assume "enc_wf e" and "enc_len e < enc_pos e + 1"
  then show "overflows (enc_write [img x]) e" by (intro overflows_write) auto
qed

lemma small_u8_mask:
  assumes "c < (32 :: u8)"
  shows "c AND 31 = c"
proof -
  have "unat c < 2 ^ 5" using assms by (simp add: word_less_nat_alt)
  then have "unat (take_bit 5 c) = unat c" by (simp add: unsigned_take_bit_eq take_bit_nat_eq_self)
  then have "take_bit 5 c = c" unfolding word_unat_eq_iff .
  moreover have "(mask 5 :: u8) = 31" by (simp add: mask_eq_exp_minus_1)
  ultimately show ?thesis by (simp add: take_bit_eq_mask)
qed

lemma or_and_self: "(a OR b) AND a = (a :: 'a::len word)"
  by (rule bit_word_eqI) (auto simp: bit_and_iff bit_or_iff)

lemma map_byte:
  assumes "c < (32 :: u8)"
  shows "(MAP_MARKER OR (MAP_FIELD_COUNT_MASK AND c)) AND MAP_MARKER = MAP_MARKER"
    and "(MAP_MARKER OR (MAP_FIELD_COUNT_MASK AND c)) AND MAP_FIELD_COUNT_MASK = c"
proof -
  have c: "31 AND c = c" using small_u8_mask [OF assms] by (simp add: and.commute)
  show "(MAP_MARKER OR (MAP_FIELD_COUNT_MASK AND c)) AND MAP_MARKER = MAP_MARKER"
    by (rule or_and_self)
  show "(MAP_MARKER OR (MAP_FIELD_COUNT_MASK AND c)) AND MAP_FIELD_COUNT_MASK = c"
    by (simp add: MAP_MARKER_def MAP_FIELD_COUNT_MASK_def bit.conj_disj_distrib2 c small_u8_mask [OF assms])
qed

lemma parses_if:
  assumes "parses m bs a x" and "k x = (\<lambda>d. (Ok y, d))"
  shows "parses (then_op m k) bs a y"
  using parses_then [OF assms(1), of k "[]" y] by (simp add: assms(2) parses_return)

interpretation map: mbor_codec encode_map decode_map "\<lambda>c _. c < 32" "\<lambda>_. 1" "\<lambda>c _. c"
proof -
  have "parses decode_map [MAP_MARKER OR (MAP_FIELD_COUNT_MASK AND c)] a c" if "c < 32" for c a
    unfolding decode_map_def using map_byte [OF that]
    by (intro parses_if [OF parses_byte]) (simp add: fun_eq_iff)
  from byte_codec [of "\<lambda>c. c < 32", OF this]
  show "mbor_codec encode_map decode_map (\<lambda>c _. c < 32) (\<lambda>_. 1) (\<lambda>c _. c)"
    by (simp add: encode_map_def [abs_def])
qed

interpretation bool: mbor_codec encode_bool decode_bool "\<lambda>_ _. True" "\<lambda>_. 1" "\<lambda>x _. x"
proof -
  have "parses decode_bool [BOOL_MARKER + (if x then 1 else 0)] a x" for x a
    unfolding decode_bool_def
    by (intro parses_if [OF parses_byte]) (simp add: fun_eq_iff BOOL_MARKER_def Let_def)
  from byte_codec [of "\<lambda>_. True", OF this]
  show "mbor_codec encode_bool decode_bool (\<lambda>_ _. True) (\<lambda>_. 1) (\<lambda>x _. x)"
    by (simp add: encode_bool_def [abs_def])
qed

subsection \<open>Byte slices and arrays\<close>

lemma marker_pad:
  "(BYTES_MARKER OR (BYTES_PAD_MASK AND p)) AND BYTES_MARKER = BYTES_MARKER"
  "(BYTES_MARKER OR (BYTES_PAD_MASK AND p)) AND BYTES_PAD_MASK = BYTES_PAD_MASK AND p"
  "BYTES_MARKER AND BYTES_MARKER = BYTES_MARKER" "BYTES_MARKER AND BYTES_PAD_MASK = 0"
proof -
  show z: "BYTES_MARKER AND BYTES_PAD_MASK = 0" by (simp add: BYTES_MARKER_def BYTES_PAD_MASK_def)
  show "(BYTES_MARKER OR (BYTES_PAD_MASK AND p)) AND BYTES_PAD_MASK = BYTES_PAD_MASK AND p"
    unfolding bit.conj_disj_distrib2 z by (simp add: ac_simps)
qed (simp_all add: or_and_self)

lemma u16_len: "n < 65536 \<Longrightarrow> unat (of_nat n :: u16) = n"
  by (simp add: unsigned_of_nat take_bit_nat_eq_self)

text \<open>A slice is read back as a fixed-size array of its length.\<close>

interpretation arr: mbor_codec encode_slice "decode_array n"
  "\<lambda>v _. length v = n \<and> n < 65536" "\<lambda>v. 3 + length v" "\<lambda>v _. v" for n
proof
  fix e and v :: bytes
  assume wf: "enc_wf e" and good: "length v = n \<and> n < 65536" and room: "enc_pos e + (3 + length v) \<le> enc_len e"
  let ?len = "of_nat (length v) :: u16"
  let ?bs = "[BYTES_MARKER] @ be_bytes 2 ?len @ v"
  have "emits (encode_slice v) e ?bs ()"
    unfolding encode_slice_def
  proof (rule write_then_emits [where n = "2 + length v"])
    fix e'
    assume "enc_wf e'" and "enc_pos e' + (2 + length v) \<le> enc_len e'"
    then show "emits (then_op (enc_write (be_bytes 2 ?len)) (\<lambda>_. enc_write v)) e' (be_bytes 2 ?len @ v) ()"
      by (intro write_then_emits [where n = "length v"]) (auto intro: emits_write)
  qed (use wf room in auto)
  moreover have "parses (decode_array n) ?bs (enc_addr e) v"
    unfolding decode_array_def
  proof (rule parses_then [OF parses_byte])
    let ?k = "\<lambda>data d. if length data = n then (Ok data, d) else (Err DecodeU8N, d)"
    have "parses (then_op (dec_bytes n) ?k) v a v" for a
      using good by (intro parses_if [OF parses_bytes]) (auto simp: fun_eq_iff)
    then have "parses (then_op (dec_bytes 2) (\<lambda>bs d. let len = be_word bs :: u16
        in if len \<noteq> of_nat n then (Err InvalidLen, d) else then_op (dec_bytes (unat len)) ?k d))
        (be_bytes 2 ?len @ v) (enc_addr e + 1) v"
      using good by (intro parses_then [OF parses_bytes]) (simp_all add: be_word_be_bytes u16_len)
    then show "parses (\<lambda>d. if BYTES_MARKER AND BYTES_MARKER \<noteq> BYTES_MARKER then (Err ExpectedU8, d)
        else if BYTES_MARKER AND BYTES_PAD_MASK \<noteq> 0 then (Err InvalidPadding, d)
        else then_op (dec_bytes 2) (\<lambda>bs d. let len = be_word bs :: u16
          in if len \<noteq> of_nat n then (Err InvalidLen, d) else then_op (dec_bytes (unat len)) ?k d) d)
        (be_bytes 2 ?len @ v) (enc_addr e + length [BYTES_MARKER]) v"
      by (simp add: marker_pad)
  qed
  ultimately show "\<exists>bs r. emits (encode_slice v) e bs r \<and> length bs = 3 + length v \<and>
      parses (decode_array n) bs (enc_addr e) v"
    by (intro exI [of _ ?bs] exI [of _ "()"]) simp
next
  fix e and v :: bytes
  assume wf: "enc_wf e" and room: "enc_len e < enc_pos e + (3 + length v)"
  show "overflows (encode_slice v) e"
    unfolding encode_slice_def
  proof (rule write_then_overflows [where n = "2 + length v"])
    fix e'
    assume "enc_wf e'" and "enc_len e' < enc_pos e' + (2 + length v)"
    then show "overflows (then_op (enc_write (be_bytes 2 (of_nat (length v) :: u16))) (\<lambda>_. enc_write v)) e'"
      by (intro write_then_overflows [where n = "length v"]) (auto intro: overflows_write)
  qed (use wf room in auto)
qed

text \<open>The same for bytes that depend on the state of the encoder.\<close>

lemma emits_then_ex:
  assumes "enc_wf e" and "emits m e as x"
    and "\<And>e'. wrote e as e' \<Longrightarrow> enc_wf e' \<Longrightarrow> \<exists>bs y. P bs y \<and> emits (k x) e' bs y"
  shows "\<exists>bs y. P bs y \<and> emits (then_op m k) e (as @ bs) y"
proof -
  obtain e1 where e1: "m e = (Ok x, e1)" "wrote e as e1" using assms(2) by (auto simp: emits_def)
  then obtain bs y where "P bs y" "emits (k x) e1 bs y"
    using assms(3) [OF e1(2)] enc_wf_frame [OF assms(1) wrote_frame [OF e1(2)]] by blast
  moreover from this obtain e2 where "k x e1 = (Ok y, e2)" "wrote e1 bs e2" by (auto simp: emits_def)
  ultimately show ?thesis using e1 wrote_append [OF assms(1) e1(2)] by (auto simp: emits_def)
qed

abbreviation pad_len :: "u8 \<Rightarrow> nat" where
  "pad_len pad \<equiv> unat (BYTES_PAD_MASK AND pad)"

definition array_ok :: "nat \<Rightarrow> mbor_byte_array \<Rightarrow> mbor_encoder \<Rightarrow> bool" where
  "array_ok cap a e \<longleftrightarrow> ba_len a \<le> cap \<and> cap < 65536 \<and> (ba_ptr a \<noteq> 0 \<longrightarrow> ba_ptr a + ba_len a \<le> length (enc_mem e))"

definition outside_buffer :: "mbor_byte_array \<Rightarrow> mbor_encoder \<Rightarrow> bool" where
  "outside_buffer a e \<longleftrightarrow> ba_ptr a \<noteq> 0 \<and>
     (ba_ptr a + ba_len a \<le> enc_base e \<or> enc_base e + enc_len e \<le> ba_ptr a)"

lemma outside_buffer_slice:
  assumes "enc_wf e" and "enc_frame e e'" and "outside_buffer a e" and "ba_ptr a + ba_len a \<le> length (enc_mem e)"
  shows "ba_slice (enc_mem e') a = ba_slice (enc_mem e) a"
  unfolding ba_slice_def
  by (rule slice_eqI) (use assms in \<open>auto simp: enc_frame_def outside_buffer_def enc_addr_def enc_wf_def\<close>)

lemma padded_data:
  assumes wf: "enc_wf e'" and ok: "array_ok cap a e'" and room: "enc_pos e' + ba_len a \<le> enc_len e'"
    and out: "outside_buffer a e \<Longrightarrow> ba_slice (enc_mem e') a = ba_slice (enc_mem e) a"
  shows "\<exists>data y. (length data = ba_len a \<and> y = a\<lparr>ba_ptr := enc_addr e'\<rparr> \<and>
      (outside_buffer a e \<longrightarrow> data = ba_slice (enc_mem e) a)) \<and>
    emits (\<lambda>e. let a' = a\<lparr>ba_ptr := enc_addr e\<rparr>
       in if ba_ptr a = 0 then then_op (enc_skip (ba_len a)) (\<lambda>_ e. (Ok a', e)) e
          else then_op (enc_write (ba_slice (enc_mem e) a)) (\<lambda>_ e. (Ok a', e)) e) e' data y"
proof (cases "ba_ptr a = 0")
  case True
  let ?data = "slice (enc_addr e') (ba_len a) (enc_mem e')"
  have "emits (enc_skip (ba_len a)) e' ?data ()"
    using enc_skip_fits [OF wf room] by (auto simp: emits_def)
  from emits_map [OF wf this] have "emits (then_op (enc_skip (ba_len a)) (\<lambda>_ e. (Ok (a\<lparr>ba_ptr := enc_addr e'\<rparr>), e)))
      e' ?data (a\<lparr>ba_ptr := enc_addr e'\<rparr>)" .
  moreover have "length ?data = ba_len a" using wf room by (simp add: enc_wf_def enc_addr_def)
  ultimately show ?thesis
    by (intro exI [of _ ?data] exI [of _ "a\<lparr>ba_ptr := enc_addr e'\<rparr>"])
      (simp add: True emits_def Let_def outside_buffer_def)
next
  case False
  let ?data = "ba_slice (enc_mem e') a"
  have len: "length ?data = ba_len a" using ok False by (simp add: ba_slice_def array_ok_def)
  have "emits (enc_write ?data) e' ?data ()" using wf room len by (intro emits_write) simp_all
  from emits_map [OF wf this] have "emits (then_op (enc_write ?data) (\<lambda>_ e. (Ok (a\<lparr>ba_ptr := enc_addr e'\<rparr>), e)))
      e' ?data (a\<lparr>ba_ptr := enc_addr e'\<rparr>)" .
  then show ?thesis using len out False
    by (intro exI [of _ ?data] exI [of _ "a\<lparr>ba_ptr := enc_addr e'\<rparr>"]) (simp add: emits_def Let_def)
qed

lemma padded_emits:
  assumes wf: "enc_wf e" and ok: "array_ok cap a e"
    and room: "enc_pos e + (3 + pad_len pad + ba_len a) \<le> enc_len e"
  shows "\<exists>data. length data = ba_len a \<and> (outside_buffer a e \<longrightarrow> data = ba_slice (enc_mem e) a) \<and>
    emits (encode_padded cap pad a) e
      ([BYTES_MARKER OR (BYTES_PAD_MASK AND pad)] @ be_bytes 2 (of_nat (ba_len a) :: u16) @
       replicate (pad_len pad) 0 @ data)
      (a\<lparr>ba_ptr := enc_addr e + 3 + pad_len pad\<rparr>)"
proof -
  let ?p = "BYTES_PAD_MASK AND pad"
  let ?len = "of_nat (ba_len a) :: u16"
  let ?P = "\<lambda>data y. length data = ba_len a \<and> y = a\<lparr>ba_ptr := enc_addr e + 3 + unat ?p\<rparr> \<and>
      (outside_buffer a e \<longrightarrow> data = ba_slice (enc_mem e) a)"
  define last where "last = (\<lambda>e. let a' = a\<lparr>ba_ptr := enc_addr e\<rparr>
       in if ba_ptr a = 0 then then_op (enc_skip (ba_len a)) (\<lambda>_ e. (Ok a', e)) e
          else then_op (enc_write (ba_slice (enc_mem e) a)) (\<lambda>_ e. (Ok a', e)) e)"
  define mid where "mid = then_op (enc_write (be_bytes 2 ?len)) (\<lambda>_. then_op (enc_zeros (unat ?p)) (\<lambda>_. last))"
  have "\<exists>bs y. (\<exists>data. bs = be_bytes 2 ?len @ replicate (unat ?p) 0 @ data \<and> ?P data y) \<and>
      emits (then_op (enc_write [BYTES_MARKER OR ?p]) (\<lambda>_. mid)) e ([BYTES_MARKER OR ?p] @ bs) y"
  proof (rule emits_then_ex [OF wf emits_write [OF wf]])
    fix e1 assume w1: "wrote e [BYTES_MARKER OR ?p] e1" and wf1: "enc_wf e1"
    have e1: "enc_pos e1 = enc_pos e + 1" "enc_len e1 = enc_len e"
      using wrote_pos [OF w1] wrote_frame [OF w1] by (simp_all add: enc_frame_def)
    have "\<exists>bs y. (\<exists>data. bs = replicate (unat ?p) 0 @ data \<and> ?P data y) \<and> emits mid e1 (be_bytes 2 ?len @ bs) y"
      unfolding mid_def
    proof (rule emits_then_ex [OF wf1 emits_write [OF wf1]])
      fix e2 assume w2: "wrote e1 (be_bytes 2 ?len) e2" and wf2: "enc_wf e2"
      have e2: "enc_pos e2 = enc_pos e + 3" "enc_len e2 = enc_len e"
        using wrote_pos [OF w2] wrote_frame [OF w2] e1 by (simp_all add: enc_frame_def)
      have "\<exists>data y. ?P data y \<and> emits (then_op (enc_zeros (unat ?p)) (\<lambda>_. last)) e2 (replicate (unat ?p) 0 @ data) y"
      proof (rule emits_then_ex [OF wf2 emits_zeros [OF wf2]])
        fix e3 assume w3: "wrote e2 (replicate (unat ?p) 0) e3" and wf3: "enc_wf e3"
        have fr: "enc_frame e e3"
          using w1 w2 w3 by (blast intro: enc_frame_trans wrote_frame)
        have addr: "enc_addr e3 = enc_addr e + 3 + unat ?p"
          using wrote_addr [OF w1] wrote_addr [OF w2] wrote_addr [OF w3] by simp
        have "ba_slice (enc_mem e3) a = ba_slice (enc_mem e) a" if "outside_buffer a e"
          using outside_buffer_slice [OF wf fr that] that ok by (simp add: array_ok_def outside_buffer_def)
        moreover have "array_ok cap a e3" using ok fr by (simp add: array_ok_def enc_frame_def)
        moreover have "enc_pos e3 + ba_len a \<le> enc_len e3"
          using fr addr room by (simp add: enc_frame_def enc_addr_def)
        ultimately show "\<exists>data y. ?P data y \<and> emits last e3 data y"
          using padded_data [OF wf3, of cap a e] unfolding addr last_def by blast
      qed (use room e2 in simp)
      then show "\<exists>bs y. (\<exists>data. bs = replicate (unat ?p) 0 @ data \<and> ?P data y) \<and>
          emits (then_op (enc_zeros (unat ?p)) (\<lambda>_. last)) e2 bs y" by blast
    qed (use room e1 in simp)
    then show "\<exists>bs y. (\<exists>data. bs = be_bytes 2 ?len @ replicate (unat ?p) 0 @ data \<and> ?P data y) \<and> emits mid e1 bs y"
      by blast
  qed (use room in simp)
  moreover have "encode_padded cap pad a = then_op (enc_write [BYTES_MARKER OR ?p]) (\<lambda>_. mid)"
    using ok by (simp add: fun_eq_iff encode_padded_def array_ok_def Let_def mid_def last_def)
  ultimately show ?thesis by auto
qed

lemma padded_parses:
  assumes "length data = len" and "len \<le> cap" and "cap < 65536"
  shows "parses (decode_byte_array cap)
    ([BYTES_MARKER OR (BYTES_PAD_MASK AND pad)] @ be_bytes 2 (of_nat len :: u16) @ replicate (pad_len pad) 0 @ data)
    a \<lparr>ba_ptr = a + 3 + pad_len pad, ba_len = len\<rparr>"
  unfolding decode_byte_array_def
proof (rule parses_then [OF parses_byte])
  let ?m = "BYTES_MARKER OR (BYTES_PAD_MASK AND pad)"
  let ?a = "\<lparr>ba_ptr = a + 3 + pad_len pad, ba_len = len\<rparr>"
  have le: "\<not> (of_nat len :: u16) > of_nat cap" and len: "unat (of_nat len :: u16) = len"
    using assms by (simp_all add: word_less_nat_alt u16_len)
  have "parses (\<lambda>d. then_op (dec_skip len) (\<lambda>_ d'. (Ok \<lparr>ba_ptr = dec_addr d, ba_len = len\<rparr>, d')) d) data
      (a + 3 + pad_len pad) ?a"
    using parses_if [OF parses_skip [OF assms(1)], where k = "\<lambda>_ d'. (Ok ?a, d')" and a = "a + 3 + pad_len pad"]
    by (simp add: parses_def)
  then have "parses (then_op (dec_skip (pad_len pad))
      (\<lambda>_ d. then_op (dec_skip len) (\<lambda>_ d'. (Ok \<lparr>ba_ptr = dec_addr d, ba_len = len\<rparr>, d')) d))
      (replicate (pad_len pad) 0 @ data) (a + 3) ?a"
    by (intro parses_then [OF parses_skip]) simp_all
  then have "parses (then_op (dec_bytes 2) (\<lambda>bs d. let len = be_word bs :: u16
      in if len > of_nat cap then (Err BufferUnderFlow, d)
         else then_op (dec_skip (unat (?m AND BYTES_PAD_MASK))) (\<lambda>_ d.
           let a = \<lparr>ba_ptr = dec_addr d, ba_len = unat len\<rparr>
           in then_op (dec_skip (unat len)) (\<lambda>_ d. (Ok a, d)) d) d))
      (be_bytes 2 (of_nat len :: u16) @ replicate (pad_len pad) 0 @ data) (a + 1) ?a"
    using le len
    by (intro parses_then [OF parses_bytes]) (simp_all add: be_word_be_bytes marker_pad Let_def numeral_3_eq_3)
  then show "parses (\<lambda>d. if ?m AND BYTES_MARKER \<noteq> BYTES_MARKER then (Err ExpectedU8, d)
      else then_op (dec_bytes 2) (\<lambda>bs d. let len = be_word bs :: u16
      in if len > of_nat cap then (Err BufferUnderFlow, d)
         else then_op (dec_skip (unat (?m AND BYTES_PAD_MASK))) (\<lambda>_ d.
           let a = \<lparr>ba_ptr = dec_addr d, ba_len = unat len\<rparr>
           in then_op (dec_skip (unat len)) (\<lambda>_ d. (Ok a, d)) d) d) d)
      (be_bytes 2 (of_nat len :: u16) @ replicate (pad_len pad) 0 @ data) (a + length [?m]) ?a"
    by (simp add: marker_pad)
qed

lemma overflows_skip: "enc_wf e \<Longrightarrow> enc_len e < enc_pos e + n \<Longrightarrow> overflows (enc_skip n) e"
  by (auto simp: overflows_def enc_skip_def enc_frame_refl)

lemma padded_overflows:
  assumes wf: "enc_wf e" and ok: "array_ok cap a e"
    and room: "enc_len e < enc_pos e + (3 + pad_len pad + ba_len a)"
  shows "overflows (encode_padded cap pad a) e"
proof -
  let ?p = "BYTES_PAD_MASK AND pad"
  let ?len = "of_nat (ba_len a) :: u16"
  define last where "last = (\<lambda>e. let a' = a\<lparr>ba_ptr := enc_addr e\<rparr>
       in if ba_ptr a = 0 then then_op (enc_skip (ba_len a)) (\<lambda>_ e. (Ok a', e)) e
          else then_op (enc_write (ba_slice (enc_mem e) a)) (\<lambda>_ e. (Ok a', e)) e)"
  have last: "overflows last e'"
    if "enc_wf e'" "length (enc_mem e') = length (enc_mem e)" "enc_len e' < enc_pos e' + ba_len a" for e'
  proof (cases "ba_ptr a = 0")
    case True
    have "overflows (then_op (enc_skip (ba_len a)) (\<lambda>_ e. (Ok (a\<lparr>ba_ptr := enc_addr e'\<rparr>), e))) e'"
      using that by (intro overflows_then overflows_skip)
    with True show ?thesis by (simp add: overflows_def last_def Let_def)
  next
    case False
    have "length (ba_slice (enc_mem e') a) = ba_len a"
      using ok that(2) False by (simp add: ba_slice_def array_ok_def)
    then have "overflows (then_op (enc_write (ba_slice (enc_mem e') a)) (\<lambda>_ e. (Ok (a\<lparr>ba_ptr := enc_addr e'\<rparr>), e))) e'"
      using that by (intro overflows_then overflows_write) simp_all
    with False show ?thesis by (simp add: overflows_def last_def Let_def)
  qed
  have zeros: "overflows (then_op (enc_zeros (unat ?p)) (\<lambda>_. last)) e2"
    if "enc_wf e2" "length (enc_mem e2) = length (enc_mem e)" "enc_len e2 < enc_pos e2 + (unat ?p + ba_len a)" for e2
  proof (cases "enc_pos e2 + unat ?p \<le> enc_len e2")
    case True
    show ?thesis
      by (rule emits_then_overflows [OF that(1) emits_zeros [OF that(1) True]])
        (use that last in \<open>auto simp: wrote_def enc_frame_def\<close>)
  next
    case False
    then show ?thesis by (intro overflows_then overflows_zeros) (use that in auto)
  qed
  have mid: "overflows (then_op (enc_write (be_bytes 2 ?len)) (\<lambda>_. then_op (enc_zeros (unat ?p)) (\<lambda>_. last))) e1"
    if "enc_wf e1" "length (enc_mem e1) = length (enc_mem e)"
      "enc_len e1 < enc_pos e1 + (2 + (unat ?p + ba_len a))" for e1
    by (rule write_then_overflows [where n = "unat ?p + ba_len a"])
      (use that zeros in \<open>auto simp: wrote_def enc_frame_def\<close>)
  have "overflows (then_op (enc_write [BYTES_MARKER OR ?p])
      (\<lambda>_. then_op (enc_write (be_bytes 2 ?len)) (\<lambda>_. then_op (enc_zeros (unat ?p)) (\<lambda>_. last)))) e"
    by (rule write_then_overflows [where n = "2 + (unat ?p + ba_len a)"])
      (use wf room mid in \<open>auto simp: wrote_def enc_frame_def\<close>)
  moreover have "encode_padded cap pad a = then_op (enc_write [BYTES_MARKER OR ?p])
      (\<lambda>_. then_op (enc_write (be_bytes 2 ?len)) (\<lambda>_. then_op (enc_zeros (unat ?p)) (\<lambda>_. last)))"
    using ok by (simp add: fun_eq_iff encode_padded_def array_ok_def Let_def last_def)
  ultimately show ?thesis by simp
qed

interpretation ba: mbor_codec "encode_padded cap pad" "decode_byte_array cap" "array_ok cap"
  "\<lambda>a. 3 + pad_len pad + ba_len a" "\<lambda>a addr. a\<lparr>ba_ptr := addr + 3 + pad_len pad\<rparr>" for cap pad
proof
  fix e and a :: mbor_byte_array
  assume wf: "enc_wf e" and ok: "array_ok cap a e"
    and room: "enc_pos e + (3 + pad_len pad + ba_len a) \<le> enc_len e"
  obtain data where d: "length data = ba_len a" "emits (encode_padded cap pad a) e
      ([BYTES_MARKER OR (BYTES_PAD_MASK AND pad)] @ be_bytes 2 (of_nat (ba_len a) :: u16) @
       replicate (pad_len pad) 0 @ data) (a\<lparr>ba_ptr := enc_addr e + 3 + pad_len pad\<rparr>)"
    using padded_emits [OF wf ok room] by blast
  have eq: "a\<lparr>ba_ptr := enc_addr e + 3 + pad_len pad\<rparr> = \<lparr>ba_ptr = enc_addr e + 3 + pad_len pad, ba_len = ba_len a\<rparr>"
    by (cases a) simp
  show "\<exists>bs r. emits (encode_padded cap pad a) e bs r \<and> length bs = 3 + pad_len pad + ba_len a \<and>
      parses (decode_byte_array cap) bs (enc_addr e) (a\<lparr>ba_ptr := enc_addr e + 3 + pad_len pad\<rparr>)"
    using d(2) unfolding eq using d(1) ok padded_parses [OF d(1), of cap pad "enc_addr e"]
    by (intro exI) (auto simp: array_ok_def)
qed (rule padded_overflows)

section \<open>Alignment\<close>

text \<open>The padding of a position that does not overflow, and the alignment it gives.\<close>

lemma and_not_plus: "(w AND NOT m) + (w AND m) = (w :: 'a::len word)"
proof -
  have z: "(w AND NOT m) AND (w AND m) = 0"
    by (rule bit_word_eqI) (auto simp: bit_and_iff bit_not_iff)
  have "(w AND NOT m) OR (w AND m) = w"
    by (rule bit_word_eqI) (auto simp: bit_and_iff bit_or_iff bit_not_iff)
  then show ?thesis using disjunctive_add_eq_or [OF z] by simp
qed

lemma and_not_3: "(w AND NOT 3 :: u32) = w - of_nat (unat w mod 4)"
proof -
  have "(mask 2 :: u32) = 3" by (simp add: mask_eq_exp_minus_1)
  then have "w AND 3 = take_bit 2 w" by (simp add: take_bit_eq_mask)
  also have "\<dots> = of_nat (unat (take_bit 2 w))" by simp
  also have "unat (take_bit 2 w) = unat w mod 4" by (simp add: unat_mod take_bit_eq_mod)
  finally have "w AND 3 = of_nat (unat w mod 4)" .
  with and_not_plus [of w 3] show ?thesis by (metis add_diff_cancel_right')
qed

lemma pad_mod: "(4 - n mod 4) mod 4 = 3 - (n + 3) mod (4 :: nat)"
proof -
  have "n mod 4 = 0 \<or> n mod 4 = 1 \<or> n mod 4 = 2 \<or> n mod 4 = 3" by linarith
  moreover have "(n + 3) mod 4 = (n mod 4 + 3) mod 4" by (simp add: mod_add_left_eq)
  ultimately show ?thesis by auto
qed

lemma pad4_value:
  assumes "n < 2 ^ 32 - 3"
  shows "pad4 (of_nat n) = of_nat ((4 - n mod 4) mod 4)"
proof -
  have n3: "unat (of_nat n + 3 :: u32) = n + 3"
    using assms by (simp add: unat_word_ariths unsigned_of_nat take_bit_nat_eq_self)
  let ?r = "(n + 3) mod 4"
  have "pad4 (of_nat n) = of_nat n + 3 - of_nat ?r - of_nat n"
    unfolding pad4_def and_not_3 n3 ..
  also have "\<dots> = of_nat 3 - of_nat ?r" by simp
  also have "\<dots> = of_nat (3 - ?r)" by (simp add: of_nat_diff less_Suc_eq_le [symmetric])
  finally show ?thesis by (simp add: pad_mod)
qed

end
