(* ===== verification/Ddi_Codec.thy ===== *)
theory Ddi_Codec
  imports Mbor_Codec
begin

text \<open>
  The codecs of the request and response structs. The derive macro of \<^verbatim>\<open>serde/ddi/derive\<close>
  writes them from the fields of a struct; here they are functions of a description of the struct
  (\<open>mbor_type\<close>: the fields in the order of their ids, each with its id, whether it is optional, and
  its type). A struct is a map header with the number of fields present, then for each of them its
  id and its value. Enumerations are represented as their 32-bit code. On top of them stand
  \<^verbatim>\<open>DdiEncoder\<close> and \<^verbatim>\<open>DdiDecoder\<close> of \<^verbatim>\<open>serde/ddi/types\<close>: a message is
  a map of a header and a body.
\<close>

section \<open>The program\<close>

datatype mbor_type =
  TU8 | TU16 | TU32 | TU64 | TBool | TArray nat | TBytes nat | TStruct "mbor_field list"
and mbor_field = Field u8 bool mbor_type

text \<open>A value of a struct has one component per field; only an optional one can be missing.\<close>

datatype mbor_value =
  VU8 u8 | VU16 u16 | VU32 u32 | VU64 u64 | VBool bool | VArray bytes | VBytes mbor_byte_array
  | VStruct "mbor_value option list"

definition struct_count :: "mbor_field list \<Rightarrow> mbor_value option list \<Rightarrow> u8" where
  "struct_count fs vs = of_nat (length fs) - of_nat (length (filter (\<lambda>v. v = None) vs))"

text \<open>
  Encoding a value returns it with its byte arrays moved into the buffer. The last equation of
  each function is for values that are not of the type, which Rust rules out.
\<close>

fun encode_value :: "mbor_type \<Rightarrow> mbor_value \<Rightarrow> mbor_value enc_op"
  and encode_fields :: "mbor_field list \<Rightarrow> mbor_value option list \<Rightarrow> mbor_value option list enc_op" where
  "encode_value TU8 (VU8 x) e = then_op (encode_u8 x) (\<lambda>_ e. (Ok (VU8 x), e)) e"
| "encode_value TU16 (VU16 x) e = then_op (encode_u16 x) (\<lambda>_ e. (Ok (VU16 x), e)) e"
| "encode_value TU32 (VU32 x) e = then_op (encode_u32 x) (\<lambda>_ e. (Ok (VU32 x), e)) e"
| "encode_value TU64 (VU64 x) e = then_op (encode_u64 x) (\<lambda>_ e. (Ok (VU64 x), e)) e"
| "encode_value TBool (VBool x) e = then_op (encode_bool x) (\<lambda>_ e. (Ok (VBool x), e)) e"
| "encode_value (TArray n) (VArray v) e = then_op (encode_slice v) (\<lambda>_ e. (Ok (VArray v), e)) e"
| "encode_value (TBytes cap) (VBytes a) e =
     (let pad = ucast (pad4 (of_nat (enc_pos e) + 3))
      in then_op (encode_padded cap pad a) (\<lambda>a' e. (Ok (VBytes a'), e)) e)"
| "encode_value (TStruct fs) (VStruct vs) e =
     then_op (encode_map (struct_count fs vs)) (\<lambda>_.
     then_op (encode_fields fs vs) (\<lambda>vs' e. (Ok (VStruct vs'), e))) e"
| "encode_value _ _ e = (Panic, e)"
| "encode_fields [] [] e = (Ok [], e)"
| "encode_fields (Field i opt t # fs) (None # vs) e =
     (if opt then then_op (encode_fields fs vs) (\<lambda>vs' e. (Ok (None # vs'), e)) e else (Panic, e))"
| "encode_fields (Field i opt t # fs) (Some v # vs) e =
     then_op (encode_u8 i) (\<lambda>_.
     then_op (encode_value t v) (\<lambda>v'.
     then_op (encode_fields fs vs) (\<lambda>vs' e. (Ok (Some v' # vs'), e)))) e"
| "encode_fields _ _ e = (Panic, e)"

fun decode_value :: "mbor_type \<Rightarrow> mbor_value dec_op"
  and decode_fields :: "mbor_field list \<Rightarrow> u8 \<Rightarrow> (mbor_value option list \<times> u8) dec_op" where
  "decode_value TU8 d = then_op decode_u8 (\<lambda>x d. (Ok (VU8 x), d)) d"
| "decode_value TU16 d = then_op decode_u16 (\<lambda>x d. (Ok (VU16 x), d)) d"
| "decode_value TU32 d = then_op decode_u32 (\<lambda>x d. (Ok (VU32 x), d)) d"
| "decode_value TU64 d = then_op decode_u64 (\<lambda>x d. (Ok (VU64 x), d)) d"
| "decode_value TBool d = then_op decode_bool (\<lambda>x d. (Ok (VBool x), d)) d"
| "decode_value (TArray n) d = then_op (decode_array n) (\<lambda>x d. (Ok (VArray x), d)) d"
| "decode_value (TBytes cap) d = then_op (decode_byte_array cap) (\<lambda>x d. (Ok (VBytes x), d)) d"
| "decode_value (TStruct fs) d =
     then_op decode_map (\<lambda>cnt.
     then_op (decode_fields fs cnt) (\<lambda>(vs, cnt) d.
       if cnt \<noteq> 0 then (Err InvalidLen, d) else (Ok (VStruct vs), d))) d"
| "decode_fields [] cnt d = (Ok ([], cnt), d)"
| "decode_fields (Field i opt t # fs) cnt d =
     (if opt then
        (if cnt > 0 \<and> peek_u8 d = Some i
         then then_op decode_u8 (\<lambda>_.
              then_op (decode_value t) (\<lambda>v.
              then_op (decode_fields fs (cnt - 1)) (\<lambda>(vs, cnt) d. (Ok (Some v # vs, cnt), d)))) d
         else then_op (decode_fields fs cnt) (\<lambda>(vs, cnt) d. (Ok (None # vs, cnt), d)) d)
      else if cnt = 0 then (Err InvalidId, d)
      else
        then_op decode_u8 (\<lambda>id d.
          if id \<noteq> i then (Err InvalidId, d)
          else then_op (decode_value t) (\<lambda>v.
               then_op (decode_fields fs (cnt - 1)) (\<lambda>(vs, cnt) d. (Ok (Some v # vs, cnt), d))) d) d)"

fun len_value :: "mbor_type \<Rightarrow> mbor_value \<Rightarrow> nat \<Rightarrow> nat"
  and len_fields :: "mbor_field list \<Rightarrow> mbor_value option list \<Rightarrow> nat \<Rightarrow> nat" where
  "len_value TU8 _ acc = len_uint 1 acc"
| "len_value TU16 _ acc = len_uint 2 acc"
| "len_value TU32 _ acc = len_uint 4 acc"
| "len_value TU64 _ acc = len_uint 8 acc"
| "len_value TBool _ acc = len_bool acc"
| "len_value (TArray n) (VArray v) acc = len_slice v acc"
| "len_value (TBytes cap) (VBytes a) acc = len_padded (ucast (pad4 (of_nat acc + 3))) a acc"
| "len_value (TStruct fs) (VStruct vs) acc = len_fields fs vs (len_map acc)"
| "len_value _ _ acc = acc"
| "len_fields (Field i opt t # fs) (Some v # vs) acc = len_fields fs vs (len_value t v (len_uint 1 acc))"
| "len_fields (Field i opt t # fs) (None # vs) acc = len_fields fs vs acc"
| "len_fields _ _ acc = acc"

subsection \<open>Messages\<close>

datatype mbor_error = EncodeError | DecodeError

definition map_err :: "'f \<Rightarrow> ('e, 'a) outcome \<times> 's \<Rightarrow> ('f, 'a) outcome \<times> 's" where
  "map_err f = (\<lambda>(r, s). (case r of Ok x \<Rightarrow> Ok x | Err _ \<Rightarrow> Err f | Panic \<Rightarrow> Panic, s))"

definition encode_parts ::
  "mbor_type \<Rightarrow> mbor_value \<Rightarrow> mbor_type \<Rightarrow> mbor_value \<Rightarrow> mbor_encoder \<Rightarrow>
     (mbor_error, nat \<times> mbor_value \<times> mbor_value) outcome \<times> mbor_encoder" where
  "encode_parts th hdr td data e =
     map_err EncodeError
       (then_op (encode_map 2) (\<lambda>_.
        then_op (encode_u8 0) (\<lambda>_.
        then_op (encode_value th hdr) (\<lambda>hdr'.
        then_op (encode_u8 1) (\<lambda>_.
        then_op (encode_value td data) (\<lambda>data' e'.
          (Ok (enc_len e - enc_remaining e', hdr', data'), e')))))) e)"

definition decode_hdr :: "mbor_type \<Rightarrow> mbor_decoder \<Rightarrow> (mbor_error, mbor_value) outcome \<times> mbor_decoder" where
  "decode_hdr th d =
     map_err DecodeError
       (then_op decode_map (\<lambda>count d.
          if count \<noteq> 2 then (Err InvalidLen, d)
          else then_op decode_u8 (\<lambda>res d.
            if res \<noteq> 0 then (Err InvalidId, d) else decode_value th d) d) d)"

definition decode_data :: "mbor_type \<Rightarrow> mbor_decoder \<Rightarrow> (mbor_error, mbor_value) outcome \<times> mbor_decoder" where
  "decode_data td d =
     map_err DecodeError
       (then_op decode_u8 (\<lambda>res d.
          if res \<noteq> 1 then (Err InvalidId, d)
          else then_op (decode_value td) (\<lambda>v d.
            if dec_len d = dec_pos d then (Ok v, d) else (Err InvalidLen, d)) d) d)"

end
