(* ===== verification/Ddi_Codec_Correct.thy ===== *)
theory Ddi_Codec_Correct
  imports Ddi_Codec
begin

text \<open>
  Correctness of the codecs of structs: what is encoded is decoded again, at any nesting, with
  every byte array at its new, aligned place and with its bytes; the buffer is exactly as full as
  the length computation says; and decoding untrusted bytes stays inside the buffer.
\<close>

section \<open>Well-formed descriptions and values\<close>

primrec field_id :: "mbor_field \<Rightarrow> u8" where
  "field_id (Field i _ _) = i"

fun type_wf :: "mbor_type \<Rightarrow> bool" where
  "type_wf (TArray n) \<longleftrightarrow> n < 65536"
| "type_wf (TBytes cap) \<longleftrightarrow> cap < 65536"
| "type_wf (TStruct fs) \<longleftrightarrow> length fs < 32 \<and> distinct (map field_id fs) \<and>
     list_all (\<lambda>f. case f of Field _ _ t \<Rightarrow> type_wf t) fs"
| "type_wf _ \<longleftrightarrow> True"

fun value_ok :: "mbor_type \<Rightarrow> mbor_value \<Rightarrow> mbor_encoder \<Rightarrow> bool"
  and fields_ok :: "mbor_field list \<Rightarrow> mbor_value option list \<Rightarrow> mbor_encoder \<Rightarrow> bool" where
  "value_ok TU8 (VU8 _) e \<longleftrightarrow> True"
| "value_ok TU16 (VU16 _) e \<longleftrightarrow> True"
| "value_ok TU32 (VU32 _) e \<longleftrightarrow> True"
| "value_ok TU64 (VU64 _) e \<longleftrightarrow> True"
| "value_ok TBool (VBool _) e \<longleftrightarrow> True"
| "value_ok (TArray n) (VArray v) e \<longleftrightarrow> length v = n"
| "value_ok (TBytes cap) (VBytes a) e \<longleftrightarrow> array_ok cap a e"
| "value_ok (TStruct fs) (VStruct vs) e \<longleftrightarrow> fields_ok fs vs e"
| "value_ok _ _ e \<longleftrightarrow> False"
| "fields_ok [] [] e \<longleftrightarrow> True"
| "fields_ok (Field i opt t # fs) (v # vs) e \<longleftrightarrow>
     (case v of None \<Rightarrow> opt | Some v \<Rightarrow> value_ok t v e) \<and> fields_ok fs vs e"
| "fields_ok _ _ e \<longleftrightarrow> False"

fun arrays :: "mbor_value \<Rightarrow> mbor_byte_array list" where
  "arrays (VBytes a) = [a]"
| "arrays (VStruct vs) = concat (map (\<lambda>v. case v of None \<Rightarrow> [] | Some v \<Rightarrow> arrays v) vs)"
| "arrays _ = []"

abbreviation arrays_of :: "mbor_value option list \<Rightarrow> mbor_byte_array list" where
  "arrays_of vs \<equiv> concat (map (\<lambda>v. case v of None \<Rightarrow> [] | Some v \<Rightarrow> arrays v) vs)"

lemma value_ok_frame:
  "length (enc_mem e') = length (enc_mem e) \<Longrightarrow> value_ok t v e' = value_ok t v e"
  "length (enc_mem e') = length (enc_mem e) \<Longrightarrow> fields_ok fs vs e' = fields_ok fs vs e"
  by (induction t v e and fs vs e rule: value_ok_fields_ok.induct)
    (auto simp: array_ok_def split: option.splits)

lemma value_ok_arrays:
  "value_ok t v e \<Longrightarrow> a \<in> set (arrays v) \<Longrightarrow> ba_ptr a \<noteq> 0 \<Longrightarrow> ba_ptr a + ba_len a \<le> length (enc_mem e)"
  "fields_ok fs vs e \<Longrightarrow> a \<in> set (arrays_of vs) \<Longrightarrow> ba_ptr a \<noteq> 0 \<Longrightarrow> ba_ptr a + ba_len a \<le> length (enc_mem e)"
  by (induction t v e and fs vs e rule: value_ok_fields_ok.induct)
    (auto simp: array_ok_def split: option.splits)

section \<open>Where the byte arrays go\<close>

definition moved :: "mbor_encoder \<Rightarrow> mbor_byte_array list \<Rightarrow> mbor_encoder \<Rightarrow> mbor_byte_array list \<Rightarrow> bool" where
  "moved e as e' as' \<longleftrightarrow> list_all2 (\<lambda>a a'. ba_len a' = ba_len a \<and>
     enc_addr e \<le> ba_ptr a' \<and> ba_ptr a' + ba_len a' \<le> enc_addr e' \<and>
     (ba_ptr a' - enc_base e) mod 4 = 0 \<and>
     (outside_buffer a e \<longrightarrow> ba_slice (enc_mem e') a' = ba_slice (enc_mem e) a)) as as'"

lemma moved_Nil [simp]: "moved e [] e' []"
  by (simp add: moved_def)

lemma moved_append: "moved e as e' as' \<Longrightarrow> moved e bs e' bs' \<Longrightarrow> moved e (as @ bs) e' (as' @ bs')"
  unfolding moved_def by (rule list_all2_appendI)

lemma moved_later:
  assumes "moved e as e' as'" and "enc_wf e" and "enc_frame e e'" and "enc_frame e' e''"
  shows "moved e as e'' as'"
  unfolding moved_def
proof (rule list_all2_mono [OF assms(1) [unfolded moved_def]])
  fix a a'
  assume *: "ba_len a' = ba_len a \<and> enc_addr e \<le> ba_ptr a' \<and> ba_ptr a' + ba_len a' \<le> enc_addr e' \<and>
     (ba_ptr a' - enc_base e) mod 4 = 0 \<and>
     (outside_buffer a e \<longrightarrow> ba_slice (enc_mem e') a' = ba_slice (enc_mem e) a)"
  have "ba_slice (enc_mem e'') a' = ba_slice (enc_mem e') a'"
    unfolding ba_slice_def
    by (rule slice_eqI) (use * assms(2-4) in \<open>auto simp: enc_frame_def enc_wf_def enc_addr_def\<close>)
  moreover have "enc_addr e' \<le> enc_addr e''" using assms(4) by (simp add: enc_frame_def enc_addr_def)
  ultimately show "ba_len a' = ba_len a \<and> enc_addr e \<le> ba_ptr a' \<and> ba_ptr a' + ba_len a' \<le> enc_addr e'' \<and>
     (ba_ptr a' - enc_base e) mod 4 = 0 \<and>
     (outside_buffer a e \<longrightarrow> ba_slice (enc_mem e'') a' = ba_slice (enc_mem e) a)"
    using * by simp
qed

lemma moved_earlier:
  assumes "moved e1 as e' as'" and "enc_wf e" and "enc_frame e e1"
    and "\<And>a. a \<in> set as \<Longrightarrow> ba_ptr a \<noteq> 0 \<Longrightarrow> ba_ptr a + ba_len a \<le> length (enc_mem e)"
  shows "moved e as e' as'"
proof -
  have "ba_slice (enc_mem e1) a = ba_slice (enc_mem e) a" if "outside_buffer a e" "a \<in> set as" for a
    using outside_buffer_slice [OF assms(2,3) that(1)] that assms(4) by (simp add: outside_buffer_def)
  moreover have "outside_buffer a e1 = outside_buffer a e" for a
    using assms(3) by (simp add: outside_buffer_def enc_frame_def)
  moreover have "enc_addr e \<le> enc_addr e1" "enc_base e1 = enc_base e"
    using assms(3) by (simp_all add: enc_frame_def enc_addr_def)
  ultimately show ?thesis
    using assms(1) unfolding moved_def list_all2_conv_all_nth by fastforce
qed

section \<open>One value\<close>

text \<open>The encoder has room for the value and it reads back, or it has not and reports it.\<close>

definition codes :: "mbor_type \<Rightarrow> mbor_value \<Rightarrow> mbor_encoder \<Rightarrow> bool" where
  "codes t v e \<longleftrightarrow>
     (if len_value t v (enc_pos e) \<le> enc_len e
      then \<exists>bs v' e'. encode_value t v e = (Ok v', e') \<and> wrote e bs e' \<and>
        enc_pos e' = len_value t v (enc_pos e) \<and> parses (decode_value t) bs (enc_addr e) v' \<and>
        moved e (arrays v) e' (arrays v')
      else overflows (encode_value t v) e)"

definition present :: "mbor_value option list \<Rightarrow> nat" where
  "present vs = length (filter (\<lambda>v. v \<noteq> None) vs)"

definition codes_fields :: "mbor_field list \<Rightarrow> mbor_value option list \<Rightarrow> mbor_encoder \<Rightarrow> bool" where
  "codes_fields fs vs e \<longleftrightarrow>
     (if len_fields fs vs (enc_pos e) \<le> enc_len e
      then \<exists>bs vs' e'. encode_fields fs vs e = (Ok vs', e') \<and> wrote e bs e' \<and>
        enc_pos e' = len_fields fs vs (enc_pos e) \<and>
        parses (decode_fields fs (of_nat (present vs))) bs (enc_addr e) (vs', 0) \<and>
        (present vs > 0 \<longrightarrow> (\<exists>j cs. bs = U8_MARKER # j # cs \<and> j \<in> field_id ` set fs)) \<and>
        moved e (arrays_of vs) e' (arrays_of vs')
      else overflows (encode_fields fs vs) e)"

lemma len_value_mono: "acc \<le> len_value t v acc" "acc \<le> len_fields fs vs acc"
  by (induction t v acc and fs vs acc rule: len_value_len_fields.induct)
    (auto simp: len_uint_def len_bool_def len_slice_def len_padded_def len_map_def)

context mbor_codec
begin

lemma runs:
  assumes "enc_wf e" and "good x e"
  shows "if enc_pos e + size_of x \<le> enc_len e
    then \<exists>bs r e'. enc x e = (Ok r, e') \<and> wrote e bs e' \<and> enc_pos e' = enc_pos e + size_of x \<and>
      parses dec bs (enc_addr e) (reread x (enc_addr e))
    else overflows (enc x) e"
proof (cases "enc_pos e + size_of x \<le> enc_len e")
  case True
  then obtain bs r where r: "emits (enc x) e bs r" "length bs = size_of x"
    "parses dec bs (enc_addr e) (reread x (enc_addr e))"
    using enc_fits [OF assms] by blast
  then obtain e' where "enc x e = (Ok r, e')" "wrote e bs e'" by (auto simp: emits_def)
  with r wrote_pos show ?thesis unfolding if_P [OF True] by metis
qed (use enc_full [OF assms] in simp)

end

text \<open>A value without byte arrays.\<close>

lemma plain_codes:
  assumes runs: "if enc_pos e + n \<le> enc_len e
      then \<exists>bs r e'. enc e = (Ok r, e') \<and> wrote e bs e' \<and> enc_pos e' = enc_pos e + n \<and>
        parses dec bs (enc_addr e) x
      else overflows enc e"
    and enc: "encode_value t v = then_op enc (\<lambda>_ e. (Ok v, e))"
    and dec: "decode_value t = then_op dec (\<lambda>x d. (Ok (C x), d))"
    and v: "v = C x" "arrays v = []" "len_value t v (enc_pos e) = enc_pos e + n"
  shows "codes t v e"
proof (cases "enc_pos e + n \<le> enc_len e")
  case True
  then obtain bs r e' where r: "enc e = (Ok r, e')" "wrote e bs e'" "enc_pos e' = enc_pos e + n"
    "parses dec bs (enc_addr e) x" using runs by auto
  have "parses (decode_value t) bs (enc_addr e) v"
    unfolding dec v(1) by (rule parses_map [OF r(4)])
  moreover have "encode_value t v e = (Ok v, e')" unfolding enc using r(1) by simp
  ultimately show ?thesis using True r(2,3) unfolding codes_def v(3) by (auto simp: v(2))
next
  case False
  then have "overflows (encode_value t v) e" unfolding enc using runs by (intro overflows_then) simp
  with False show ?thesis unfolding codes_def v(3) by simp
qed

lemma pad_aligned: "(n + (4 - n mod 4) mod 4) mod 4 = (0 :: nat)"
proof -
  have "n mod 4 = 0 \<or> n mod 4 = 1 \<or> n mod 4 = 2 \<or> n mod 4 = 3" by linarith
  moreover have "(n + k) mod 4 = (n mod 4 + k) mod 4" for k by (simp add: mod_add_left_eq)
  ultimately show ?thesis by auto
qed

lemma pad_len_small: "r < 4 \<Longrightarrow> pad_len (of_nat r) = r"
proof -
  assume "r < 4"
  then have "r = 0 \<or> r = 1 \<or> r = 2 \<or> r = 3" by auto
  then show ?thesis by (auto simp: BYTES_PAD_MASK_def)
qed

text \<open>The padding that the derived code computes at position \<open>n\<close>.\<close>

lemma pad_at:
  assumes "n + 3 < 2 ^ 32 - 3"
  defines "r \<equiv> (4 - (n + 3) mod 4) mod 4"
  shows "unat (ucast (pad4 (of_nat n + 3)) :: u8) = r" and "pad_len (ucast (pad4 (of_nat n + 3))) = r"
    and "(n + (3 + r)) mod 4 = 0"
proof -
  have r: "r < 4" by (simp add: r_def)
  have "pad4 (of_nat n + 3) = of_nat r"
    using pad4_value [OF assms(1)] by (simp add: r_def add.commute)
  then have pad: "(ucast (pad4 (of_nat n + 3)) :: u8) = of_nat r" using r
    by (simp add: word_unat_eq_iff unsigned_ucast_eq unsigned_of_nat take_bit_nat_eq_self)
  show "unat (ucast (pad4 (of_nat n + 3)) :: u8) = r"
    unfolding pad using r by (simp add: unsigned_of_nat take_bit_nat_eq_self)
  show "pad_len (ucast (pad4 (of_nat n + 3))) = r" unfolding pad by (rule pad_len_small [OF r])
  show "(n + (3 + r)) mod 4 = 0" using pad_aligned [of "n + 3"] unfolding r_def by (simp add: add.assoc)
qed

lemma array_codes:
  assumes wf: "enc_wf e" and ok: "array_ok cap a e" and small: "enc_len e < 2 ^ 31"
  shows "codes (TBytes cap) (VBytes a) e"
proof -
  let ?pad = "ucast (pad4 (of_nat (enc_pos e) + 3)) :: u8"
  define r where "r = (4 - (enc_pos e + 3) mod 4) mod 4"
  have "enc_pos e + 3 < 2 ^ 32 - 3" using wf small by (simp add: enc_wf_def)
  note pads = pad_at [OF this, folded r_def]
  note u = pads(1) and plen = pads(2)
  have dv: "decode_value (TBytes cap) = then_op (decode_byte_array cap) (\<lambda>x d. (Ok (VBytes x), d))"
    by (rule ext) simp
  have len: "len_value (TBytes cap) (VBytes a) (enc_pos e) = enc_pos e + (3 + r + ba_len a)"
    by (simp add: len_padded_def u)
  show ?thesis
  proof (cases "enc_pos e + (3 + r + ba_len a) \<le> enc_len e")
    case True
    then obtain data where d: "length data = ba_len a" "outside_buffer a e \<longrightarrow> data = ba_slice (enc_mem e) a"
      "emits (encode_padded cap ?pad a) e
        ([BYTES_MARKER OR (BYTES_PAD_MASK AND ?pad)] @ be_bytes 2 (of_nat (ba_len a) :: u16) @
         replicate (pad_len ?pad) 0 @ data) (a\<lparr>ba_ptr := enc_addr e + 3 + pad_len ?pad\<rparr>)"
      using padded_emits [OF wf ok, of ?pad] unfolding plen by blast
    let ?bs = "[BYTES_MARKER OR (BYTES_PAD_MASK AND ?pad)] @ be_bytes 2 (of_nat (ba_len a) :: u16) @
         replicate (pad_len ?pad) 0 @ data"
    let ?a = "a\<lparr>ba_ptr := enc_addr e + 3 + pad_len ?pad\<rparr>"
    have a_eq: "?a = \<lparr>ba_ptr = enc_addr e + 3 + pad_len ?pad, ba_len = ba_len a\<rparr>" by (cases a) simp
    obtain e' where e': "encode_padded cap ?pad a e = (Ok ?a, e')" "wrote e ?bs e'"
      using d(3) by (auto simp: emits_def)
    have "parses (decode_value (TBytes cap)) ?bs (enc_addr e) (VBytes ?a)"
      using parses_map [OF padded_parses [OF d(1), of cap ?pad "enc_addr e"], where f = VBytes] ok
      unfolding a_eq dv by (simp add: array_ok_def)
    moreover have "moved e [a] e' [?a]"
    proof -
      have "slice (enc_addr e + (3 + r)) (ba_len a) (enc_mem e') = data"
      proof -
        have "slice (enc_addr e) (3 + r + ba_len a) (enc_mem e') = ?bs"
          using e'(2) d(1) by (simp add: wrote_def plen numeral_3_eq_3)
        then have "drop (3 + r) (slice (enc_addr e) (3 + r + ba_len a) (enc_mem e')) = data"
          by (simp add: plen numeral_3_eq_3)
        then show ?thesis by (simp add: slice_def drop_take add.commute)
      qed
      then have "ba_slice (enc_mem e') ?a = data" by (simp add: ba_slice_def plen add.assoc)
      then show ?thesis
        using pads(3) d(2) wrote_addr [OF e'(2)] d(1) by (simp add: moved_def plen enc_addr_def)
    qed
    moreover have "encode_value (TBytes cap) (VBytes a) e = (Ok (VBytes ?a), e')" using e'(1) by simp
    moreover have "enc_pos e' = enc_pos e + (3 + r + ba_len a)"
      using wrote_pos [OF e'(2)] d(1) by (simp add: plen)
    ultimately show ?thesis using True e'(2) unfolding codes_def len by auto
  next
    case False
    then have "overflows (encode_padded cap ?pad a) e"
      by (intro padded_overflows [OF wf ok]) (simp add: plen)
    then have "overflows (encode_value (TBytes cap) (VBytes a)) e"
      by (auto simp: overflows_def Let_def)
    with False show ?thesis unfolding codes_def len by simp
  qed
qed

section \<open>The fields of a struct\<close>

lemma present_simps [simp]:
  "present [] = 0" "present (None # vs) = present vs" "present (Some v # vs) = Suc (present vs)"
  by (simp_all add: present_def)

lemma present_le: "present vs \<le> length vs"
  by (simp add: present_def)

lemma fields_ok_length: "fields_ok fs vs e \<Longrightarrow> length fs = length vs"
  by (induction fs vs e rule: value_ok_fields_ok.induct(2) [where P = "\<lambda>_ _ _. True"]) auto

lemma cnt_pos: "n < 32 \<Longrightarrow> (0 < (of_nat n :: u8)) = (0 < n)" "n < 32 \<Longrightarrow> ((of_nat n :: u8) = 0) = (n = 0)"
  by (simp_all add: word_less_nat_alt word_unat_eq_iff unsigned_of_nat take_bit_nat_eq_self)

text \<open>A missing optional field: its id is not the one that comes next.\<close>

lemma absent_field_parses:
  assumes rest: "parses (decode_fields fs (of_nat (present vs))) bs a (vs', 0)"
    and "present vs < 32" and "i \<notin> field_id ` set fs"
    and "present vs > 0 \<longrightarrow> (\<exists>j cs. bs = U8_MARKER # j # cs \<and> j \<in> field_id ` set fs)"
  shows "parses (decode_fields (Field i True t # fs) (of_nat (present vs))) bs a (None # vs', 0)"
  unfolding parses_def
proof (intro allI impI)
  fix d assume d: "has_input d bs \<and> dec_addr d = a"
  have "\<not> (0 < (of_nat (present vs) :: u8) \<and> peek_u8 d = Some i)"
  proof (cases "present vs > 0")
    case True
    with assms(4) obtain j cs where j: "bs = U8_MARKER # j # cs" "j \<in> field_id ` set fs" by blast
    with d have "peek_u8 d = Some j" by (auto intro: peek_u8_input)
    with j assms(3) show ?thesis by auto
  qed (use assms(2) in \<open>simp add: cnt_pos\<close>)
  with rest d show "decode_fields (Field i True t # fs) (of_nat (present vs)) d =
      (Ok (None # vs', 0), dec_forward (length bs) d)"
    by (auto simp: parses_def)
qed

lemma present_field_parses:
  assumes id: "parses decode_u8 as a i" "as = U8_MARKER # i # []"
    and v: "parses (decode_value t) bs (a + length as) v'"
    and rest: "parses (decode_fields fs (of_nat (present vs))) cs (a + length as + length bs) (vs', 0)"
    and "Suc (present vs) < 32"
  shows "parses (decode_fields (Field i opt t # fs) (of_nat (Suc (present vs)))) (as @ bs @ cs) a (Some v' # vs', 0)"
proof -
  let ?k = "\<lambda>v. then_op (decode_fields fs (of_nat (present vs))) (\<lambda>(vs, cnt) d. (Ok (Some v # vs, cnt), d))"
  have cnt: "(of_nat (Suc (present vs)) :: u8) - 1 = of_nat (present vs)" by simp
  have pos: "0 < (of_nat (Suc (present vs)) :: u8)" "(of_nat (Suc (present vs)) :: u8) \<noteq> 0"
    using cnt_pos [of "Suc (present vs)"] assms(5) by simp_all
  have "parses (?k v') cs (a + length as + length bs) (Some v' # vs', 0)"
    using parses_if [OF rest, where k = "\<lambda>(vs, cnt) d. (Ok (Some v' # vs, cnt), d)"] by simp
  from parses_then [OF v, where k = ?k, OF this]
  have body: "parses (then_op (decode_value t) ?k) (bs @ cs) (a + length as) (Some v' # vs', 0)" .
  show ?thesis
    unfolding parses_def
  proof (intro allI impI)
    fix d assume d: "has_input d (as @ bs @ cs) \<and> dec_addr d = a"
    have "has_input d as" using d by (simp add: has_input_append)
    then have u8: "decode_u8 d = (Ok i, dec_forward (length as) d)" using id(1) d by (simp add: parses_def)
    have peek: "peek_u8 d = Some i" using d id(2) by (auto intro: peek_u8_input)
    have "then_op (decode_value t) ?k (dec_forward (length as) d) =
        (Ok (Some v' # vs', 0), dec_forward (length (as @ bs @ cs)) d)"
      using body d has_input_append [of d as "bs @ cs"] by (simp add: parses_def)
    with u8 peek pos cnt show "decode_fields (Field i opt t # fs) (of_nat (Suc (present vs))) d =
        (Ok (Some v' # vs', 0), dec_forward (length (as @ bs @ cs)) d)"
      by (simp del: of_nat_Suc)
  qed
qed

lemma u8_emits:
  assumes "enc_wf e" and "enc_pos e + 2 \<le> enc_len e"
  shows "\<exists>e'. encode_u8 i e = (Ok (), e') \<and> wrote e [U8_MARKER, i] e'"
proof -
  have "emits (encode_u8 i) e ([U8_MARKER] @ [i]) ()"
    unfolding encode_u8_def by (rule write_then_emits [where n = 1]) (use assms in \<open>auto intro: emits_write\<close>)
  then show ?thesis by (simp add: emits_def)
qed

lemma u8_parses: "parses decode_u8 [U8_MARKER, i] a i"
  unfolding decode_u8_def
  using parses_map [OF parses_bytes [of "[U8_MARKER, i]" 2 a], where f = "\<lambda>bs. bs ! 1"] by simp

lemma wrote_wf: "enc_wf e \<Longrightarrow> wrote e bs e' \<Longrightarrow> enc_wf e' \<and> enc_len e' = enc_len e \<and>
    length (enc_mem e') = length (enc_mem e)"
  using enc_wf_frame wrote_frame by (auto simp: enc_frame_def)

lemma overflows_later:
  assumes "m e = (Ok x, e1)" and "enc_frame e e1" and "overflows (k x) e1"
  shows "overflows (then_op m k) e"
  using assms enc_frame_trans by (auto simp: overflows_def)

text \<open>A field that is present: its id, its value and the remaining fields.\<close>

lemma present_field_codes:
  assumes wf: "enc_wf e" and small: "enc_len e < 2 ^ 31" and cnt: "Suc (present ws) < 32"
    and vok: "value_ok t x e" and fok: "fields_ok fs ws e"
    and val: "\<And>e. enc_wf e \<Longrightarrow> enc_len e < 2 ^ 31 \<Longrightarrow> value_ok t x e \<Longrightarrow> codes t x e"
    and rest: "\<And>e. enc_wf e \<Longrightarrow> enc_len e < 2 ^ 31 \<Longrightarrow> fields_ok fs ws e \<Longrightarrow> codes_fields fs ws e"
  shows "codes_fields (Field i opt t # fs) (Some x # ws) e"
proof -
  let ?L2 = "len_value t x (enc_pos e + 2)"
  let ?L3 = "len_fields fs ws ?L2"
  have mono: "enc_pos e + 2 \<le> ?L2" "?L2 \<le> ?L3" by (rule len_value_mono)+
  have len: "len_fields (Field i opt t # fs) (Some x # ws) (enc_pos e) = ?L3"
    by (simp add: len_uint_def)
  have enc: "encode_fields (Field i opt t # fs) (Some x # ws) =
      then_op (encode_u8 i) (\<lambda>_. then_op (encode_value t x) (\<lambda>v'.
      then_op (encode_fields fs ws) (\<lambda>vs' e. (Ok (Some v' # vs'), e))))" by (rule ext) simp
  show ?thesis
  proof (cases "enc_pos e + 2 \<le> enc_len e")
    case False
    then have "overflows (encode_fields (Field i opt t # fs) (Some x # ws)) e"
      unfolding enc using u8.enc_full [OF wf] by (intro overflows_then) simp
    with False mono show ?thesis unfolding codes_fields_def len by simp
  next
    case True
    obtain e1 where e1: "encode_u8 i e = (Ok (), e1)" "wrote e [U8_MARKER, i] e1"
      using u8_emits [OF wf True] by blast
    note w1 = wrote_wf [OF wf e1(2)] and p1 = wrote_pos [OF e1(2)]
    have ok1: "value_ok t x e1" "fields_ok fs ws e1"
      using value_ok_frame w1 vok fok by metis+
    have c1: "codes t x e1" using val w1 small ok1(1) by simp
    show ?thesis
    proof (cases "?L2 \<le> enc_len e")
      case False
      then have "overflows (encode_value t x) e1" using c1 w1 p1 by (simp add: codes_def)
      then have "overflows (encode_fields (Field i opt t # fs) (Some x # ws)) e"
        unfolding enc by (intro overflows_later [where m = "encode_u8 i", OF e1(1) wrote_frame [OF e1(2)]] overflows_then)
      with False mono show ?thesis unfolding codes_fields_def len by simp
    next
      case True
      obtain bs v' e2 where e2: "encode_value t x e1 = (Ok v', e2)" "wrote e1 bs e2" "enc_pos e2 = ?L2"
          "parses (decode_value t) bs (enc_addr e1) v'" "moved e1 (arrays x) e2 (arrays v')"
        using c1 True w1 p1 by (auto simp: codes_def)
      note w2 = wrote_wf [OF conjunct1 [OF w1] e2(2)]
      have ok2: "fields_ok fs ws e2" using value_ok_frame(2) w1 w2 fok by metis
      have c2: "codes_fields fs ws e2" using rest w1 w2 small ok2 by simp
      show ?thesis
      proof (cases "?L3 \<le> enc_len e")
        case False
        then have "overflows (encode_fields fs ws) e2" using c2 w1 w2 e2(3) by (simp add: codes_fields_def)
        then have "overflows (encode_fields (Field i opt t # fs) (Some x # ws)) e"
          unfolding enc
          by (intro overflows_later [where m = "encode_u8 i", OF e1(1) wrote_frame [OF e1(2)]]
              overflows_later [where m = "encode_value t x", OF e2(1) wrote_frame [OF e2(2)]] overflows_then)
        with False show ?thesis unfolding codes_fields_def len by simp
      next
        case True
        obtain cs vs' e3 where e3: "encode_fields fs ws e2 = (Ok vs', e3)" "wrote e2 cs e3" "enc_pos e3 = ?L3"
            "parses (decode_fields fs (of_nat (present ws))) cs (enc_addr e2) (vs', 0)"
            "moved e2 (arrays_of ws) e3 (arrays_of vs')"
          using c2 True w1 w2 e2(3) by (auto simp: codes_fields_def)
        let ?bs = "[U8_MARKER, i] @ bs @ cs"
        have f12: "enc_frame e e1" "enc_frame e1 e2" "enc_frame e2 e3"
          using e1(2) e2(2) e3(2) by (simp_all add: wrote_def)
        have wr: "wrote e ?bs e3"
          using wrote_append [OF wf e1(2)] wrote_append [OF conjunct1 [OF w1] e2(2) e3(2)] by blast
        have "parses (decode_fields (Field i opt t # fs) (of_nat (Suc (present ws)))) ?bs (enc_addr e) (Some v' # vs', 0)"
          using present_field_parses [where a = "enc_addr e" and t = t and bs = bs and v' = v' and opt = opt
              and fs = fs and cs = cs and vs' = vs', OF u8_parses refl _ _ cnt, of i] e2(4) e3(4)
            wrote_addr [OF e1(2)] wrote_addr [OF e2(2)] by simp
        moreover have "moved e (arrays_of (Some x # ws)) e3 (arrays_of (Some v' # vs'))"
        proof -
          have "moved e1 (arrays x) e3 (arrays v')"
            by (rule moved_later [OF e2(5) conjunct1 [OF w1] f12(2,3)])
          then have m1: "moved e (arrays x) e3 (arrays v')"
            by (rule moved_earlier [OF _ wf f12(1)]) (rule value_ok_arrays(1) [OF vok])
          have m2: "moved e (arrays_of ws) e3 (arrays_of vs')"
            by (rule moved_earlier [OF e3(5) wf enc_frame_trans [OF f12(1,2)]])
              (rule value_ok_arrays(2) [OF fok])
          from moved_append [OF m1 m2] show ?thesis by simp
        qed
        moreover have "encode_fields (Field i opt t # fs) (Some x # ws) e = (Ok (Some v' # vs'), e3)"
          unfolding enc using e1(1) e2(1) e3(1) by simp
        ultimately show ?thesis
          using True wr e3(3) unfolding codes_fields_def len by auto
      qed
    qed
  qed
qed

lemma fields_code:
  assumes "\<And>i opt t v e. Field i opt t \<in> set fs \<Longrightarrow> enc_wf e \<Longrightarrow> enc_len e < 2 ^ 31 \<Longrightarrow> value_ok t v e \<Longrightarrow> codes t v e"
    and "distinct (map field_id fs)" and "length fs < 32"
    and "enc_wf e" and "enc_len e < 2 ^ 31" and "fields_ok fs vs e"
  shows "codes_fields fs vs e"
  using assms
proof (induction fs arbitrary: vs e)
  case Nil
  then have "vs = []" by (cases vs) auto
  moreover have "parses (decode_fields [] 0) [] (enc_addr e) ([], 0)" by (simp add: parses_def)
  ultimately show ?case using Nil.prems wrote_Nil [of e]
    by (auto simp: codes_fields_def enc_wf_def intro!: exI [of _ "[]"])
next
  case (Cons f fs)
  obtain i opt t where f: "f = Field i opt t" by (cases f)
  obtain v ws where vs: "vs = v # ws" using Cons.prems(6) by (cases vs) (auto simp: f)
  have IH: "codes_fields fs ws e'" if "enc_wf e'" "enc_len e' < 2 ^ 31" "fields_ok fs ws e'" for e'
    by (rule Cons.IH [OF Cons.prems(1)]) (use Cons.prems(2,3) that in auto)
  have small: "present vs < 32"
    using present_le [of vs] fields_ok_length [OF Cons.prems(6)] Cons.prems(3) by simp
  have wsok: "fields_ok fs ws e" using Cons.prems(6) by (simp add: f vs)
  show ?case
  proof (cases v)
    case None
    have opt: "opt" using Cons.prems(6) by (simp add: f vs None)
    note rest = IH [OF Cons.prems(4,5) wsok]
    show ?thesis
    proof (cases "len_fields fs ws (enc_pos e) \<le> enc_len e")
      case True
      then obtain bs vs' e' where r: "encode_fields fs ws e = (Ok vs', e')" "wrote e bs e'"
          "enc_pos e' = len_fields fs ws (enc_pos e)"
          "parses (decode_fields fs (of_nat (present ws))) bs (enc_addr e) (vs', 0)"
          "present ws > 0 \<longrightarrow> (\<exists>j cs. bs = U8_MARKER # j # cs \<and> j \<in> field_id ` set fs)"
          "moved e (arrays_of ws) e' (arrays_of vs')"
        using rest by (auto simp: codes_fields_def)
      have "parses (decode_fields (f # fs) (of_nat (present vs))) bs (enc_addr e) (None # vs', 0)"
        using absent_field_parses [OF r(4) _ _ r(5), of i t] small Cons.prems(2)
        by (simp add: f vs None opt)
      with True r show ?thesis by (auto simp: codes_fields_def f vs None opt)
    next
      case False
      then have "overflows (encode_fields fs ws) e" using rest by (simp add: codes_fields_def)
      then have "overflows (encode_fields (f # fs) vs) e"
        by (auto simp: overflows_def f vs None opt)
      with False show ?thesis by (simp add: codes_fields_def f vs None)
    qed
  next
    case (Some x)
    have xok: "value_ok t x e" using Cons.prems(6) by (simp add: f vs Some)
    have val: "codes t x e'" if "enc_wf e'" "enc_len e' < 2 ^ 31" "value_ok t x e'" for e'
      by (rule Cons.prems(1) [of i opt]) (use that in \<open>simp_all add: f\<close>)
    have "Suc (present ws) < 32" using small by (simp add: vs Some)
    then show ?thesis unfolding f vs Some
      by (rule present_field_codes [OF Cons.prems(4,5) _ xok wsok val IH])
  qed
qed

section \<open>Every value\<close>

lemma field_size: "Field i opt t \<in> set fs \<Longrightarrow> size t < size (TStruct fs)"
  by (induction fs) auto

lemma struct_count_present: "length fs = length vs \<Longrightarrow> struct_count fs vs = of_nat (present vs)"
proof -
  assume "length fs = length vs"
  moreover have "length (filter (\<lambda>v. v = None) vs) + present vs = length vs"
    unfolding present_def by (rule sum_length_filter_compl)
  ultimately show ?thesis
    by (metis (no_types, lifting) add_diff_cancel_left' of_nat_add struct_count_def)
qed

lemma struct_codes:
  assumes wf: "enc_wf e" and small: "enc_len e < 2 ^ 31" and n: "length fs < 32" and ok: "fields_ok fs vs e"
    and fields: "\<And>e. enc_wf e \<Longrightarrow> enc_len e < 2 ^ 31 \<Longrightarrow> fields_ok fs vs e \<Longrightarrow> codes_fields fs vs e"
  shows "codes (TStruct fs) (VStruct vs) e"
proof -
  let ?c = "of_nat (present vs) :: u8"
  have cnt: "struct_count fs vs = ?c" by (rule struct_count_present [OF fields_ok_length [OF ok]])
  have "present vs < 32" using present_le [of vs] fields_ok_length [OF ok] n by simp
  then have c: "?c < 32" by (simp add: word_less_nat_alt unsigned_of_nat take_bit_nat_eq_self)
  have enc: "encode_value (TStruct fs) (VStruct vs) = then_op (encode_map ?c) (\<lambda>_.
      then_op (encode_fields fs vs) (\<lambda>vs' e. (Ok (VStruct vs'), e)))" by (rule ext) (simp add: cnt)
  have dec: "decode_value (TStruct fs) = then_op decode_map (\<lambda>cnt. then_op (decode_fields fs cnt) (\<lambda>(vs, cnt) d.
       if cnt \<noteq> 0 then (Err InvalidLen, d) else (Ok (VStruct vs), d)))" by (rule ext) simp
  let ?L = "len_fields fs vs (enc_pos e + 1)"
  have len: "len_value (TStruct fs) (VStruct vs) (enc_pos e) = ?L" by (simp add: len_map_def)
  have mono: "enc_pos e + 1 \<le> ?L" by (rule len_value_mono)
  show ?thesis
  proof (cases "enc_pos e + 1 \<le> enc_len e")
    case False
    then have "overflows (encode_value (TStruct fs) (VStruct vs)) e"
      unfolding enc using map.enc_full [OF wf c] by (intro overflows_then) simp
    with False mono show ?thesis unfolding codes_def len by simp
  next
    case True
    obtain as e1 where e1: "encode_map ?c e = (Ok (), e1)" "wrote e as e1" "length as = 1"
        "parses decode_map as (enc_addr e) ?c"
      using map.enc_fits [OF wf c True] by (auto simp: emits_def)
    note w1 = wrote_wf [OF wf e1(2)] and p1 = wrote_pos [OF e1(2), unfolded e1(3)]
    have "fields_ok fs vs e1" using value_ok_frame(2) w1 ok by metis
    then have c1: "codes_fields fs vs e1" using fields w1 small by simp
    show ?thesis
    proof (cases "?L \<le> enc_len e")
      case False
      then have "overflows (encode_fields fs vs) e1" using c1 w1 p1 by (simp add: codes_fields_def)
      then have "overflows (encode_value (TStruct fs) (VStruct vs)) e"
        unfolding enc
        by (intro overflows_later [where m = "encode_map ?c", OF e1(1) wrote_frame [OF e1(2)]] overflows_then)
      with False show ?thesis unfolding codes_def len by simp
    next
      case True
      obtain bs vs' e2 where e2: "encode_fields fs vs e1 = (Ok vs', e2)" "wrote e1 bs e2" "enc_pos e2 = ?L"
          "parses (decode_fields fs ?c) bs (enc_addr e1) (vs', 0)" "moved e1 (arrays_of vs) e2 (arrays_of vs')"
        using c1 True w1 p1 by (auto simp: codes_fields_def)
      have "parses (then_op (decode_fields fs ?c) (\<lambda>(vs, cnt) d.
          if cnt \<noteq> 0 then (Err InvalidLen, d) else (Ok (VStruct vs), d))) bs (enc_addr e + length as) (VStruct vs')"
        using e2(4) wrote_addr [OF e1(2)] by (intro parses_if [where x = "(vs', 0)"]) (simp_all add: fun_eq_iff)
      then have "parses (decode_value (TStruct fs)) (as @ bs) (enc_addr e) (VStruct vs')"
        unfolding dec by (rule parses_then [OF e1(4)])
      moreover have "moved e (arrays (VStruct vs)) e2 (arrays (VStruct vs'))"
        using moved_earlier [OF e2(5) wf wrote_frame [OF e1(2)] value_ok_arrays(2) [OF ok]] by simp
      moreover have "encode_value (TStruct fs) (VStruct vs) e = (Ok (VStruct vs'), e2)"
        unfolding enc using e1(1) e2(1) by simp
      ultimately show ?thesis
        using True e2(3) wrote_append [OF wf e1(2) e2(2)] unfolding codes_def len by auto
    qed
  qed
qed

lemma value_codes:
  assumes "type_wf t" and "enc_wf e" and "enc_len e < 2 ^ 31" and "value_ok t v e"
  shows "codes t v e"
  using assms
proof (induction t arbitrary: v e rule: measure_induct_rule [of size])
  case (less t)
  note wf = less.prems(2)
  show ?case
  proof (cases t)
    case TU8
    then obtain x where v: "v = VU8 x" using less.prems(4) by (cases v) auto
    show ?thesis unfolding v TU8
      by (rule plain_codes [OF u8.runs [OF wf TrueI, of x]]) (auto simp: fun_eq_iff len_uint_def)
  next
    case TU16
    then obtain x where v: "v = VU16 x" using less.prems(4) by (cases v) auto
    show ?thesis unfolding v TU16
      by (rule plain_codes [OF u16.runs [OF wf TrueI, of x]]) (auto simp: fun_eq_iff len_uint_def)
  next
    case TU32
    then obtain x where v: "v = VU32 x" using less.prems(4) by (cases v) auto
    show ?thesis unfolding v TU32
      by (rule plain_codes [OF u32.runs [OF wf TrueI, of x]]) (auto simp: fun_eq_iff len_uint_def)
  next
    case TU64
    then obtain x where v: "v = VU64 x" using less.prems(4) by (cases v) auto
    show ?thesis unfolding v TU64
      by (rule plain_codes [OF u64.runs [OF wf TrueI, of x]]) (auto simp: fun_eq_iff len_uint_def)
  next
    case TBool
    then obtain x where v: "v = VBool x" using less.prems(4) by (cases v) auto
    show ?thesis unfolding v TBool
      by (rule plain_codes [OF bool.runs [OF wf TrueI, of x]]) (auto simp: fun_eq_iff len_bool_def)
  next
    case (TArray n)
    then obtain x where v: "v = VArray x" "length x = n" using less.prems(4) by (cases v) auto
    have "length x = n \<and> n < 65536" using v less.prems(1) TArray by simp
    from plain_codes [OF arr.runs [OF wf this], of "TArray n" "VArray x" VArray]
    show ?thesis unfolding v(1) TArray using v(2) by (auto simp: fun_eq_iff len_slice_def)
  next
    case (TBytes cap)
    then obtain a where "v = VBytes a" "array_ok cap a e" using less.prems(4) by (cases v) auto
    then show ?thesis unfolding TBytes using array_codes [OF wf _ less.prems(3)] by simp
  next
    case (TStruct fs)
    then obtain vs where v: "v = VStruct vs" "fields_ok fs vs e" using less.prems(4) by (cases v) auto
    have twf: "length fs < 32" "distinct (map field_id fs)" "\<And>i opt t. Field i opt t \<in> set fs \<Longrightarrow> type_wf t"
      using less.prems(1) by (auto simp: TStruct list_all_iff split: mbor_field.splits)
    have "codes_fields fs vs e'" if "enc_wf e'" "enc_len e' < 2 ^ 31" "fields_ok fs vs e'" for e'
      by (rule fields_code [OF less.IH twf(2,1) that]) (use TStruct field_size twf(3) in auto)
    then show ?thesis unfolding v(1) TStruct
      by (intro struct_codes [OF wf less.prems(3) twf(1) v(2)])
  qed
qed

section \<open>Decoding untrusted bytes\<close>

definition dec_wf :: "mbor_decoder \<Rightarrow> bool" where
  "dec_wf d \<longleftrightarrow> dec_base d + dec_len d \<le> length (dec_mem d) \<and> dec_pos d \<le> dec_len d"

definition dec_frame :: "mbor_decoder \<Rightarrow> mbor_decoder \<Rightarrow> bool" where
  "dec_frame d d' \<longleftrightarrow> dec_mem d' = dec_mem d \<and> dec_base d' = dec_base d \<and> dec_len d' = dec_len d \<and>
     dec_pos d \<le> dec_pos d' \<and> dec_pos d' \<le> dec_len d"

definition dec_safe :: "('a \<Rightarrow> bool) \<Rightarrow> 'a dec_op \<Rightarrow> mbor_decoder \<Rightarrow> bool" where
  "dec_safe P m d \<longleftrightarrow> (case m d of (Ok x, d') \<Rightarrow> dec_frame d d' \<and> P x
     | (Err _, d') \<Rightarrow> dec_frame d d' | (Panic, _) \<Rightarrow> False)"

lemma dec_frame_wf: "dec_wf d \<Longrightarrow> dec_frame d d' \<Longrightarrow> dec_wf d'"
  by (simp add: dec_wf_def dec_frame_def)

lemma dec_frame_refl: "dec_wf d \<Longrightarrow> dec_frame d d"
  by (simp add: dec_wf_def dec_frame_def)

lemma dec_frame_trans: "dec_frame d d' \<Longrightarrow> dec_frame d' d'' \<Longrightarrow> dec_frame d d''"
  by (auto simp: dec_frame_def)

lemma dec_safe_then:
  assumes "dec_safe P m d" and "dec_wf d"
    and "\<And>x d'. P x \<Longrightarrow> dec_frame d d' \<Longrightarrow> dec_wf d' \<Longrightarrow> dec_safe Q (k x) d'"
  shows "dec_safe Q (then_op m k) d"
proof (cases "m d")
  case (Pair r d')
  show ?thesis
  proof (cases r)
    case (Ok x)
    with Pair assms(1) have "dec_frame d d'" "P x" by (simp_all add: dec_safe_def)
    with assms(2,3) have "dec_safe Q (k x) d'" by (blast intro: dec_frame_wf)
    with Pair Ok \<open>dec_frame d d'\<close> show ?thesis
      by (auto simp: dec_safe_def split: outcome.splits prod.splits intro: dec_frame_trans)
  qed (use Pair assms(1) in \<open>auto simp: dec_safe_def\<close>)
qed

lemma dec_safe_Ok: "dec_wf d \<Longrightarrow> P x \<Longrightarrow> dec_safe P (\<lambda>d. (Ok x, d)) d"
  by (simp add: dec_safe_def dec_frame_refl)

lemma dec_safe_Err: "dec_wf d \<Longrightarrow> dec_safe P (\<lambda>d. (Err e, d)) d"
  by (simp add: dec_safe_def dec_frame_refl)

lemma dec_safe_if:
  "(b \<Longrightarrow> dec_safe P m d) \<Longrightarrow> (\<not> b \<Longrightarrow> dec_safe P n d) \<Longrightarrow> dec_safe P (\<lambda>d. if b then m d else n d) d"
  by (simp add: dec_safe_def)

lemma dec_safe_bytes: "dec_wf d \<Longrightarrow> dec_safe (\<lambda>bs. length bs = n) (dec_bytes n) d"
  by (auto simp: dec_safe_def dec_bytes_def dec_frame_def dec_wf_def dec_addr_def)

lemma dec_safe_skip: "dec_wf d \<Longrightarrow> dec_safe (\<lambda>_. True) (dec_skip n) d"
  by (auto simp: dec_safe_def dec_skip_def dec_frame_def dec_wf_def)

lemma dec_safe_skip_addr:
  "dec_wf d \<Longrightarrow> dec_safe (\<lambda>_. dec_pos d + n \<le> dec_len d) (dec_skip n) d"
  by (auto simp: dec_safe_def dec_skip_def dec_frame_def dec_wf_def)

lemma dec_safe_map:
  assumes "dec_safe P m d" and "dec_wf d" and "\<And>x. P x \<Longrightarrow> Q (f x)"
  shows "dec_safe Q (then_op m (\<lambda>x d. (Ok (f x), d))) d"
  by (rule dec_safe_then [OF assms(1,2)]) (auto intro: dec_safe_Ok assms(3))

lemma dec_safe_byte: "dec_wf d \<Longrightarrow> dec_safe (\<lambda>_. True) dec_byte d"
  unfolding dec_byte_def by (rule dec_safe_map [OF dec_safe_bytes]) auto

lemma dec_safe_scalars:
  assumes "dec_wf d"
  shows "dec_safe (\<lambda>_. True) decode_u8 d" and "dec_safe (\<lambda>_. True) decode_u16 d"
    and "dec_safe (\<lambda>_. True) decode_u32 d" and "dec_safe (\<lambda>_. True) decode_u64 d"
    and "dec_safe (\<lambda>_. True) decode_bool d" and "dec_safe (\<lambda>_. True) decode_map d"
  unfolding decode_u8_def decode_u16_def decode_u32_def decode_u64_def decode_bool_def decode_map_def Let_def
  using assms
  by (auto intro!: dec_safe_map [OF dec_safe_bytes] dec_safe_then [OF dec_safe_byte] dec_safe_if
      dec_safe_Ok dec_safe_Err)

lemma dec_safe_array:
  assumes "dec_wf d"
  shows "dec_safe (\<lambda>v. length v = n) (decode_array n) d"
  unfolding decode_array_def Let_def using assms
  by (intro dec_safe_then [OF dec_safe_byte] dec_safe_if dec_safe_Err dec_safe_then [OF dec_safe_bytes])
    (auto intro!: dec_safe_if dec_safe_Ok dec_safe_Err dec_safe_then [OF dec_safe_bytes])

definition in_buffer :: "mbor_decoder \<Rightarrow> mbor_byte_array \<Rightarrow> bool" where
  "in_buffer d a \<longleftrightarrow> dec_base d \<le> ba_ptr a \<and> ba_ptr a + ba_len a \<le> dec_base d + dec_len d"

lemma dec_safe_byte_array:
  assumes d: "dec_wf d" and cap: "cap < 65536"
  shows "dec_safe (\<lambda>a. in_buffer d a \<and> ba_len a \<le> cap) (decode_byte_array cap) d"
  unfolding decode_byte_array_def
proof (rule dec_safe_then [OF dec_safe_byte [OF d] d], intro dec_safe_if dec_safe_Err)
  fix m d1 assume f1: "dec_frame d d1" and d1: "dec_wf d1"
  let ?P = "\<lambda>a. in_buffer d a \<and> ba_len a \<le> cap"
  show "dec_safe ?P (\<lambda>d. then_op (dec_bytes 2) (\<lambda>bs d. let len = (be_word bs :: u16) in
       if len > of_nat cap then (Err BufferUnderFlow, d)
       else then_op (dec_skip (unat (m AND BYTES_PAD_MASK))) (\<lambda>_ d.
         let a = \<lparr>ba_ptr = dec_addr d, ba_len = unat len\<rparr>
         in then_op (dec_skip (unat len)) (\<lambda>_ d. (Ok a, d)) d) d) d) d1"
    unfolding Let_def
  proof (rule dec_safe_then [OF dec_safe_bytes [OF d1] d1], intro dec_safe_if dec_safe_Err)
    fix bs :: bytes and d2 assume f2: "dec_frame d1 d2" and d2: "dec_wf d2"
      and le: "\<not> of_nat cap < (be_word bs :: u16)"
    have len: "unat (be_word bs :: u16) \<le> cap"
      using le cap by (simp add: word_less_nat_alt u16_len)
    show "dec_safe ?P (\<lambda>d. then_op (dec_skip (unat (m AND BYTES_PAD_MASK))) (\<lambda>_ d.
         then_op (dec_skip (unat (be_word bs :: u16))) (\<lambda>_ d'. (Ok \<lparr>ba_ptr = dec_addr d, ba_len = unat (be_word bs :: u16)\<rparr>, d')) d) d) d2"
    proof (rule dec_safe_then [OF dec_safe_skip [OF d2] d2])
      fix x d3 assume f3: "dec_frame d2 d3" and d3: "dec_wf d3"
      have "?P \<lparr>ba_ptr = dec_addr d3, ba_len = unat (be_word bs :: u16)\<rparr>"
        if "dec_pos d3 + unat (be_word bs :: u16) \<le> dec_len d3"
        using that len f1 f2 f3 by (simp add: in_buffer_def dec_frame_def dec_addr_def)
      then show "dec_safe ?P (\<lambda>d. then_op (dec_skip (unat (be_word bs :: u16)))
          (\<lambda>_ d'. (Ok \<lparr>ba_ptr = dec_addr d, ba_len = unat (be_word bs :: u16)\<rparr>, d')) d) d3"
        using dec_safe_map [OF dec_safe_skip_addr [OF d3] d3,
            where f = "\<lambda>_. \<lparr>ba_ptr = dec_addr d3, ba_len = unat (be_word bs :: u16)\<rparr>" and Q = ?P
              and n1 = "unat (be_word bs :: u16)"]
        by (simp add: dec_safe_def)
    qed
  qed
qed

text \<open>A decoded value has the shape of its type, and its byte arrays lie in the buffer.\<close>

definition enc_on :: "mbor_decoder \<Rightarrow> mbor_encoder" where
  "enc_on d = \<lparr>enc_mem = dec_mem d, enc_base = dec_base d, enc_len = dec_len d, enc_pos = dec_pos d\<rparr>"

definition decoded :: "mbor_decoder \<Rightarrow> mbor_type \<Rightarrow> mbor_value \<Rightarrow> bool" where
  "decoded d t v \<longleftrightarrow> value_ok t v (enc_on d) \<and> (\<forall>a \<in> set (arrays v). in_buffer d a)"

definition decoded_fields :: "mbor_decoder \<Rightarrow> mbor_field list \<Rightarrow> mbor_value option list \<Rightarrow> bool" where
  "decoded_fields d fs vs \<longleftrightarrow> fields_ok fs vs (enc_on d) \<and> (\<forall>a \<in> set (arrays_of vs). in_buffer d a)"

lemma decoded_frame:
  assumes "dec_frame d d'"
  shows "decoded d' t v = decoded d t v" and "decoded_fields d' fs vs = decoded_fields d fs vs"
proof -
  have len: "length (enc_mem (enc_on d')) = length (enc_mem (enc_on d))" and buf: "in_buffer d' = in_buffer d"
    using assms by (simp_all add: enc_on_def dec_frame_def in_buffer_def fun_eq_iff)
  show "decoded d' t v = decoded d t v"
    unfolding decoded_def value_ok_frame(1) [OF len, of t v] buf ..
  show "decoded_fields d' fs vs = decoded_fields d fs vs"
    unfolding decoded_fields_def value_ok_frame(2) [OF len, of fs vs] buf ..
qed

lemma decoded_fields_Cons:
  "decoded_fields d (Field i opt t # fs) (Some v # vs) \<longleftrightarrow> decoded d t v \<and> decoded_fields d fs vs"
  "decoded_fields d (Field i opt t # fs) (None # vs) \<longleftrightarrow> opt \<and> decoded_fields d fs vs"
  by (auto simp: decoded_fields_def decoded_def)

lemma dec_safe_eq: "m d = n d \<Longrightarrow> dec_safe P n d \<Longrightarrow> dec_safe P m d"
  by (simp add: dec_safe_def)

lemma dec_safe_map_pair:
  assumes "dec_safe (\<lambda>(vs, c). P vs) m d" and "dec_wf d" and "\<And>vs. P vs \<Longrightarrow> Q (f vs)"
  shows "dec_safe (\<lambda>(vs, c). Q vs) (then_op m (\<lambda>(vs, c) d. (Ok (f vs, c), d))) d"
proof (rule dec_safe_then [OF assms(1,2)])
  fix x d' assume "case x of (vs, c) \<Rightarrow> P vs" and "dec_wf d'"
  then show "dec_safe (\<lambda>(vs, c). Q vs) (case x of (vs, c) \<Rightarrow> \<lambda>d. (Ok (f vs, c), d)) d'"
    using assms(3) by (cases x) (simp add: dec_safe_Ok)
qed

lemma fields_safe:
  assumes "\<And>i opt t d. Field i opt t \<in> set fs \<Longrightarrow> dec_wf d \<Longrightarrow> dec_safe (decoded d t) (decode_value t) d"
    and "dec_wf d"
  shows "dec_safe (\<lambda>(vs, cnt). decoded_fields d fs vs) (decode_fields fs cnt) d"
  using assms
proof (induction fs arbitrary: cnt d)
  case Nil
  have "decode_fields [] cnt = (\<lambda>d. (Ok ([], cnt), d))" by (rule ext) simp
  with Nil show ?case by (auto intro: dec_safe_Ok simp: decoded_fields_def)
next
  case (Cons f fs)
  obtain i opt t where f: "f = Field i opt t" by (cases f)
  have val: "dec_safe (decoded d1 t) (decode_value t) d1" if "dec_wf d1" for d1
    by (rule Cons.prems(1) [of i opt]) (use that in \<open>simp_all add: f\<close>)
  have pre: "dec_safe (decoded d1 s) (decode_value s) d1" if "Field j o' s \<in> set fs" "dec_wf d1" for j o' s d1
    by (rule Cons.prems(1) [of j o']) (use that in simp_all)
  have rest: "dec_safe (\<lambda>(vs, cnt). decoded_fields d fs vs) (decode_fields fs c) d1"
    if "dec_frame d d1" "dec_wf d1" for c d1
    using Cons.IH [where cnt = c and d = d1, OF pre that(2)] decoded_frame(2) [OF that(1)] by simp
  let ?Q = "\<lambda>(vs, cnt :: u8). decoded_fields d (f # fs) vs"
  let ?k = "\<lambda>c v. then_op (decode_fields fs c) (\<lambda>(vs, cnt) d. (Ok (Some v # vs, cnt), d))"
  have tail: "dec_safe ?Q (?k c v) d1" if "decoded d t v" "dec_frame d d1" "dec_wf d1" for c v d1
    by (rule dec_safe_map_pair [OF rest [OF that(2,3)] that(3)]) (simp add: f decoded_fields_Cons that(1))
  have body: "dec_safe ?Q (then_op (decode_value t) (?k c)) d1" if fr: "dec_frame d d1" and wf: "dec_wf d1" for c d1
  proof (rule dec_safe_then [OF val [OF wf] wf])
    fix v d2 assume "decoded d1 t v" "dec_frame d1 d2" "dec_wf d2"
    then show "dec_safe ?Q (?k c v) d2"
      using decoded_frame(1) [OF fr] dec_frame_trans [OF fr] by (intro tail) simp_all
  qed
  have none: "dec_safe ?Q (then_op (decode_fields fs cnt) (\<lambda>(vs, cnt) d. (Ok (None # vs, cnt), d))) d" if "opt"
    by (rule dec_safe_map_pair [OF rest [OF dec_frame_refl [OF Cons.prems(2)] Cons.prems(2)] Cons.prems(2)])
      (simp add: f decoded_fields_Cons that)
  have some: "dec_safe ?Q (then_op decode_u8 (\<lambda>_. then_op (decode_value t) (?k (cnt - 1)))) d"
    by (rule dec_safe_then [OF dec_safe_scalars(1) [OF Cons.prems(2)] Cons.prems(2)]) (rule body)
  have must: "dec_safe ?Q (then_op decode_u8 (\<lambda>id d. if id \<noteq> i then (Err InvalidId, d)
      else then_op (decode_value t) (?k (cnt - 1)) d)) d"
  proof (rule dec_safe_then [OF dec_safe_scalars(1) [OF Cons.prems(2)] Cons.prems(2)])
    fix j d1 assume "dec_frame d d1" "dec_wf d1"
    then show "dec_safe ?Q (\<lambda>d. if j \<noteq> i then (Err InvalidId, d) else then_op (decode_value t) (?k (cnt - 1)) d) d1"
      by (intro dec_safe_if dec_safe_Err body)
  qed
  show ?case
  proof (cases opt)
    case True
    show ?thesis
    proof (cases "cnt > 0 \<and> peek_u8 d = Some i")
      case hit: True
      show ?thesis by (rule dec_safe_eq [OF _ some]) (simp only: f True hit decode_fields.simps if_True simp_thms)
    next
      case False
      show ?thesis
        by (rule dec_safe_eq [OF _ none [OF True]]) (simp only: f True False decode_fields.simps if_True if_False)
    qed
  next
    case False
    show ?thesis
    proof (cases "cnt = 0")
      case True
      show ?thesis
        by (rule dec_safe_eq [OF _ dec_safe_Err [OF Cons.prems(2), of _ InvalidId]])
          (simp add: f True False)
    next
      case nz: False
      show ?thesis
        by (rule dec_safe_eq [OF _ must]) (simp only: f nz False decode_fields.simps if_False)
    qed
  qed
qed

lemma value_safe:
  assumes "type_wf t" and "dec_wf d"
  shows "dec_safe (decoded d t) (decode_value t) d"
  using assms
proof (induction t arbitrary: d rule: measure_induct_rule [of size])
  case (less t)
  note d = less.prems(2)
  show ?case
  proof (cases t)
    case (TArray n)
    show ?thesis by (rule dec_safe_eq [OF _ dec_safe_map [OF dec_safe_array [OF d, of n] d, where f = VArray]])
      (simp_all add: TArray decoded_def)
  next
    case (TBytes cap)
    then have cap: "cap < 65536" using less.prems(1) by simp
    show ?thesis
      by (rule dec_safe_eq [OF _ dec_safe_map [OF dec_safe_byte_array [OF d cap] d, where f = VBytes]])
        (use d cap in \<open>simp_all add: TBytes decoded_def array_ok_def in_buffer_def dec_wf_def enc_on_def\<close>)
  next
    case (TStruct fs)
    have twf: "\<And>i opt t. Field i opt t \<in> set fs \<Longrightarrow> type_wf t"
      using less.prems(1) by (auto simp: TStruct list_all_iff split: mbor_field.splits)
    have fields: "dec_safe (\<lambda>(vs, cnt). decoded_fields d fs vs) (decode_fields fs c) d1"
      if "dec_frame d d1" "dec_wf d1" for c d1
    proof -
      have "dec_safe (decoded d' s) (decode_value s) d'" if "Field i opt s \<in> set fs" "dec_wf d'" for i opt s d'
        by (rule less.IH) (use that TStruct field_size twf in auto)
      from fields_safe [where fs = fs and cnt = c and d = d1, OF this that(2)] show ?thesis using decoded_frame(2) [OF that(1)] by simp
    qed
    have "dec_safe (decoded d t) (then_op decode_map (\<lambda>cnt. then_op (decode_fields fs cnt) (\<lambda>(vs, cnt) d.
       if cnt \<noteq> 0 then (Err InvalidLen, d) else (Ok (VStruct vs), d)))) d"
    proof (rule dec_safe_then [OF dec_safe_scalars(6) [OF d] d])
      fix cnt d1 assume d1: "dec_frame d d1" "dec_wf d1"
      show "dec_safe (decoded d t) (then_op (decode_fields fs cnt) (\<lambda>(vs, cnt) d.
          if cnt \<noteq> 0 then (Err InvalidLen, d) else (Ok (VStruct vs), d))) d1"
      proof (rule dec_safe_then [OF fields [OF d1] d1(2)])
        fix x :: "mbor_value option list \<times> u8" and d2 assume x: "case x of (vs, cnt) \<Rightarrow> decoded_fields d fs vs" and d2: "dec_wf d2"
        obtain vs c where xv: "x = (vs, c)" by (cases x)
        have "decoded d t (VStruct vs)" using x by (simp add: xv TStruct decoded_def decoded_fields_def)
        then show "dec_safe (decoded d t) (case x of (vs, cnt) \<Rightarrow> \<lambda>d.
            if cnt \<noteq> 0 then (Err InvalidLen, d) else (Ok (VStruct vs), d)) d2"
          unfolding xv prod.case using d2 by (intro dec_safe_if dec_safe_Err dec_safe_Ok)
      qed
    qed
    then show ?thesis by (simp add: TStruct dec_safe_def)
  next
    case TU8
    show ?thesis by (rule dec_safe_eq [OF _ dec_safe_map [OF dec_safe_scalars(1) [OF d] d, where f = VU8]])
      (simp_all add: TU8 decoded_def)
  next
    case TU16
    show ?thesis by (rule dec_safe_eq [OF _ dec_safe_map [OF dec_safe_scalars(2) [OF d] d, where f = VU16]])
      (simp_all add: TU16 decoded_def)
  next
    case TU32
    show ?thesis by (rule dec_safe_eq [OF _ dec_safe_map [OF dec_safe_scalars(3) [OF d] d, where f = VU32]])
      (simp_all add: TU32 decoded_def)
  next
    case TU64
    show ?thesis by (rule dec_safe_eq [OF _ dec_safe_map [OF dec_safe_scalars(4) [OF d] d, where f = VU64]])
      (simp_all add: TU64 decoded_def)
  next
    case TBool
    show ?thesis by (rule dec_safe_eq [OF _ dec_safe_map [OF dec_safe_scalars(5) [OF d] d, where f = VBool]])
      (simp_all add: TBool decoded_def)
  qed
qed

end
