(* ===== verification/Ddi_Codec_Props.thy ===== *)
theory Ddi_Codec_Props
  imports Ddi_Codec_Correct
begin

text \<open>
  The properties of the message codec: what the encoder writes the decoder reads back, and decoding
  bytes that come from the host is safe whatever they are.
\<close>

section \<open>A message is a struct of a header and a body\<close>

abbreviation message :: "mbor_type \<Rightarrow> mbor_type \<Rightarrow> mbor_type" where
  "message th td \<equiv> TStruct [Field 0 False th, Field 1 False td]"

lemma message_count: "struct_count [Field 0 False th, Field 1 False td] [Some hdr, Some data] = 2"
  by (simp add: struct_count_def)

lemma encode_parts_Ok:
  assumes "encode_value (message th td) (VStruct [Some hdr, Some data]) e = (Ok (VStruct [Some h, Some x]), e')"
  shows "encode_parts th hdr td data e = (Ok (enc_len e - enc_remaining e', h, x), e')"
  using assms by (auto simp: res_simps message_count encode_parts_def map_err_def)

lemma encode_parts_Err:
  assumes "encode_value (message th td) (VStruct [Some hdr, Some data]) e = (Err er, e')"
  shows "encode_parts th hdr td data e = (Err EncodeError, e')"
  using assms by (auto simp: res_simps message_count encode_parts_def map_err_def)

lemma decode_message:
  assumes "decode_value (message th td) d = (Ok (VStruct [Some h, Some x]), d')"
  shows "\<exists>d1. decode_hdr th d = (Ok h, d1) \<and> (dec_len d' = dec_pos d' \<longrightarrow> decode_data td d1 = (Ok x, d'))"
proof -
  from assms obtain c d1 where c: "decode_map d = (Ok c, d1)"
    "decode_fields [Field 0 False th, Field 1 False td] c d1 = (Ok ([Some h, Some x], 0), d')"
    by (auto simp: res_simps split: if_splits)
  from c(2) obtain d2 d3 d4 where s: "c \<noteq> 0" "c - 1 \<noteq> 0" "c - 1 - 1 = 0" "decode_u8 d1 = (Ok 0, d2)"
    "decode_value th d2 = (Ok h, d3)" "decode_u8 d3 = (Ok 1, d4)" "decode_value td d4 = (Ok x, d')"
    by (auto simp: res_simps split: if_splits)
  have "c = 2" using s(3) by (metis diff_eq_eq one_add_one add_0)
  with c(1) s have "decode_hdr th d = (Ok h, d3)" by (simp add: decode_hdr_def map_err_def)
  moreover have "decode_data td d3 = (Ok x, d')" if "dec_len d' = dec_pos d'"
    using s(6,7) that by (simp add: decode_data_def map_err_def)
  ultimately show ?thesis by blast
qed

lemma encode_message_shape:
  assumes "encode_value (message th td) (VStruct [Some hdr, Some data]) e = (Ok v, e')"
  shows "\<exists>h x. v = VStruct [Some h, Some x]"
  using assms by (auto simp: res_simps)

section \<open>Properties\<close>

text \<open>
  C8: a message survives the wire. For every pair of struct descriptions and every value of them,
  encoding header and body into a buffer either reports an error, exactly when the computed length
  does not fit, without touching memory outside of the buffer; or it fills exactly the computed
  length, and decoding these bytes gives the header and the body back, with every byte array at
  its new place: inside the buffer, at an offset that is a multiple of four, and with its bytes, if
  they were given from outside of the buffer.
\<close>

theorem message_roundtrip:
  assumes "type_wf th" and "type_wf td" and "enc_wf e" and "enc_pos e = 0" and "enc_len e < 2 ^ 31"
    and "value_ok th hdr e" and "value_ok td data e"
  shows "let n = len_value td data (len_value th hdr 3 + 2) in
    if n \<le> enc_len e
    then \<exists>h x e' d. encode_parts th hdr td data e = (Ok (n, h, x), e') \<and> enc_frame e e' \<and>
      decode_hdr th (decoder_new (enc_mem e') (enc_base e) n) = (Ok h, d) \<and> fst (decode_data td d) = Ok x \<and>
      moved e (arrays hdr @ arrays data) e' (arrays h @ arrays x)
    else \<exists>e'. encode_parts th hdr td data e = (Err EncodeError, e') \<and> enc_frame e e'"
proof -
  let ?t = "message th td" and ?v = "VStruct [Some hdr, Some data]"
  have codes: "codes ?t ?v e" by (rule value_codes) (use assms in auto)
  have len: "len_value ?t ?v (enc_pos e) = len_value td data (len_value th hdr 3 + 2)"
    using assms(4) by (simp add: len_map_def len_uint_def numeral_3_eq_3)
  note codes = codes [unfolded codes_def len]
  show ?thesis
  proof (cases "len_value td data (len_value th hdr 3 + 2) \<le> enc_len e")
    case True
    then obtain bs v' e' where r: "encode_value ?t ?v e = (Ok v', e')" "wrote e bs e'"
      "enc_pos e' = len_value td data (len_value th hdr 3 + 2)" "parses (decode_value ?t) bs (enc_addr e) v'"
      "moved e (arrays ?v) e' (arrays v')" using codes by auto
    obtain h x where v': "v' = VStruct [Some h, Some x]" using encode_message_shape [OF r(1)] by blast
    let ?d = "decoder_new (enc_mem e') (enc_base e) (enc_pos e')"
    have fr: "enc_frame e e'" by (rule wrote_frame [OF r(2)])
    have "has_input ?d bs"
      using r(2) fr assms(3,4)
      by (auto simp: has_input_def decoder_new_def dec_addr_def enc_addr_def wrote_def enc_frame_def enc_wf_def)
    then have dec: "decode_value ?t ?d = (Ok (VStruct [Some h, Some x]), dec_forward (length bs) ?d)"
      using r(4) assms(4) by (simp add: parses_def v' decoder_new_def dec_addr_def enc_addr_def)
    have "dec_len (dec_forward (length bs) ?d) = dec_pos (dec_forward (length bs) ?d)"
      using wrote_pos [OF r(2)] assms(4) by (simp add: dec_forward_def decoder_new_def)
    with decode_message [OF dec] obtain d where d: "decode_hdr th ?d = (Ok h, d)" "fst (decode_data td d) = Ok x"
      by auto
    have "enc_len e - enc_remaining e' = enc_pos e'"
      using fr by (auto simp: enc_remaining_def enc_frame_def)
    then have "encode_parts th hdr td data e = (Ok (enc_pos e', h, x), e')"
      using encode_parts_Ok [OF r(1) [unfolded v']] by simp
    with True d fr r(3,5) show ?thesis by (auto simp: Let_def v')
  next
    case False
    then obtain e' where "encode_value ?t ?v e = (Err BufferOverflow, e')" "enc_frame e e'"
      using codes by (auto simp: overflows_def)
    with False encode_parts_Err show ?thesis by (auto simp: Let_def)
  qed
qed

theorem message_roundtrip_witness:
  "\<exists>h x e' d. encode_parts (TStruct [Field 1 False TU32, Field 2 True TU16]) (VStruct [Some (VU32 7), None])
      (TStruct [Field 1 False (TBytes 8)]) (VStruct [Some (VBytes \<lparr>ba_ptr = 1, ba_len = 3\<rparr>)])
      (encoder_new ([0, 1, 2, 3] @ replicate 36 0) 4 32) = (Ok (23, h, x), e') \<and>
    decode_hdr (TStruct [Field 1 False TU32, Field 2 True TU16]) (decoder_new (enc_mem e') 4 23) = (Ok h, d) \<and>
    fst (decode_data (TStruct [Field 1 False (TBytes 8)]) d) = Ok x"
proof -
  have len: "len_value (TStruct [Field 1 False (TBytes 8)]) (VStruct [Some (VBytes \<lparr>ba_ptr = 1, ba_len = 3\<rparr>)])
      (len_value (TStruct [Field 1 False TU32, Field 2 True TU16]) (VStruct [Some (VU32 7), None]) 3 + 2) = 23"
    by code_simp
  show ?thesis
    using message_roundtrip [of "TStruct [Field 1 False TU32, Field 2 True TU16]" "TStruct [Field 1 False (TBytes 8)]"
        "encoder_new ([0, 1, 2, 3] @ replicate 36 0) 4 32" "VStruct [Some (VU32 7), None]"
        "VStruct [Some (VBytes \<lparr>ba_ptr = 1, ba_len = 3\<rparr>)]", unfolded len Let_def]
    by (auto simp: encoder_new_def enc_wf_def array_ok_def)
qed

text \<open>
  C9: decoding untrusted bytes is safe. Whatever bytes the buffer holds, decoding a header and
  then a body never panics, and its only error is the decode error; what it returns has the shape of the
  description, and every byte array in it lies inside the buffer and is not longer than its
  capacity. The body is only accepted when it ends where the buffer ends.
\<close>

theorem decode_untrusted:
  assumes "type_wf th" and "type_wf td" and "base + len \<le> length mem"
  shows "case decode_hdr th (decoder_new mem base len) of
      (Ok h, d) \<Rightarrow> decoded (decoder_new mem base len) th h \<and>
        (case decode_data td d of
           (Ok x, d') \<Rightarrow> decoded (decoder_new mem base len) td x \<and> dec_pos d' = len
         | (Err e, _) \<Rightarrow> e = DecodeError
         | (Panic, _) \<Rightarrow> False)
    | (Err e, _) \<Rightarrow> e = DecodeError
    | (Panic, _) \<Rightarrow> False"
proof -
  let ?d = "decoder_new mem base len"
  have wf: "dec_wf ?d" using assms(3) by (simp add: dec_wf_def decoder_new_def)
  let ?hdr = "then_op decode_map (\<lambda>count d. if count \<noteq> 2 then (Err InvalidLen, d)
      else then_op decode_u8 (\<lambda>res d. if res \<noteq> 0 then (Err InvalidId, d) else decode_value th d) d)"
  let ?data = "then_op decode_u8 (\<lambda>res d. if res \<noteq> 1 then (Err InvalidId, d)
      else then_op (decode_value td) (\<lambda>v d. if dec_len d = dec_pos d then (Ok v, d) else (Err InvalidLen, d)) d)"
  have safe: "dec_safe (decoded ?d t) (decode_value t) d" if "type_wf t" "dec_wf d" "dec_frame ?d d" for t d
  proof -
    have "decoded d t = decoded ?d t" using decoded_frame(1) [OF that(3)] by (simp add: fun_eq_iff)
    with value_safe [OF that(1,2)] show ?thesis by simp
  qed
  have hdr: "dec_safe (decoded ?d th) ?hdr ?d"
  proof (rule dec_safe_then [OF dec_safe_scalars(6) [OF wf] wf], intro dec_safe_if dec_safe_Err)
    fix c d1 assume d1: "dec_frame ?d d1" "dec_wf d1"
    show "dec_safe (decoded ?d th) (\<lambda>d. then_op decode_u8 (\<lambda>res d. if res \<noteq> 0 then (Err InvalidId, d)
        else decode_value th d) d) d1"
      by (rule dec_safe_then [OF dec_safe_scalars(1) [OF d1(2)] d1(2)], intro dec_safe_if dec_safe_Err)
        (use safe assms(1) d1(1) dec_frame_trans in blast)+
  qed
  have data: "dec_safe (decoded ?d td) ?data d1" if d1: "dec_frame ?d d1" for d1
  proof (rule dec_safe_then [OF dec_safe_scalars(1) [OF dec_frame_wf [OF wf d1]] dec_frame_wf [OF wf d1]],
      intro dec_safe_if dec_safe_Err)
    fix c d2 assume d2: "dec_frame d1 d2" "dec_wf d2"
    show "dec_safe (decoded ?d td) (\<lambda>d. then_op (decode_value td) (\<lambda>v d. if dec_len d = dec_pos d
        then (Ok v, d) else (Err InvalidLen, d)) d) d2"
      by (rule dec_safe_then [OF safe [OF assms(2) d2(2) dec_frame_trans [OF d1 d2(1)]] d2(2)])
        (auto simp: dec_safe_def dec_frame_refl)
  qed
  have ends: "dec_len d' = dec_pos d'" if "?data d1 = (Ok x, d')" for d1 d' x
    using that by (auto simp: res_simps split: if_splits)
  show ?thesis
  proof (cases "?hdr ?d")
    case (Pair r d1)
    show ?thesis
    proof (cases r)
      case (Ok h)
      with Pair hdr have h: "decoded ?d th h" "dec_frame ?d d1" by (simp_all add: dec_safe_def)
      obtain r2 d2 where r2: "?data d1 = (r2, d2)" by (cases "?data d1")
      have "case decode_data td d1 of (Ok x, d') \<Rightarrow> decoded ?d td x \<and> dec_pos d' = len
          | (Err e, _) \<Rightarrow> e = DecodeError | (Panic, _) \<Rightarrow> False"
        using data [OF h(2)] ends [of d1] r2 h(2) unfolding decode_data_def map_err_def dec_safe_def
        by (cases r2) (auto simp: dec_frame_def decoder_new_def)
      with h Pair Ok show ?thesis by (simp add: decode_hdr_def map_err_def)
    qed (use Pair hdr in \<open>simp_all add: decode_hdr_def map_err_def dec_safe_def\<close>)
  qed
qed

theorem decode_untrusted_witness:
  "decode_hdr (TStruct [Field 1 False TU8]) (decoder_new [0xA2, 0x18, 0, 0xA1, 0x18, 1, 0x18] 0 7) =
     (Err DecodeError, decoder_new [0xA2, 0x18, 0, 0xA1, 0x18, 1, 0x18] 0 7\<lparr>dec_pos := 6\<rparr>) \<and>
   (case decode_hdr (TStruct [Field 1 False TU8]) (decoder_new [0xA2, 0x18, 0, 0xA1, 0x18, 1, 0x18] 0 7) of
      (Err e, _) \<Rightarrow> e = DecodeError | _ \<Rightarrow> False)"
proof -
  have "decode_hdr (TStruct [Field 1 False TU8]) (decoder_new [0xA2, 0x18, 0, 0xA1, 0x18, 1, 0x18] 0 7) =
     (Err DecodeError, decoder_new [0xA2, 0x18, 0, 0xA1, 0x18, 1, 0x18] 0 7\<lparr>dec_pos := 6\<rparr>)" by code_simp
  with decode_untrusted [of "TStruct [Field 1 False TU8]" TU8 0 7 "[0xA2, 0x18, 0, 0xA1, 0x18, 1, 0x18]"]
  show ?thesis by simp
qed

end
