(* ===== verification/Ddi_Messages.thy ===== *)
theory Ddi_Messages
  imports Ddi_Types Ddi_Codec_Correct
begin

text \<open>
  The messages of the device interface: the description of every request and response struct of
  \<^verbatim>\<open>serde/ddi/types\<close>, the check that the derive macro makes on the field ids
  (\<^verbatim>\<open>prase_struct\<close>), and the command table that pairs an operation with its request and its
  response. The test-only structs of \<^verbatim>\<open>test_ops.rs\<close> are left out.
\<close>

section \<open>The check of the derive macro\<close>

text \<open>
  \<^verbatim>\<open>prase_struct\<close> sorts the fields by id and requires consecutive ids; a struct that fails
  does not compile.
\<close>

definition prase_struct :: "mbor_field list \<Rightarrow> mbor_type option" where
  "prase_struct fs =
     (let fs = sort_key field_id fs;
          start_id = (case fs of [] \<Rightarrow> 0 | f # _ \<Rightarrow> unat (field_id f))
      in if list_all (\<lambda>(i, f). unat (field_id f) = i + start_id) (enumerate 0 fs)
         then Some (TStruct fs) else None)"

section \<open>Structs\<close>

definition DDI_MAX_KEY_LABEL_LENGTH :: nat where
  "DDI_MAX_KEY_LABEL_LENGTH = 128"

definition DdiTargetKeyMetadata :: mbor_type where
  "DdiTargetKeyMetadata = TStruct [Field 1 False (TArray 16)]"

definition DdiTargetKeyProperties :: mbor_type where
  "DdiTargetKeyProperties = TStruct [Field 1 False DdiTargetKeyMetadata,
     Field 2 False (TBytes DDI_MAX_KEY_LABEL_LENGTH)]"

definition DdiAesGenerateKeyReq :: mbor_type where
  "DdiAesGenerateKeyReq = TStruct [Field 1 False TU32, Field 2 True TU16,
     Field 3 False DdiTargetKeyProperties]"

definition DdiAesGenerateKeyResp :: mbor_type where
  "DdiAesGenerateKeyResp = TStruct [Field 1 False TU16, Field 2 True TU16,
     Field 3 False (TBytes 3072)]"

definition DdiAesEncryptDecryptReq :: mbor_type where
  "DdiAesEncryptDecryptReq = TStruct [Field 1 False TU16, Field 2 False TU32,
     Field 3 False (TBytes 1024), Field 4 False (TBytes 16)]"

definition DdiAesEncryptDecryptResp :: mbor_type where
  "DdiAesEncryptDecryptResp = TStruct [Field 1 False (TBytes 1024), Field 2 False (TBytes 16)]"

definition DdiAttestKeyReq :: mbor_type where
  "DdiAttestKeyReq = TStruct [Field 1 False TU16, Field 2 False (TBytes 128)]"

definition DdiAttestKeyResp :: mbor_type where
  "DdiAttestKeyResp = TStruct [Field 1 False (TBytes 834)]"

definition DdiEncryptedPin :: mbor_type where
  "DdiEncryptedPin = TStruct [Field 2 False (TBytes 16), Field 3 False (TBytes 16),
     Field 4 False (TArray 32), Field 5 False (TArray 48)]"

definition DdiDerPublicKey :: mbor_type where
  "DdiDerPublicKey = TStruct [Field 1 False (TBytes 768), Field 2 False TU32]"

definition DdiChangePinReq :: mbor_type where
  "DdiChangePinReq = TStruct [Field 1 False DdiEncryptedPin, Field 2 False DdiDerPublicKey]"

definition DdiChangePinResp :: mbor_type where
  "DdiChangePinResp = TStruct []"

definition DdiCloseSessionReq :: mbor_type where
  "DdiCloseSessionReq = TStruct []"

definition DdiCloseSessionResp :: mbor_type where
  "DdiCloseSessionResp = TStruct []"

definition DdiDeleteKeyReq :: mbor_type where
  "DdiDeleteKeyReq = TStruct [Field 1 False TU16]"

definition DdiDeleteKeyResp :: mbor_type where
  "DdiDeleteKeyResp = TStruct []"

definition DdiHkdfDeriveReq :: mbor_type where
  "DdiHkdfDeriveReq = TStruct [Field 1 False TU16, Field 2 False TU32, Field 3 True (TBytes 256),
     Field 4 True (TBytes 256), Field 5 False TU32, Field 6 True TU16,
     Field 7 False DdiTargetKeyProperties, Field 8 True TU8]"

definition DdiHkdfDeriveResp :: mbor_type where
  "DdiHkdfDeriveResp = TStruct [Field 1 False TU16, Field 2 False (TBytes 3072), Field 3 True TU16]"

definition DdiKbkdfCounterHmacDeriveReq :: mbor_type where
  "DdiKbkdfCounterHmacDeriveReq = TStruct [Field 1 False TU16, Field 2 False TU32,
     Field 3 True (TBytes 256), Field 4 True (TBytes 256), Field 5 False TU32, Field 6 True TU16,
     Field 7 False DdiTargetKeyProperties, Field 8 True TU8]"

definition DdiKbkdfCounterHmacDeriveResp :: mbor_type where
  "DdiKbkdfCounterHmacDeriveResp = TStruct [Field 1 False TU16, Field 2 False (TBytes 3072),
     Field 3 True TU16]"

definition DdiEccGenerateKeyPairReq :: mbor_type where
  "DdiEccGenerateKeyPairReq = TStruct [Field 1 False TU32, Field 2 True TU16,
     Field 3 False DdiTargetKeyProperties]"

definition DdiEccGenerateKeyPairResp :: mbor_type where
  "DdiEccGenerateKeyPairResp = TStruct [Field 1 False TU16, Field 2 True DdiDerPublicKey,
     Field 3 False (TBytes 3072)]"

definition DdiEccSignReq :: mbor_type where
  "DdiEccSignReq = TStruct [Field 1 False TU16, Field 2 False (TBytes 96), Field 3 False TU32]"

definition DdiEccSignResp :: mbor_type where
  "DdiEccSignResp = TStruct [Field 1 False (TBytes 192)]"

definition DdiEcdhKeyExchangeReq :: mbor_type where
  "DdiEcdhKeyExchangeReq = TStruct [Field 1 False TU16, Field 2 False (TBytes 192),
     Field 3 False TU32, Field 4 True TU16, Field 5 False DdiTargetKeyProperties]"

definition DdiEcdhKeyExchangeResp :: mbor_type where
  "DdiEcdhKeyExchangeResp = TStruct [Field 1 False TU16, Field 2 False (TBytes 3072)]"

definition DdiErrReq :: mbor_type where
  "DdiErrReq = TStruct []"

definition DdiErrResp :: mbor_type where
  "DdiErrResp = TStruct []"

definition DdiEncryptedEstablishCredential :: mbor_type where
  "DdiEncryptedEstablishCredential = TStruct [Field 1 False (TBytes 16), Field 2 False (TBytes 16),
     Field 3 False (TBytes 16), Field 4 False (TArray 32), Field 5 False (TArray 48)]"

definition DdiEstablishCredentialReq :: mbor_type where
  "DdiEstablishCredentialReq = TStruct [Field 1 False DdiEncryptedEstablishCredential,
     Field 2 False DdiDerPublicKey, Field 3 False (TBytes 1024), Field 4 False (TBytes 1024),
     Field 5 False (TBytes 1024), Field 6 False (TBytes 1024), Field 7 False DdiDerPublicKey]"

definition DdiEstablishCredentialResp :: mbor_type where
  "DdiEstablishCredentialResp = TStruct [Field 1 False (TBytes 1024)]"

definition DdiGetApiRevReq :: mbor_type where
  "DdiGetApiRevReq = TStruct []"

definition DdiApiRev :: mbor_type where
  "DdiApiRev = TStruct [Field 1 False TU32, Field 2 False TU32]"

definition DdiGetApiRevResp :: mbor_type where
  "DdiGetApiRevResp = TStruct [Field 1 False DdiApiRev, Field 2 False DdiApiRev]"

definition DdiGetCertChainInfoReq :: mbor_type where
  "DdiGetCertChainInfoReq = TStruct [Field 1 False TU8]"

definition DdiGetCertChainInfoResp :: mbor_type where
  "DdiGetCertChainInfoResp = TStruct [Field 1 False TU8, Field 2 False (TBytes 32)]"

definition DdiGetCertificateReq :: mbor_type where
  "DdiGetCertificateReq = TStruct [Field 1 False TU8, Field 2 False TU8]"

definition DdiGetCertificateResp :: mbor_type where
  "DdiGetCertificateResp = TStruct [Field 1 False (TBytes 2048)]"

definition DdiGetDeviceInfoReq :: mbor_type where
  "DdiGetDeviceInfoReq = TStruct []"

definition DdiGetDeviceInfoResp :: mbor_type where
  "DdiGetDeviceInfoResp = TStruct [Field 1 False TU32, Field 2 False TU8, Field 3 False TBool]"

definition DdiGetEstablishCredEncryptionKeyReq :: mbor_type where
  "DdiGetEstablishCredEncryptionKeyReq = TStruct []"

definition DdiGetEstablishCredEncryptionKeyResp :: mbor_type where
  "DdiGetEstablishCredEncryptionKeyResp = TStruct [Field 1 False DdiDerPublicKey,
     Field 2 False (TArray 32), Field 3 False (TBytes 192)]"

definition DdiGetSealedBk3Req :: mbor_type where
  "DdiGetSealedBk3Req = TStruct []"

definition DdiGetSealedBk3Resp :: mbor_type where
  "DdiGetSealedBk3Resp = TStruct [Field 1 False (TBytes 1024)]"

definition DdiGetSessionEncryptionKeyReq :: mbor_type where
  "DdiGetSessionEncryptionKeyReq = TStruct []"

definition DdiGetSessionEncryptionKeyResp :: mbor_type where
  "DdiGetSessionEncryptionKeyResp = TStruct [Field 1 False DdiDerPublicKey,
     Field 2 False (TArray 32), Field 3 False (TBytes 192)]"

definition DdiGetUnwrappingKeyReq :: mbor_type where
  "DdiGetUnwrappingKeyReq = TStruct []"

definition DdiGetUnwrappingKeyResp :: mbor_type where
  "DdiGetUnwrappingKeyResp = TStruct [Field 1 False TU16, Field 2 False DdiDerPublicKey,
     Field 3 False (TBytes 1024)]"

definition DdiHmacReq :: mbor_type where
  "DdiHmacReq = TStruct [Field 1 False TU16, Field 2 False (TBytes 1024)]"

definition DdiHmacResp :: mbor_type where
  "DdiHmacResp = TStruct [Field 1 False (TBytes 64)]"

definition DdiInitBk3Req :: mbor_type where
  "DdiInitBk3Req = TStruct [Field 1 False (TBytes 48)]"

definition DdiInitBk3Resp :: mbor_type where
  "DdiInitBk3Resp = TStruct [Field 1 False (TBytes 1024), Field 2 False (TArray 16)]"

definition DdiKeyProperties :: mbor_type where
  "DdiKeyProperties = TStruct [Field 1 False TU32, Field 2 False TU32,
     Field 3 False (TBytes DDI_MAX_KEY_LABEL_LENGTH)]"

definition DdiReqHdr :: mbor_type where
  "DdiReqHdr = TStruct [Field 1 True DdiApiRev, Field 2 False TU32, Field 3 True TU16]"

definition DdiRespHdr :: mbor_type where
  "DdiRespHdr = TStruct [Field 1 True DdiApiRev, Field 2 False TU32, Field 3 True TU16,
     Field 4 False TU32, Field 5 False TBool]"

definition DdiUnmaskKeyReq :: mbor_type where
  "DdiUnmaskKeyReq = TStruct [Field 1 False (TBytes 3072)]"

definition DdiUnmaskKeyResp :: mbor_type where
  "DdiUnmaskKeyResp = TStruct [Field 1 False TU16, Field 2 True DdiDerPublicKey, Field 3 True TU16,
     Field 4 False TU32, Field 5 False (TBytes 3072)]"

definition DdiMaskedKeyAttributes :: mbor_type where
  "DdiMaskedKeyAttributes = TStruct [Field 1 False (TArray 32)]"

definition DdiMaskedKeyMetadata :: mbor_type where
  "DdiMaskedKeyMetadata = TStruct [Field 1 True TU64, Field 2 False TU32,
     Field 3 False DdiMaskedKeyAttributes, Field 4 True TU16, Field 5 True TU16,
     Field 6 False (TBytes DDI_MAX_KEY_LABEL_LENGTH), Field 7 False TU16]"

definition DdiOpenKeyReq :: mbor_type where
  "DdiOpenKeyReq = TStruct [Field 1 False TU16]"

definition DdiOpenKeyResp :: mbor_type where
  "DdiOpenKeyResp = TStruct [Field 1 False TU16, Field 2 False TU32, Field 3 True DdiDerPublicKey,
     Field 4 True TU16]"

definition DdiEncryptedSessionCredential :: mbor_type where
  "DdiEncryptedSessionCredential = TStruct [Field 1 False (TBytes 16), Field 2 False (TBytes 16),
     Field 3 False (TBytes 48), Field 4 False (TBytes 16), Field 5 False (TArray 32),
     Field 6 False (TArray 48)]"

definition DdiOpenSessionReq :: mbor_type where
  "DdiOpenSessionReq = TStruct [Field 1 False DdiEncryptedSessionCredential,
     Field 2 False DdiDerPublicKey]"

definition DdiOpenSessionResp :: mbor_type where
  "DdiOpenSessionResp = TStruct [Field 1 False TU16, Field 2 False TU8, Field 3 False (TBytes 1024)]"

definition DdiReopenSessionReq :: mbor_type where
  "DdiReopenSessionReq = TStruct [Field 1 False DdiEncryptedSessionCredential,
     Field 2 False DdiDerPublicKey, Field 3 False (TBytes 1024)]"

definition DdiReopenSessionResp :: mbor_type where
  "DdiReopenSessionResp = TStruct [Field 1 False TU16, Field 2 False TU8,
     Field 3 False (TBytes 1024)]"

definition DdiRsaModExpReq :: mbor_type where
  "DdiRsaModExpReq = TStruct [Field 1 False TU16, Field 2 False (TBytes 512), Field 3 False TU32]"

definition DdiRsaModExpResp :: mbor_type where
  "DdiRsaModExpResp = TStruct [Field 1 False (TBytes 512)]"

definition DdiRsaUnwrapReq :: mbor_type where
  "DdiRsaUnwrapReq = TStruct [Field 1 False TU16, Field 2 False (TBytes 3072), Field 3 False TU32,
     Field 4 False TU32, Field 5 False TU32, Field 6 True TU16, Field 7 False DdiTargetKeyProperties]"

definition DdiRsaUnwrapResp :: mbor_type where
  "DdiRsaUnwrapResp = TStruct [Field 1 False TU16, Field 2 True DdiDerPublicKey, Field 3 True TU16,
     Field 4 False TU32, Field 5 False (TBytes 3072)]"

definition DdiSetSealedBk3Req :: mbor_type where
  "DdiSetSealedBk3Req = TStruct [Field 1 False (TBytes 1024)]"

definition DdiSetSealedBk3Resp :: mbor_type where
  "DdiSetSealedBk3Resp = TStruct []"

section \<open>Commands\<close>

definition ddi_cmd_req :: "mbor_type \<Rightarrow> mbor_type" where
  "ddi_cmd_req data = TStruct [Field 0 False DdiReqHdr, Field 1 False data]"

definition ddi_cmd_resp :: "mbor_type \<Rightarrow> mbor_type" where
  "ddi_cmd_resp data = TStruct [Field 0 False DdiRespHdr, Field 1 False data]"

definition ddi_commands :: "(ddi_op \<times> mbor_type \<times> mbor_type) list" where
  "ddi_commands =
     [(Op_GetApiRev, DdiGetApiRevReq, DdiGetApiRevResp),
      (Op_GetDeviceInfo, DdiGetDeviceInfoReq, DdiGetDeviceInfoResp),
      (Op_DeleteKey, DdiDeleteKeyReq, DdiDeleteKeyResp),
      (Op_OpenKey, DdiOpenKeyReq, DdiOpenKeyResp),
      (Op_AttestKey, DdiAttestKeyReq, DdiAttestKeyResp),
      (Op_RsaModExp, DdiRsaModExpReq, DdiRsaModExpResp),
      (Op_RsaUnwrap, DdiRsaUnwrapReq, DdiRsaUnwrapResp),
      (Op_GetUnwrappingKey, DdiGetUnwrappingKeyReq, DdiGetUnwrappingKeyResp),
      (Op_EccGenerateKeyPair, DdiEccGenerateKeyPairReq, DdiEccGenerateKeyPairResp),
      (Op_EccSign, DdiEccSignReq, DdiEccSignResp),
      (Op_AesGenerateKey, DdiAesGenerateKeyReq, DdiAesGenerateKeyResp),
      (Op_AesEncryptDecrypt, DdiAesEncryptDecryptReq, DdiAesEncryptDecryptResp),
      (Op_EcdhKeyExchange, DdiEcdhKeyExchangeReq, DdiEcdhKeyExchangeResp),
      (Op_HkdfDerive, DdiHkdfDeriveReq, DdiHkdfDeriveResp),
      (Op_KbkdfCounterHmacDerive, DdiKbkdfCounterHmacDeriveReq, DdiKbkdfCounterHmacDeriveResp),
      (Op_Hmac, DdiHmacReq, DdiHmacResp),
      (Op_GetEstablishCredEncryptionKey, DdiGetEstablishCredEncryptionKeyReq, DdiGetEstablishCredEncryptionKeyResp),
      (Op_EstablishCredential, DdiEstablishCredentialReq, DdiEstablishCredentialResp),
      (Op_GetSessionEncryptionKey, DdiGetSessionEncryptionKeyReq, DdiGetSessionEncryptionKeyResp),
      (Op_OpenSession, DdiOpenSessionReq, DdiOpenSessionResp),
      (Op_CloseSession, DdiCloseSessionReq, DdiCloseSessionResp),
      (Op_ChangePin, DdiChangePinReq, DdiChangePinResp),
      (Op_UnmaskKey, DdiUnmaskKeyReq, DdiUnmaskKeyResp),
      (Op_GetCertChainInfo, DdiGetCertChainInfoReq, DdiGetCertChainInfoResp),
      (Op_GetCertificate, DdiGetCertificateReq, DdiGetCertificateResp),
      (Op_ReopenSession, DdiReopenSessionReq, DdiReopenSessionResp),
      (Op_InitBk3, DdiInitBk3Req, DdiInitBk3Resp),
      (Op_GetSealedBk3, DdiGetSealedBk3Req, DdiGetSealedBk3Resp),
      (Op_SetSealedBk3, DdiSetSealedBk3Req, DdiSetSealedBk3Resp),
      (Op_Invalid, DdiErrReq, DdiErrResp)]"

section \<open>Well-formedness\<close>

lemma prase_struct_distinct:
  assumes "prase_struct fs = Some t"
  shows "t = TStruct (sort_key field_id fs) \<and> distinct (map field_id (sort_key field_id fs))"
proof -
  let ?fs = "sort_key field_id fs"
  define start where "start = (case ?fs of [] \<Rightarrow> 0 | f # _ \<Rightarrow> unat (field_id f))"
  have t: "t = TStruct ?fs" and ids: "list_all (\<lambda>(i, f). unat (field_id f) = i + start) (enumerate 0 ?fs)"
    using assms by (auto simp: prase_struct_def Let_def start_def split: if_splits)
  have "unat (field_id (?fs ! i)) = i + start" if "i < length ?fs" for i
    using ids that by (auto simp: list_all_iff in_set_enumerate_eq)
  then have "inj_on (\<lambda>i. field_id (?fs ! i)) {..<length ?fs}"
    by (intro inj_onI) (metis add_right_cancel lessThan_iff)
  then have "distinct (map field_id ?fs)"
    by (auto simp: distinct_conv_nth inj_on_def)
  with t show ?thesis by simp
qed

text \<open>
  What the macro accepts can be encoded and decoded, as long as the number of fields fits into the
  five bits of the map header, which it does not check.
\<close>

lemma prase_struct_wf:
  assumes "prase_struct fs = Some t" and "length fs < 32"
    and "\<And>i opt t. Field i opt t \<in> set fs \<Longrightarrow> type_wf t"
  shows "type_wf t"
  using prase_struct_distinct [OF assms(1)] assms(2,3)
  by (auto simp: list_all_iff split: mbor_field.splits)

fun accepted :: "mbor_type \<Rightarrow> bool" where
  "accepted (TArray n) \<longleftrightarrow> n < 65536"
| "accepted (TBytes cap) \<longleftrightarrow> cap < 65536"
| "accepted (TStruct fs) \<longleftrightarrow> prase_struct fs = Some (TStruct fs) \<and> length fs < 32 \<and>
     list_all (\<lambda>f. case f of Field _ _ t \<Rightarrow> accepted t) fs"
| "accepted _ \<longleftrightarrow> True"

lemma accepted_wf: "accepted t \<Longrightarrow> type_wf t"
proof (induction t rule: accepted.induct)
  case (3 fs)
  then have fs: "prase_struct fs = Some (TStruct fs)" "length fs < 32"
      "list_all (\<lambda>f. case f of Field _ _ t \<Rightarrow> accepted t) fs" by auto
  have "type_wf t" if "Field i opt t \<in> set fs" for i opt t
    using 3(1) [OF that refl] fs(3) that by (auto simp: list_all_iff)
  then show ?case by (rule prase_struct_wf [OF fs(1,2)])
qed auto

section \<open>Lengths\<close>

fun max_len :: "mbor_type \<Rightarrow> nat" where
  "max_len TU8 = 2"
| "max_len TU16 = 3"
| "max_len TU32 = 5"
| "max_len TU64 = 9"
| "max_len TBool = 1"
| "max_len (TArray n) = n + 3"
| "max_len (TBytes cap) = cap + 6"
| "max_len (TStruct fs) = 1 + sum_list (map (\<lambda>f. case f of Field _ _ t \<Rightarrow> 2 + max_len t) fs)"

lemma pad4_le: "unat (pad4 x) \<le> 3"
proof -
  have "pad4 x = 3 - of_nat (unat (x + 3) mod 4)" unfolding pad4_def and_not_3 by simp
  also have "\<dots> = of_nat (3 - unat (x + 3) mod 4)"
    by (simp add: of_nat_diff less_Suc_eq_le [symmetric])
  finally have eq: "pad4 x = of_nat (3 - unat (x + 3) mod 4)" .
  have "unat (of_nat k :: u32) \<le> 3" if "k \<le> 3" for k
    using that by (simp add: unsigned_of_nat take_bit_nat_eq_self)
  from this [OF diff_le_self] show ?thesis unfolding eq .
qed

lemma pad_le: "unat (ucast (pad4 x) :: u8) \<le> 3"
  using pad4_le [of x] by (simp add: unsigned_ucast_eq take_bit_nat_eq_self)

lemma len_le_max:
  "value_ok t v e \<Longrightarrow> len_value t v acc \<le> acc + max_len t"
  "fields_ok fs vs e \<Longrightarrow>
    len_fields fs vs acc \<le> acc + sum_list (map (\<lambda>f. case f of Field _ _ t \<Rightarrow> 2 + max_len t) fs)"
proof (induction t v acc and fs vs acc rule: len_value_len_fields.induct)
  case (7 cap a acc)
  then show ?case using pad_le [of "of_nat acc + 3"] by (simp add: len_padded_def array_ok_def)
next
  case (10 i opt t fs v vs acc)
  then show ?case by (fastforce simp: len_uint_def)
next
  case (11 i opt t fs vs acc)
  then show ?case by fastforce
qed (auto simp: len_uint_def len_bool_def len_slice_def len_map_def)

section \<open>The commands\<close>

fun in_order :: "nat \<Rightarrow> mbor_field list \<Rightarrow> bool" where
  "in_order n [] \<longleftrightarrow> True"
| "in_order n (f # fs) \<longleftrightarrow> unat (field_id f) = n \<and> in_order (Suc n) fs"

lemma in_order_nth: "in_order n fs \<Longrightarrow> i < length fs \<Longrightarrow> unat (field_id (fs ! i)) = i + n"
  by (induction n fs arbitrary: i rule: in_order.induct) (auto simp: nth_Cons split: nat.splits)

lemma in_order_prase:
  assumes "in_order n fs"
  shows "prase_struct fs = Some (TStruct fs)"
proof -
  have "sorted (map field_id fs)"
    by (auto simp: sorted_iff_nth_mono word_le_nat_alt in_order_nth [OF assms])
  then have sort: "sort_key field_id fs = fs" by (rule sort_key_id_if_sorted)
  have "list_all (\<lambda>(i, f). unat (field_id f) = i + (case fs of [] \<Rightarrow> 0 | f # _ \<Rightarrow> unat (field_id f)))
      (enumerate 0 fs)"
  proof (cases fs)
    case (Cons f gs)
    then have n: "(case fs of [] \<Rightarrow> 0 | f # _ \<Rightarrow> unat (field_id f)) = n" using assms by simp
    show ?thesis unfolding n by (auto simp: list_all_iff in_set_enumerate_eq in_order_nth [OF assms])
  qed simp
  with sort show ?thesis by (simp add: prase_struct_def Let_def)
qed

lemma accepted_in_order:
  assumes "in_order n fs" and "length fs < 32" and "list_all (\<lambda>f. case f of Field _ _ t \<Rightarrow> accepted t) fs"
  shows "accepted (TStruct fs)"
  using assms in_order_prase by auto

lemmas ddi_struct_defs =
  DdiTargetKeyMetadata_def DdiTargetKeyProperties_def DdiAesGenerateKeyReq_def
  DdiAesGenerateKeyResp_def DdiAesEncryptDecryptReq_def DdiAesEncryptDecryptResp_def
  DdiAttestKeyReq_def DdiAttestKeyResp_def DdiEncryptedPin_def DdiDerPublicKey_def
  DdiChangePinReq_def DdiChangePinResp_def DdiCloseSessionReq_def DdiCloseSessionResp_def
  DdiDeleteKeyReq_def DdiDeleteKeyResp_def DdiHkdfDeriveReq_def DdiHkdfDeriveResp_def
  DdiKbkdfCounterHmacDeriveReq_def DdiKbkdfCounterHmacDeriveResp_def DdiEccGenerateKeyPairReq_def
  DdiEccGenerateKeyPairResp_def DdiEccSignReq_def DdiEccSignResp_def DdiEcdhKeyExchangeReq_def
  DdiEcdhKeyExchangeResp_def DdiErrReq_def DdiErrResp_def DdiEncryptedEstablishCredential_def
  DdiEstablishCredentialReq_def DdiEstablishCredentialResp_def DdiGetApiRevReq_def DdiApiRev_def
  DdiGetApiRevResp_def DdiGetCertChainInfoReq_def DdiGetCertChainInfoResp_def
  DdiGetCertificateReq_def DdiGetCertificateResp_def DdiGetDeviceInfoReq_def
  DdiGetDeviceInfoResp_def DdiGetEstablishCredEncryptionKeyReq_def
  DdiGetEstablishCredEncryptionKeyResp_def DdiGetSealedBk3Req_def DdiGetSealedBk3Resp_def
  DdiGetSessionEncryptionKeyReq_def DdiGetSessionEncryptionKeyResp_def DdiGetUnwrappingKeyReq_def
  DdiGetUnwrappingKeyResp_def DdiHmacReq_def DdiHmacResp_def DdiInitBk3Req_def DdiInitBk3Resp_def
  DdiKeyProperties_def DdiReqHdr_def DdiRespHdr_def DdiUnmaskKeyReq_def DdiUnmaskKeyResp_def
  DdiMaskedKeyAttributes_def DdiMaskedKeyMetadata_def DdiOpenKeyReq_def DdiOpenKeyResp_def
  DdiEncryptedSessionCredential_def DdiOpenSessionReq_def DdiOpenSessionResp_def
  DdiReopenSessionReq_def DdiReopenSessionResp_def DdiRsaModExpReq_def DdiRsaModExpResp_def
  DdiRsaUnwrapReq_def DdiRsaUnwrapResp_def DdiSetSealedBk3Req_def DdiSetSealedBk3Resp_def

lemma commands_accepted:
  "list_all (\<lambda>(op, req, resp). accepted (ddi_cmd_req req) \<and> accepted (ddi_cmd_resp resp)) ddi_commands"
  unfolding ddi_commands_def ddi_cmd_req_def ddi_cmd_resp_def ddi_struct_defs DDI_MAX_KEY_LABEL_LENGTH_def
  by (simp add: accepted_in_order del: accepted.simps(3))

lemma commands_distinct: "distinct (map fst ddi_commands)"
  by (simp add: ddi_commands_def)

lemma command_wf:
  assumes "(op, req, resp) \<in> set ddi_commands"
  shows "type_wf (ddi_cmd_req req)" and "type_wf (ddi_cmd_resp resp)"
  using commands_accepted assms accepted_wf by (auto simp: list_all_iff)

lemma responses_bounded: "list_all (\<lambda>(op, req, resp). max_len (ddi_cmd_resp resp) \<le> 4096) ddi_commands"
  by (simp add: ddi_commands_def ddi_cmd_resp_def ddi_struct_defs DDI_MAX_KEY_LABEL_LENGTH_def)

text \<open>
  C33: Every response fits into one page. Whatever values the fields of a response have, its
  encoding is not longer than 4096 bytes, for every command. The outbound transfer is described
  by the first page of the host buffer only, so this is what keeps it inside of that page.
\<close>

theorem response_fits_page:
  assumes "(op, req, resp) \<in> set ddi_commands" and "value_ok (ddi_cmd_resp resp) v e"
  shows "len_value (ddi_cmd_resp resp) v 0 \<le> 4096"
  using len_le_max(1) [OF assms(2), of 0] responses_bounded assms(1) by (fastforce simp: list_all_iff)

theorem response_fits_page_witness:
  "(Op_DeleteKey, DdiDeleteKeyReq, DdiDeleteKeyResp) \<in> set ddi_commands \<and>
   len_value (ddi_cmd_resp DdiDeleteKeyResp)
     (VStruct [Some (VStruct [None, Some (VU32 1014), Some (VU16 1), Some (VU32 0), Some (VBool True)]),
        Some (VStruct [])]) 0 \<le> 4096"
proof -
  have "(Op_DeleteKey, DdiDeleteKeyReq, DdiDeleteKeyResp) \<in> set ddi_commands"
    by (simp add: ddi_commands_def)
  moreover have "value_ok (ddi_cmd_resp DdiDeleteKeyResp)
     (VStruct [Some (VStruct [None, Some (VU32 1014), Some (VU16 1), Some (VU32 0), Some (VBool True)]),
        Some (VStruct [])]) (encoder_new [] 0 0)"
    by (simp add: ddi_cmd_resp_def DdiRespHdr_def DdiDeleteKeyResp_def)
  ultimately show ?thesis using response_fits_page by blast
qed

end
