(* ===== verification/Dma_Heap.thy ===== *)
theory Dma_Heap
  imports Ddi_Messages "HOL-Library.Multiset"
begin

text \<open>
  The buffers of requests and responses (\<^verbatim>\<open>hsm/src/heap.rs\<close>): a pool of 64 buffers that
  is filled at start, and single allocations from the heap below it; and the encoding of a
  response into a buffer of the pool and the decoding of a request
  (\<^verbatim>\<open>encode_buf\<close>, \<^verbatim>\<open>decode_buf\<close> of \<^verbatim>\<open>hsm/src/fsm/mod.rs\<close>). A dropped
  buffer is erased and goes back to the pool. The main result is that a fresh buffer holds nothing
  of an earlier request.

  The heap below the pool is the crate \<^verbatim>\<open>linked_list_allocator\<close>, which is not part of the
  repository: its two methods are the argument \<open>C\<close> of the operations, and \<open>heap_crate_laws\<close> states
  its documentation.
\<close>

section \<open>The program\<close>

record 'h heap_crate =
  allocate_first_fit :: "nat \<Rightarrow> 'h \<Rightarrow> (nat \<times> 'h) option"
  heap_deallocate :: "nat \<Rightarrow> nat \<Rightarrow> 'h \<Rightarrow> 'h"

text \<open>An allocation: its address, the size that is in use and the size of its layout.\<close>

record dma_alloc =
  da_ptr :: nat
  da_size :: nat
  da_layout :: nat

record 'h dma_heap =
  dh_mem :: bytes
  dh_heap :: 'h
  dh_pool :: "dma_alloc list"

definition POOL_SIZE :: nat where
  "POOL_SIZE = 64"

definition POOL_ALLOC_SIZE_REQ_RESP :: nat where
  "POOL_ALLOC_SIZE_REQ_RESP = 3584"

definition mem_fill :: "nat \<Rightarrow> nat \<Rightarrow> bytes \<Rightarrow> bytes" where
  "mem_fill ptr n mem = mem_write ptr (replicate n 0) mem"

primrec populate_pool :: "'h heap_crate \<Rightarrow> nat \<Rightarrow> 'h dma_heap \<Rightarrow> 'h dma_heap option" where
  "populate_pool C 0 h = Some h"
| "populate_pool C (Suc n) h =
     (case allocate_first_fit C POOL_ALLOC_SIZE_REQ_RESP (dh_heap h) of
        None \<Rightarrow> None
      | Some (ptr, heap) \<Rightarrow>
          populate_pool C n (h\<lparr>dh_heap := heap,
            dh_mem := mem_fill ptr POOL_ALLOC_SIZE_REQ_RESP (dh_mem h),
            dh_pool := dh_pool h @ [\<lparr>da_ptr = ptr, da_size = POOL_ALLOC_SIZE_REQ_RESP,
              da_layout = POOL_ALLOC_SIZE_REQ_RESP\<rparr>]\<rparr>))"

text \<open>\<open>None\<close> is the panic of \<open>unwrap\<close> when the memory is too small for the pool.\<close>

definition dma_heap_new :: "'h heap_crate \<Rightarrow> bytes \<Rightarrow> 'h \<Rightarrow> 'h dma_heap option" where
  "dma_heap_new C mem heap =
     populate_pool C POOL_SIZE \<lparr>dh_mem = mem, dh_heap = heap, dh_pool = []\<rparr>"

definition dma_allocate :: "'h heap_crate \<Rightarrow> nat \<Rightarrow> 'h dma_heap \<Rightarrow> dma_alloc option \<times> 'h dma_heap" where
  "dma_allocate C n h =
     (case allocate_first_fit C n (dh_heap h) of
        None \<Rightarrow> (None, h)
      | Some (ptr, heap) \<Rightarrow>
          (Some \<lparr>da_ptr = ptr, da_size = n, da_layout = n\<rparr>,
           h\<lparr>dh_heap := heap, dh_mem := mem_fill ptr n (dh_mem h)\<rparr>))"

definition allocate_from_pool :: "nat \<Rightarrow> 'h dma_heap \<Rightarrow> dma_alloc option \<times> 'h dma_heap" where
  "allocate_from_pool n h =
     (if n \<le> POOL_ALLOC_SIZE_REQ_RESP
      then case dh_pool h of
          [] \<Rightarrow> (None, h)
        | _ \<Rightarrow> (Some ((last (dh_pool h))\<lparr>da_size := n\<rparr>), h\<lparr>dh_pool := butlast (dh_pool h)\<rparr>)
      else (None, h))"

definition dma_deallocate :: "'h heap_crate \<Rightarrow> nat \<Rightarrow> nat \<Rightarrow> nat \<Rightarrow> 'h dma_heap \<Rightarrow> 'h dma_heap" where
  "dma_deallocate C ptr layout n h =
     (let h = h\<lparr>dh_mem := mem_fill ptr n (dh_mem h)\<rparr>
      in if layout = POOL_ALLOC_SIZE_REQ_RESP \<and> length (dh_pool h) < POOL_SIZE
         then h\<lparr>dh_pool := dh_pool h @ [\<lparr>da_ptr = ptr, da_size = POOL_ALLOC_SIZE_REQ_RESP, da_layout = layout\<rparr>]\<rparr>
         else h\<lparr>dh_heap := heap_deallocate C ptr layout (dh_heap h)\<rparr>)"

definition dma_drop :: "'h heap_crate \<Rightarrow> dma_alloc \<Rightarrow> 'h dma_heap \<Rightarrow> 'h dma_heap" where
  "dma_drop C a h = dma_deallocate C (da_ptr a) (da_layout a) (da_size a) h"

definition alloc_as_ref :: "'h dma_heap \<Rightarrow> dma_alloc \<Rightarrow> bytes" where
  "alloc_as_ref h a = slice (da_ptr a) (da_size a) (dh_mem h)"

definition copy_allocate ::
  "'h heap_crate \<Rightarrow> bytes \<Rightarrow> 'h dma_heap \<Rightarrow> dma_alloc option \<times> 'h dma_heap" where
  "copy_allocate C src h =
     (case dma_allocate C (length src) h of
        (None, h) \<Rightarrow> (None, h)
      | (Some a, h) \<Rightarrow> (Some a, h\<lparr>dh_mem := mem_write (da_ptr a) src (dh_mem h)\<rparr>))"

subsection \<open>Requests and responses\<close>

text \<open>
  Encoding returns the buffer and the value with its byte arrays moved into it. When encoding
  fails the buffer is dropped.
\<close>

definition encode_buf ::
  "'h heap_crate \<Rightarrow> mbor_type \<Rightarrow> mbor_value \<Rightarrow> 'h dma_heap \<Rightarrow>
     (dma_alloc \<times> mbor_value) hsm_result \<times> 'h dma_heap" where
  "encode_buf C t v h =
     (let len = len_value t v 0
      in case allocate_from_pool len h of
           (None, h) \<Rightarrow> (Err DmaAllocFailure, h)
         | (Some buf, h) \<Rightarrow>
             (case encode_value t v (encoder_new (dh_mem h) (da_ptr buf) (da_size buf)) of
                (Ok v', e) \<Rightarrow> (Ok (buf, v'), h\<lparr>dh_mem := enc_mem e\<rparr>)
              | (Err _, e) \<Rightarrow> (Err DdiEncodeFailed, dma_drop C buf (h\<lparr>dh_mem := enc_mem e\<rparr>))
              | (Panic, e) \<Rightarrow> (Panic, h\<lparr>dh_mem := enc_mem e\<rparr>)))"

definition decode_buf :: "mbor_type \<Rightarrow> 'h dma_heap \<Rightarrow> dma_alloc \<Rightarrow> mbor_value hsm_result" where
  "decode_buf t h buf =
     (case fst (decode_value t (decoder_new (dh_mem h) (da_ptr buf) (da_size buf))) of
        Ok v \<Rightarrow> Ok v | Err _ \<Rightarrow> Err DdiDecodeFailed | Panic \<Rightarrow> Panic)"

section \<open>The heap below the pool\<close>

definition region :: "nat \<Rightarrow> nat \<Rightarrow> nat set" where
  "region ptr n = {ptr ..< ptr + n}"

text \<open>
  What the documentation of the crate promises, in terms of the allocations that are live: a new
  allocation lies in the memory that the heap manages and overlaps no live one, and deallocating
  a live allocation ends it.
\<close>

definition heap_crate_laws :: "'h heap_crate \<Rightarrow> ('h \<Rightarrow> (nat \<times> nat) multiset) \<Rightarrow> nat \<Rightarrow> bool" where
  "heap_crate_laws C live limit \<longleftrightarrow>
     (\<forall>n heap ptr heap'. allocate_first_fit C n heap = Some (ptr, heap') \<longrightarrow>
        ptr + n \<le> limit \<and> live heap' = add_mset (ptr, n) (live heap) \<and>
        (\<forall>(q, m) \<in># live heap. region ptr n \<inter> region q m = {})) \<and>
     (\<forall>ptr n heap. (ptr, n) \<in># live heap \<longrightarrow>
        live (heap_deallocate C ptr n heap) = live heap - {#(ptr, n)#})"

text \<open>A heap that meets the laws: it allocates above everything live.\<close>

definition stack_heap :: "nat \<Rightarrow> (nat \<times> nat) list heap_crate" where
  "stack_heap limit =
     \<lparr>allocate_first_fit = (\<lambda>n live.
        let ptr = foldr (\<lambda>(q, m). max (q + m)) live 8
        in if ptr + n \<le> limit then Some (ptr, (ptr, n) # live) else None),
      heap_deallocate = (\<lambda>ptr n. remove1 (ptr, n))\<rparr>"

lemma stack_heap_top: "(q, m) \<in> set live \<Longrightarrow> q + m \<le> foldr (\<lambda>(q, m). max (q + m)) live (k :: nat)"
  by (induction live) auto

lemma stack_heap_laws: "heap_crate_laws (stack_heap limit) mset limit"
  unfolding heap_crate_laws_def stack_heap_def region_def
  by (auto simp: Let_def split: if_splits) (drule stack_heap_top [where k = 8], simp)

section \<open>Steps and invariant\<close>

text \<open>
  The state is the heap and the buffers that are in use. A buffer is taken from the heap or from
  the pool, its bytes are overwritten, or it is dropped.
\<close>

inductive dma_step :: "'h heap_crate \<Rightarrow> 'h dma_heap \<times> dma_alloc list \<Rightarrow> 'h dma_heap \<times> dma_alloc list \<Rightarrow> bool"
  for C :: "'h heap_crate" where
  step_heap: "dma_allocate C n h = (Some a, h') \<Longrightarrow> dma_step C (h, as) (h', a # as)"
| step_pool: "allocate_from_pool n h = (Some a, h') \<Longrightarrow> dma_step C (h, as) (h', a # as)"
| step_write: "a \<in> set as \<Longrightarrow> length bs = da_size a \<Longrightarrow>
    dma_step C (h, as) (h\<lparr>dh_mem := mem_write (da_ptr a) bs (dh_mem h)\<rparr>, as)"
| step_drop: "a \<in> set as \<Longrightarrow> dma_step C (h, as) (dma_drop C a h, remove1 a as)"

abbreviation alloc_region :: "dma_alloc \<Rightarrow> nat set" where
  "alloc_region a \<equiv> region (da_ptr a) (da_layout a)"

definition apart :: "dma_alloc \<Rightarrow> dma_alloc \<Rightarrow> bool" where
  "apart a b \<longleftrightarrow> alloc_region a \<inter> alloc_region b = {}"

lemma apart_sym: "apart a b \<longleftrightarrow> apart b a"
  by (auto simp: apart_def)

lemma apart_size [simp]: "apart (a\<lparr>da_size := n\<rparr>) b = apart a b" "apart a (b\<lparr>da_size := n\<rparr>) = apart a b"
  by (simp_all add: apart_def)

lemma apart_part:
  assumes "apart a b" and "n \<le> da_layout a"
  shows "region (da_ptr a) n \<inter> alloc_region b = {}"
  using assms by (fastforce simp: apart_def region_def disjoint_iff)

abbreviation block :: "dma_alloc \<Rightarrow> nat \<times> nat" where
  "block a \<equiv> (da_ptr a, da_layout a)"

definition zero_on :: "nat \<Rightarrow> nat \<Rightarrow> bytes \<Rightarrow> bool" where
  "zero_on i j mem \<longleftrightarrow> (\<forall>k. i \<le> k \<longrightarrow> k < j \<longrightarrow> mem ! k = 0)"

text \<open>
  Buffers are live allocations, lie in the memory and do not overlap; a buffer of the pool is zero,
  and a buffer in use is zero beyond the size that is in use.
\<close>

definition dma_inv ::
  "('h \<Rightarrow> (nat \<times> nat) multiset) \<Rightarrow> nat \<Rightarrow> 'h dma_heap \<times> dma_alloc list \<Rightarrow> bool" where
  "dma_inv live limit = (\<lambda>(h, as).
     length (dh_mem h) = limit \<and>
     mset (map block (dh_pool h @ as)) \<subseteq># live (dh_heap h) \<and>
     sorted_wrt apart (dh_pool h @ as) \<and>
     (\<forall>a \<in> set (dh_pool h @ as). da_size a \<le> da_layout a \<and> da_ptr a + da_layout a \<le> limit) \<and>
     (\<forall>a \<in> set (dh_pool h). da_size a = POOL_ALLOC_SIZE_REQ_RESP \<and> da_layout a = POOL_ALLOC_SIZE_REQ_RESP \<and>
        zero_on (da_ptr a) (da_ptr a + da_layout a) (dh_mem h)) \<and>
     (\<forall>a \<in> set as. zero_on (da_ptr a + da_size a) (da_ptr a + da_layout a) (dh_mem h)))"

lemma zero_on_write_outside:
  assumes "zero_on i j mem" and "p + length bs \<le> length mem" and "j \<le> length mem"
    and "region p (length bs) \<inter> {i ..< j} = {}"
  shows "zero_on i j (mem_write p bs mem)"
  using assms by (fastforce simp: zero_on_def nth_mem_write region_def)

lemma zero_on_fill:
  assumes "p + n \<le> length mem"
  shows "zero_on p (p + n) (mem_fill p n mem)"
  using assms by (auto simp: zero_on_def mem_fill_def nth_mem_write)

lemma zero_on_slice: "zero_on p (p + n) mem \<Longrightarrow> p + n \<le> length mem \<Longrightarrow> slice p n mem = replicate n 0"
  by (intro nth_equalityI) (auto simp: zero_on_def nth_slice)

text \<open>Overwriting inside of a block leaves the zero parts of all blocks that do not overlap it.\<close>

lemma dma_inv_write:
  assumes inv: "dma_inv live limit (h, as)" and bs: "p + length bs \<le> limit"
    and pool: "\<And>a. a \<in> set (dh_pool h) \<Longrightarrow> region p (length bs) \<inter> alloc_region a = {}"
    and used: "\<And>a. a \<in> set as \<Longrightarrow>
        region p (length bs) \<inter> {da_ptr a + da_size a ..< da_ptr a + da_layout a} = {}"
  shows "dma_inv live limit (h\<lparr>dh_mem := mem_write p bs (dh_mem h)\<rparr>, as)"
proof -
  have len: "length (dh_mem h) = limit" using inv by (simp add: dma_inv_def)
  have bnd: "da_ptr a + da_layout a \<le> length (dh_mem h)" if "a \<in> set (dh_pool h) \<union> set as" for a
    using inv that by (auto simp: dma_inv_def)
  have "zero_on (da_ptr a) (da_ptr a + da_layout a) (mem_write p bs (dh_mem h))" if a: "a \<in> set (dh_pool h)" for a
  proof (rule zero_on_write_outside [OF _ _ bnd])
    show "region p (length bs) \<inter> {da_ptr a ..< da_ptr a + da_layout a} = {}"
      using pool [OF a] by (simp only: region_def)
  qed (use inv a bs len in \<open>auto simp: dma_inv_def\<close>)
  moreover have "zero_on (da_ptr a + da_size a) (da_ptr a + da_layout a) (mem_write p bs (dh_mem h))"
    if a: "a \<in> set as" for a
    by (rule zero_on_write_outside [OF _ _ bnd used [OF a]]) (use inv a bs len in \<open>auto simp: dma_inv_def\<close>)
  ultimately show ?thesis using inv bs by (simp add: dma_inv_def)
qed

lemma dma_inv_alloc:
  assumes C: "heap_crate_laws C live limit" and inv: "dma_inv live limit (h, as)"
    and alloc: "allocate_first_fit C n (dh_heap h) = Some (ptr, heap)"
  shows "ptr + n \<le> limit" and "\<And>a. a \<in> set (dh_pool h @ as) \<Longrightarrow> region ptr n \<inter> alloc_region a = {}"
    and "live heap = add_mset (ptr, n) (live (dh_heap h))"
    and "dma_inv live limit (h\<lparr>dh_mem := mem_fill ptr n (dh_mem h)\<rparr>, as)"
proof -
  show top: "ptr + n \<le> limit" and "live heap = add_mset (ptr, n) (live (dh_heap h))"
    using C alloc by (auto simp: heap_crate_laws_def)
  show apart: "region ptr n \<inter> alloc_region a = {}" if "a \<in> set (dh_pool h @ as)" for a
  proof -
    have sub: "mset (map block (dh_pool h @ as)) \<subseteq># live (dh_heap h)" using inv by (simp only: dma_inv_def split_def fst_conv snd_conv)
    have "block a \<in># mset (map block (dh_pool h @ as))" using that by auto
    then have "block a \<in># live (dh_heap h)" by (rule mset_subset_eqD [OF sub])
    with C alloc show ?thesis by (fastforce simp: heap_crate_laws_def)
  qed
  show "dma_inv live limit (h\<lparr>dh_mem := mem_fill ptr n (dh_mem h)\<rparr>, as)"
    unfolding mem_fill_def
  proof (rule dma_inv_write [OF inv])
    fix a assume "a \<in> set as"
    then show "region ptr (length (replicate n (0 :: 8 word))) \<inter>
        {da_ptr a + da_size a ..< da_ptr a + da_layout a} = {}"
      using apart [of a] by (auto simp: region_def disjoint_iff)
  qed (use top apart in simp_all)
qed

lemma sorted_apart_insert:
  "sorted_wrt apart (xs @ ys) \<Longrightarrow> (\<And>b. b \<in> set (xs @ ys) \<Longrightarrow> apart a b) \<Longrightarrow> sorted_wrt apart (xs @ a # ys)"
  by (simp add: sorted_wrt_append apart_sym [of _ a])

lemma sorted_apart_move:
  "sorted_wrt apart (xs @ ys @ a # zs) \<Longrightarrow> sorted_wrt apart (xs @ a # ys @ zs)"
  by (auto simp: sorted_wrt_append apart_sym [of a])

lemma sorted_apart_drop: "sorted_wrt apart (xs @ ys @ a # zs) \<Longrightarrow> sorted_wrt apart (xs @ ys @ zs)"
  by (auto simp: sorted_wrt_append)

lemma dma_inv_heap:
  assumes C: "heap_crate_laws C live limit" and inv: "dma_inv live limit (h, as)"
    and alloc: "dma_allocate C n h = (Some a, h')"
  shows "dma_inv live limit (h', a # as)" and "da_size a = n" and "zero_on (da_ptr a) (da_ptr a + n) (dh_mem h')"
    and "\<And>b. b \<in> set (dh_pool h @ as) \<Longrightarrow> apart a b"
proof -
  obtain ptr heap where ff: "allocate_first_fit C n (dh_heap h) = Some (ptr, heap)"
    and a: "a = \<lparr>da_ptr = ptr, da_size = n, da_layout = n\<rparr>"
    and h': "h' = h\<lparr>dh_heap := heap, dh_mem := mem_fill ptr n (dh_mem h)\<rparr>"
    using alloc by (auto simp: dma_allocate_def split: option.splits)
  note new = dma_inv_alloc [OF C inv ff]
  have len: "length (dh_mem h) = limit" using inv by (simp add: dma_inv_def)
  show "da_size a = n" by (simp add: a)
  show "zero_on (da_ptr a) (da_ptr a + n) (dh_mem h')"
    using zero_on_fill new(1) len by (simp add: a h')
  show ap: "apart a b" if "b \<in> set (dh_pool h @ as)" for b
    using new(2) [OF that] by (simp add: a apart_def)
  have "sorted_wrt apart (dh_pool h @ a # as)"
    by (rule sorted_apart_insert [OF _ ap]) (use inv in \<open>simp_all add: dma_inv_def\<close>)
  then show "dma_inv live limit (h', a # as)"
    using new(1,3,4) by (auto simp: dma_inv_def a h' zero_on_def intro: subset_mset.order_trans)
qed

lemma allocate_from_pool_simps:
  "dh_pool h = [] \<Longrightarrow> allocate_from_pool n h = (None, h)"
  "dh_pool h = p @ [b] \<Longrightarrow> allocate_from_pool n h =
     (if n \<le> POOL_ALLOC_SIZE_REQ_RESP then (Some (b\<lparr>da_size := n\<rparr>), h\<lparr>dh_pool := p\<rparr>) else (None, h))"
proof -
  show "allocate_from_pool n h = (None, h)" if "dh_pool h = []"
    using that by (simp add: allocate_from_pool_def)
  show "allocate_from_pool n h =
     (if n \<le> POOL_ALLOC_SIZE_REQ_RESP then (Some (b\<lparr>da_size := n\<rparr>), h\<lparr>dh_pool := p\<rparr>) else (None, h))"
    if pool: "dh_pool h = p @ [b]"
  proof -
    have "dh_pool h \<noteq> []" "last (dh_pool h) = b" "butlast (dh_pool h) = p" using pool by simp_all
    then show ?thesis by (cases "dh_pool h") (simp_all add: allocate_from_pool_def)
  qed
qed

lemma dma_inv_pool:
  assumes inv: "dma_inv live limit (h, as)" and alloc: "allocate_from_pool n h = (Some a, h')"
  shows "dma_inv live limit (h', a # as)" and "da_size a = n" and "zero_on (da_ptr a) (da_ptr a + n) (dh_mem h')"
    and "\<And>b. b \<in> set as \<Longrightarrow> apart a b" and "n \<le> POOL_ALLOC_SIZE_REQ_RESP"
proof -
  obtain p b where pool: "dh_pool h = p @ [b]" and a: "a = b\<lparr>da_size := n\<rparr>" and h': "h' = h\<lparr>dh_pool := p\<rparr>"
    and n: "n \<le> POOL_ALLOC_SIZE_REQ_RESP"
    using alloc by (cases "dh_pool h" rule: rev_cases) (auto simp: allocate_from_pool_simps split: if_splits)
  have b: "da_size b = POOL_ALLOC_SIZE_REQ_RESP" "da_layout b = POOL_ALLOC_SIZE_REQ_RESP"
    "zero_on (da_ptr b) (da_ptr b + POOL_ALLOC_SIZE_REQ_RESP) (dh_mem h)"
    using inv by (auto simp: dma_inv_def pool)
  show "n \<le> POOL_ALLOC_SIZE_REQ_RESP" by (rule n)
  show "da_size a = n" by (simp add: a)
  show "zero_on (da_ptr a) (da_ptr a + n) (dh_mem h')" using b(3) n by (auto simp: a h' zero_on_def)
  show "apart a b'" if "b' \<in> set as" for b'
    using inv that by (simp add: dma_inv_def pool a sorted_wrt_append)
  show "dma_inv live limit (h', a # as)"
    using inv b n by (auto simp: dma_inv_def pool a h' sorted_wrt_append zero_on_def)
qed

lemma dma_inv_drop:
  assumes C: "heap_crate_laws C live limit" and inv: "dma_inv live limit (h, as)" and a: "a \<in> set as"
  shows "dma_inv live limit (dma_drop C a h, remove1 a as)"
proof -
  obtain ys zs where as: "as = ys @ a # zs" "remove1 a as = ys @ zs"
    using split_list_first [OF a] by (metis remove1_append remove1.simps(2))
  let ?h = "h\<lparr>dh_mem := mem_fill (da_ptr a) (da_size a) (dh_mem h)\<rparr>"
  have len: "length (dh_mem h) = limit" and ap: "sorted_wrt apart (dh_pool h @ ys @ a # zs)"
    and ptr: "da_size a \<le> da_layout a" "da_ptr a + da_layout a \<le> limit"
    and rest: "zero_on (da_ptr a + da_size a) (da_ptr a + da_layout a) (dh_mem h)"
    and live: "mset (map block (dh_pool h @ ys @ a # zs)) \<subseteq># live (dh_heap h)"
    using inv by (auto simp: dma_inv_def as(1))
  have others: "region (da_ptr a) (da_size a) \<inter> alloc_region b = {}" if "b \<in> set (dh_pool h @ ys @ zs)" for b
    by (rule apart_part [OF _ ptr(1)])
      (use sorted_apart_move [OF ap] that in \<open>auto simp: sorted_wrt_append apart_sym [of a]\<close>)
  have inv': "dma_inv live limit (?h, ys @ zs)"
    unfolding mem_fill_def
  proof (rule dma_inv_write)
    show "dma_inv live limit (h, ys @ zs)"
      using inv sorted_apart_drop [OF ap] by (auto simp: dma_inv_def as(1) intro: subset_mset.order_trans [rotated])
    show "region (da_ptr a) (length (replicate (da_size a) (0 :: 8 word))) \<inter>
        {da_ptr b + da_size b ..< da_ptr b + da_layout b} = {}" if "b \<in> set (ys @ zs)" for b
      using others [of b] that by (auto simp: region_def disjoint_iff)
  qed (use others ptr in simp_all)
  have zero: "zero_on (da_ptr a) (da_ptr a + da_layout a) (dh_mem ?h)"
    using rest zero_on_fill [of "da_ptr a" "da_size a" "dh_mem h"] ptr len
    by (auto simp: zero_on_def mem_fill_def nth_mem_write)
  show ?thesis
  proof (cases "da_layout a = POOL_ALLOC_SIZE_REQ_RESP \<and> length (dh_pool h) < POOL_SIZE")
    case True
    then have drop: "dma_drop C a h = ?h\<lparr>dh_pool := dh_pool h @ [a\<lparr>da_size := POOL_ALLOC_SIZE_REQ_RESP\<rparr>]\<rparr>"
      by (simp add: dma_drop_def dma_deallocate_def)
    show ?thesis
      using True inv' zero ptr live sorted_apart_move [OF ap]
      by (simp add: dma_inv_def drop as(2) sorted_wrt_append) metis
  next
    case False
    have "block a \<in># live (dh_heap h)" by (rule mset_subset_eqD [OF live]) simp
    then have "live (heap_deallocate C (da_ptr a) (da_layout a) (dh_heap h)) = live (dh_heap h) - {#block a#}"
      using C by (simp add: heap_crate_laws_def)
    moreover have "mset (map block (dh_pool h @ ys @ zs)) \<subseteq># live (dh_heap h) - {#block a#}"
      using live by (simp add: insert_subset_eq_iff)
    moreover have "dma_drop C a h = ?h\<lparr>dh_heap := heap_deallocate C (da_ptr a) (da_layout a) (dh_heap h)\<rparr>"
      using False by (auto simp: dma_drop_def dma_deallocate_def Let_def)
    ultimately show ?thesis using inv' by (simp add: dma_inv_def as(2)) metis
  qed
qed

lemma dma_inv_step:
  assumes C: "heap_crate_laws C live limit" and "dma_step C s s'" and "dma_inv live limit s"
  shows "dma_inv live limit s'"
  using assms(2,3)
proof (induction rule: dma_step.induct)
  case (step_heap n h a h' as)
  then show ?case using dma_inv_heap(1) [OF C] by blast
next
  case (step_pool n h a h' as)
  then show ?case using dma_inv_pool(1) by blast
next
  case (step_write a as bs h)
  obtain ys zs where as: "as = ys @ a # zs" using split_list step_write(1) by metis
  have ptr: "da_size a \<le> da_layout a" "da_ptr a + da_layout a \<le> limit"
    and ap: "sorted_wrt apart (dh_pool h @ a # ys @ zs)"
    using step_write(3) sorted_apart_move by (auto simp: dma_inv_def as)
  have others: "region (da_ptr a) (length bs) \<inter> alloc_region b = {}" if "b \<in> set (dh_pool h @ ys @ zs)" for b
    unfolding step_write(2) by (rule apart_part [OF _ ptr(1)])
      (use ap that in \<open>auto simp: sorted_wrt_append apart_sym [of a]\<close>)
  show ?case
  proof (rule dma_inv_write [OF step_write(3)])
    fix b assume "b \<in> set as"
    then show "region (da_ptr a) (length bs) \<inter> {da_ptr b + da_size b ..< da_ptr b + da_layout b} = {}"
      using others [of b] step_write(2) by (cases "b = a") (auto simp: as region_def disjoint_iff)
  qed (use others ptr step_write(2) in simp_all)
next
  case (step_drop a as h)
  then show ?case using dma_inv_drop [OF C] by blast
qed

lemma dma_inv_reachable:
  assumes C: "heap_crate_laws C live limit" and "(dma_step C)\<^sup>*\<^sup>* s s'" and "dma_inv live limit s"
  shows "dma_inv live limit s'"
  using assms(2,3) by (induction rule: rtranclp_induct) (use dma_inv_step [OF C] in blast)+

lemma dma_inv_populate:
  assumes C: "heap_crate_laws C live limit"
  shows "populate_pool C n h = Some h' \<Longrightarrow> dma_inv live limit (h, []) \<Longrightarrow>
    dma_inv live limit (h', []) \<and> length (dh_pool h') = length (dh_pool h) + n"
proof (induction n arbitrary: h)
  case (Suc n)
  let ?n = POOL_ALLOC_SIZE_REQ_RESP
  obtain ptr heap where ff: "allocate_first_fit C ?n (dh_heap h) = Some (ptr, heap)"
    using Suc.prems(1) by (auto split: option.splits)
  let ?a = "\<lparr>da_ptr = ptr, da_size = ?n, da_layout = ?n\<rparr>"
  let ?h = "h\<lparr>dh_heap := heap, dh_mem := mem_fill ptr ?n (dh_mem h), dh_pool := dh_pool h @ [?a]\<rparr>"
  have "dma_allocate C ?n h = (Some ?a, h\<lparr>dh_heap := heap, dh_mem := mem_fill ptr ?n (dh_mem h)\<rparr>)"
    using ff by (simp add: dma_allocate_def)
  note new = dma_inv_heap [OF C Suc.prems(2) this]
  have "dma_inv live limit (?h, [])" using new(1,3) by (simp add: dma_inv_def) metis
  moreover have "populate_pool C n ?h = Some h'" using Suc.prems(1) ff by simp
  ultimately show ?case using Suc.IH by fastforce
qed simp

lemma dma_inv_new:
  assumes C: "heap_crate_laws C live limit" and "live heap = {#}" and "length mem = limit"
    and "dma_heap_new C mem heap = Some h"
  shows "dma_inv live limit (h, []) \<and> length (dh_pool h) = POOL_SIZE"
proof -
  have "dma_inv live limit (\<lparr>dh_mem = mem, dh_heap = heap, dh_pool = []\<rparr>, [])"
    using assms(2,3) by (simp add: dma_inv_def)
  from dma_inv_populate [OF C assms(4) [unfolded dma_heap_new_def] this] show ?thesis by simp
qed

lemma populate_stack_heap:
  assumes "foldr (\<lambda>(q, m). max (q + m)) (dh_heap h) 8 + n * POOL_ALLOC_SIZE_REQ_RESP \<le> limit"
  shows "\<exists>h'. populate_pool (stack_heap limit) n h = Some h'"
  using assms by (induction n arbitrary: h) (auto simp: stack_heap_def Let_def)

section \<open>Properties of the buffers\<close>

text \<open>
  C10: no data leaks from one request to the next. After any sequence of allocations, writes and
  drops, a buffer that is taken from the pool or from the heap has the requested size, is all
  zero, and does not overlap any buffer in use. The pool holds 64 buffers at the start.
\<close>

theorem buffers_fresh:
  assumes "heap_crate_laws C live limit" and "live heap = {#}" and "length mem = limit"
    and "dma_heap_new C mem heap = Some h0" and "(dma_step C)\<^sup>*\<^sup>* (h0, []) (h, as)"
    and "allocate_from_pool n h = (Some a, h') \<or> dma_allocate C n h = (Some a, h')"
  shows "alloc_as_ref h' a = replicate n 0 \<and> (\<forall>b \<in> set as. apart a b) \<and> length (dh_pool h0) = POOL_SIZE"
proof -
  note new = dma_inv_new [OF assms(1-4)]
  have inv: "dma_inv live limit (h, as)" by (rule dma_inv_reachable [OF assms(1,5)]) (use new in simp)
  have *: "dma_inv live limit (h', a # as) \<and> da_size a = n \<and> zero_on (da_ptr a) (da_ptr a + n) (dh_mem h') \<and>
      (\<forall>b \<in> set as. apart a b)"
    using assms(6) dma_inv_pool [OF inv] dma_inv_heap [OF assms(1) inv] by auto
  then have "da_ptr a + n \<le> length (dh_mem h')" by (auto simp: dma_inv_def)
  with * new show ?thesis by (auto simp: alloc_as_ref_def intro!: zero_on_slice)
qed

theorem buffers_fresh_witness:
  "\<exists>h a h'. dma_heap_new (stack_heap 300000) (replicate 300000 7) [] = Some h \<and>
     allocate_from_pool 100 h = (Some a, h') \<and> alloc_as_ref h' a = replicate 100 0"
proof -
  obtain h where h: "dma_heap_new (stack_heap 300000) (replicate 300000 7) [] = Some h"
    using populate_stack_heap [of "\<lparr>dh_mem = replicate 300000 7, dh_heap = [], dh_pool = []\<rparr>" POOL_SIZE 300000]
    by (auto simp: dma_heap_new_def POOL_SIZE_def POOL_ALLOC_SIZE_REQ_RESP_def)
  have pool: "length (dh_pool h) = POOL_SIZE"
    using dma_inv_new [OF stack_heap_laws _ _ h] by simp
  then obtain p b where "dh_pool h = p @ [b]"
    by (cases "dh_pool h" rule: rev_cases) (auto simp: POOL_SIZE_def)
  then have "allocate_from_pool 100 h = (Some (b\<lparr>da_size := 100\<rparr>), h\<lparr>dh_pool := p\<rparr>)"
    by (simp add: allocate_from_pool_simps POOL_ALLOC_SIZE_REQ_RESP_def)
  with h buffers_fresh [OF stack_heap_laws _ _ h rtranclp.rtrancl_refl, of 100] show ?thesis by simp
qed

section \<open>Responses\<close>

lemma value_ok_mem:
  "value_ok t v (encoder_new mem b n) = value_ok t v (encoder_new mem 0 0)"
  by (rule value_ok_frame(1)) (simp add: encoder_new_def)

lemma encode_buf_Ok:
  assumes t: "type_wf t" and inv: "dma_inv live limit (h, as)" and pool: "dh_pool h = p @ [b]"
    and v: "value_ok t v (encoder_new (dh_mem h) 0 0)" and n: "len_value t v 0 \<le> POOL_ALLOC_SIZE_REQ_RESP"
  defines "e \<equiv> encoder_new (dh_mem h) (da_ptr b) (len_value t v 0)"
  shows "\<exists>v' e'. encode_buf C t v h =
      (Ok (b\<lparr>da_size := len_value t v 0\<rparr>, v'), h\<lparr>dh_mem := enc_mem e', dh_pool := p\<rparr>) \<and> enc_frame e e' \<and>
      decode_buf t (h\<lparr>dh_mem := enc_mem e', dh_pool := p\<rparr>) (b\<lparr>da_size := len_value t v 0\<rparr>) = Ok v' \<and>
      moved e (arrays v) e' (arrays v')"
proof -
  let ?n = "len_value t v 0"
  have "da_layout b = POOL_ALLOC_SIZE_REQ_RESP" and "da_ptr b + da_layout b \<le> length (dh_mem h)"
    using inv by (simp_all add: dma_inv_def pool)
  then have wf: "enc_wf e" using n by (simp add: e_def enc_wf_def encoder_new_def)
  have "value_ok t v e" unfolding e_def value_ok_mem [of _ _ _ "da_ptr b"] by (rule v)
  then have "codes t v e"
    using n by (intro value_codes [OF t wf]) (simp_all add: e_def POOL_ALLOC_SIZE_REQ_RESP_def encoder_new_def)
  then obtain bs v' e' where r: "encode_value t v e = (Ok v', e')" "wrote e bs e'" "enc_pos e' = ?n"
    "parses (decode_value t) bs (da_ptr b) v'" "moved e (arrays v) e' (arrays v')"
    unfolding codes_def by (auto simp: e_def encoder_new_def enc_addr_def)
  have fr: "enc_frame e e'" by (rule wrote_frame [OF r(2)])
  let ?d = "decoder_new (enc_mem e') (da_ptr b) ?n"
  have "has_input ?d bs"
    using r(2,3) fr wf
    by (auto simp: has_input_def decoder_new_def dec_addr_def enc_addr_def wrote_def enc_frame_def enc_wf_def
        e_def encoder_new_def)
  then have dec: "fst (decode_value t ?d) = Ok v'"
    using r(4) by (simp add: parses_def decoder_new_def dec_addr_def)
  have "encode_buf C t v h = (Ok (b\<lparr>da_size := ?n\<rparr>, v'), h\<lparr>dh_mem := enc_mem e', dh_pool := p\<rparr>)"
    using r(1) n by (simp add: encode_buf_def allocate_from_pool_simps(2) [OF pool] e_def)
  with fr dec r(5) show ?thesis by (auto simp: decode_buf_def)
qed

text \<open>
  C32: a response is delivered as it was built. For every struct and value, \<open>encode_buf\<close> fails with
  an allocation error exactly when the pool is empty or the encoding is longer than a buffer of the
  pool, and then changes nothing; it never fails to encode. Otherwise it takes the last buffer of
  the pool at exactly the length of the encoding, changes no memory outside of it, and decoding the
  buffer gives the value back, with its byte arrays moved into the buffer.
\<close>

theorem response_delivered:
  assumes "type_wf t" and "dma_inv live limit (h, as)" and "value_ok t v (encoder_new (dh_mem h) 0 0)"
  shows "if dh_pool h = [] \<or> len_value t v 0 > POOL_ALLOC_SIZE_REQ_RESP
    then encode_buf C t v h = (Err DmaAllocFailure, h)
    else \<exists>buf v' h' e'. encode_buf C t v h = (Ok (buf, v'), h') \<and> da_size buf = len_value t v 0 \<and>
      decode_buf t h' buf = Ok v' \<and> dh_pool h' = butlast (dh_pool h) \<and> block buf = block (last (dh_pool h)) \<and>
      enc_frame (encoder_new (dh_mem h) (da_ptr buf) (da_size buf)) e' \<and> dh_mem h' = enc_mem e' \<and>
      moved (encoder_new (dh_mem h) (da_ptr buf) (da_size buf)) (arrays v) e' (arrays v')"
proof (cases "dh_pool h" rule: rev_cases)
  case Nil
  then show ?thesis by (simp add: encode_buf_def allocate_from_pool_simps)
next
  case (snoc p b)
  show ?thesis
  proof (cases "len_value t v 0 \<le> POOL_ALLOC_SIZE_REQ_RESP")
    case True
    from encode_buf_Ok [OF assms(1,2) snoc assms(3) True, of C] obtain v' e' where
      "encode_buf C t v h =
        (Ok (b\<lparr>da_size := len_value t v 0\<rparr>, v'), h\<lparr>dh_mem := enc_mem e', dh_pool := p\<rparr>)"
      "enc_frame (encoder_new (dh_mem h) (da_ptr b) (len_value t v 0)) e'"
      "decode_buf t (h\<lparr>dh_mem := enc_mem e', dh_pool := p\<rparr>) (b\<lparr>da_size := len_value t v 0\<rparr>) = Ok v'"
      "moved (encoder_new (dh_mem h) (da_ptr b) (len_value t v 0)) (arrays v) e' (arrays v')" by blast
    with True snoc show ?thesis by (fastforce simp: not_less)
  next
    case False
    then show ?thesis using snoc by (simp add: encode_buf_def allocate_from_pool_simps(2) [OF snoc])
  qed
qed

theorem response_delivered_witness:
  "\<exists>buf v' h'. encode_buf (stack_heap 4000) (ddi_cmd_resp DdiDeleteKeyResp)
      (VStruct [Some (VStruct [None, Some (VU32 1014), Some (VU16 1), Some (VU32 0), Some (VBool True)]),
         Some (VStruct [])])
      \<lparr>dh_mem = replicate 4000 0, dh_heap = [(8, 3584)],
        dh_pool = [\<lparr>da_ptr = 8, da_size = 3584, da_layout = 3584\<rparr>]\<rparr> = (Ok (buf, v'), h') \<and>
    decode_buf (ddi_cmd_resp DdiDeleteKeyResp) h' buf = Ok v'"
proof -
  let ?v = "VStruct [Some (VStruct [None, Some (VU32 1014), Some (VU16 1), Some (VU32 0), Some (VBool True)]),
         Some (VStruct [])]"
  let ?h = "\<lparr>dh_mem = replicate 4000 0, dh_heap = [(8, 3584)],
        dh_pool = [\<lparr>da_ptr = 8, da_size = 3584, da_layout = 3584\<rparr>]\<rparr>"
  have t: "type_wf (ddi_cmd_resp DdiDeleteKeyResp)"
    using command_wf(2) [of Op_DeleteKey DdiDeleteKeyReq] by (simp add: ddi_commands_def)
  have inv: "dma_inv mset 4000 (?h, [])"
    by (simp add: dma_inv_def zero_on_def POOL_ALLOC_SIZE_REQ_RESP_def)
  have v: "value_ok (ddi_cmd_resp DdiDeleteKeyResp) ?v (encoder_new (dh_mem ?h) 0 0)"
    by (simp add: ddi_cmd_resp_def DdiRespHdr_def DdiDeleteKeyResp_def)
  have "len_value (ddi_cmd_resp DdiDeleteKeyResp) ?v 0 \<le> 3584" by code_simp
  with response_delivered [OF t inv v, of "stack_heap 4000"] show ?thesis
    by (auto simp: POOL_ALLOC_SIZE_REQ_RESP_def)
qed

end
