(* ===== verification/Partition.thy ===== *)
theory Partition
  imports Vault_Props Session_Table Credential_Mgr Bks_Table
begin

text \<open>
  A partition of the device (\<^verbatim>\<open>hsm/src/partition/state.rs\<close> and
  \<^verbatim>\<open>hsm/src/partition/part.rs\<close>): the key vault, the session table, the user credential and
  the PIN policy put together. The operations are its life cycle (enable, disable, migrate, reset,
  save and restore), the establishment of the credential, and opening, using, closing and rolling
  back sessions.

  The cryptography (key agreement, key derivation, HMAC, AES, the key hierarchy of live migration)
  is done by hardware engines and is the argument \<open>K\<close>; random bytes and time stamps are arguments
  of the calls. A buffer allocation that fails is a failure of the operation it serves. The I/O
  queues and the slots of the bulk-key vault of the fast path are not part of the state.
\<close>

section \<open>State\<close>

record api_rev =
  rev_major :: u32
  rev_minor :: u32

definition MAX_PART_CERT_LENGTH :: u32 where "MAX_PART_CERT_LENGTH = 800"
definition APP_VAULT_ID_FOR_INTERNAL_KEYS :: u8 where "APP_VAULT_ID_FOR_INTERNAL_KEYS = 255"

text \<open>\<^verbatim>\<open>HsmPartPersistentStore\<close>, in the order of its fields, without the version and the reserved ones.\<close>

record part_persistent_store =
  pst_session_table :: session_table
  pst_unwrapping_key_required :: bool
  pst_unwrapping_key_bk_valid :: u8
  pst_unwrapping_key_bk :: bytes
  pst_pin_policy :: pin_policy
  pst_vm_launch_guid :: bytes
  pst_partition_id_valid :: bool
  pst_partition_id :: bytes
  pst_partition_id_priv_key :: bytes
  pst_partition_id_pub_key :: bytes
  pst_partition_cert_valid :: bool
  pst_partition_cert_length :: u32
  pst_partition_cert_data :: bytes
  pst_masked_bk_boot_len :: u32
  pst_masked_bk_boot_data :: bytes
  pst_sealed_bk3_len :: u32
  pst_sealed_bk3_data :: bytes
  pst_nonce :: bytes
  pst_bk3_session_key_valid :: bool
  pst_bk3_session_key :: bytes

record cert_chain_lengths_info =
  cci_hash :: bytes
  cci_num_certs :: u8
  cci_cert_lengths :: "u16 list"

text \<open>
  \<^verbatim>\<open>PartStateImpl\<close> with the memory it refers to: the persistent store and the key tables,
  which all partitions share.
\<close>

record partition =
  pt_enabled :: bool
  pt_rgs :: u128
  pt_cred_mgr :: credential_mgr
  pt_unwrapping_key_id :: "u16 option"
  pt_establish_cred_encryption_key_id :: "u16 option"
  pt_session_encryption_key_id :: "u16 option"
  pt_cert_chain_len_info :: "cert_chain_lengths_info option"
  pt_masking_key :: "u16 option"
  pt_store :: part_persistent_store
  pt_tables :: "physical_table list"

definition vault :: "partition \<Rightarrow> key_store" where
  "vault p = \<lparr>ks_mask = pt_rgs p, ks_tables = pt_tables p\<rparr>"

definition on_vault :: "'a store_op \<Rightarrow> partition \<Rightarrow> 'a hsm_result \<times> partition" where
  "on_vault f p = (case f (vault p) of (r, s) \<Rightarrow> (r, p\<lparr>pt_tables := ks_tables s\<rparr>))"

abbreviation sessions :: "partition \<Rightarrow> session_table" where
  "sessions p \<equiv> pst_session_table (pt_store p)"

abbreviation set_sessions :: "session_table \<Rightarrow> partition \<Rightarrow> partition" where
  "set_sessions t p \<equiv> p\<lparr>pt_store := (pt_store p)\<lparr>pst_session_table := t\<rparr>\<rparr>"

definition on_sessions ::
  "(session_table \<Rightarrow> 'a hsm_result \<times> session_table) \<Rightarrow> partition \<Rightarrow> 'a hsm_result \<times> partition" where
  "on_sessions f p = (case f (sessions p) of (r, t) \<Rightarrow> (r, set_sessions t p))"

section \<open>Life cycle\<close>

definition reset_nonce :: "bytes \<Rightarrow> partition \<Rightarrow> partition" where
  "reset_nonce rng p = p\<lparr>pt_store := (pt_store p)\<lparr>pst_nonce := rng\<rparr>\<rparr>"

definition vault_clear :: "partition \<Rightarrow> partition" where
  "vault_clear p = p\<lparr>pt_tables := ks_tables (ks_nuke (vault p))\<rparr>"

definition ps_enable :: "partition \<Rightarrow> partition" where
  "ps_enable p = p\<lparr>pt_enabled := True\<rparr>"

definition ps_disable :: "bytes \<Rightarrow> partition \<Rightarrow> partition" where
  "ps_disable rng p =
     (let p = p\<lparr>pt_enabled := False, pt_cred_mgr := clear_cred (pt_cred_mgr p), pt_unwrapping_key_id := None,
            pt_establish_cred_encryption_key_id := None, pt_session_encryption_key_id := None\<rparr>;
          p = reset_nonce rng p;
          p = set_sessions (st_restore (st_backup (sessions p)) (sessions p)) p;
          p = vault_clear p
      in p\<lparr>pt_store := (pt_store p)\<lparr>pst_pin_policy := pin_policy_default\<rparr>, pt_masking_key := None\<rparr>)"

definition migrate :: "bytes \<Rightarrow> partition \<Rightarrow> partition" where
  "migrate rng p =
     (let p = p\<lparr>pt_cred_mgr := clear_cred (pt_cred_mgr p), pt_unwrapping_key_id := None,
            pt_store := (pt_store p)\<lparr>pst_bk3_session_key_valid := False,
              pst_bk3_session_key := replicate 48 0, pst_pin_policy := pin_policy_default\<rparr>,
            pt_establish_cred_encryption_key_id := None, pt_session_encryption_key_id := None\<rparr>;
          p = reset_nonce rng p;
          p = set_sessions (st_restore (st_backup (sessions p)) (sessions p)) p;
          p = vault_clear p
      in p\<lparr>pt_masking_key := None\<rparr>)"

definition clear_partition_info :: "partition \<Rightarrow> partition" where
  "clear_partition_info p =
     (let p = p\<lparr>pt_store := (pt_store p)\<lparr>pst_vm_launch_guid := replicate 16 0, pst_partition_id_valid := False,
            pst_partition_cert_valid := False, pst_partition_cert_length := 0,
            pst_partition_cert_data := replicate 800 0, pst_partition_id := replicate 16 0,
            pst_partition_id_priv_key := replicate 48 0, pst_partition_id_pub_key := replicate 97 0,
            pst_unwrapping_key_required := False, pst_unwrapping_key_bk := replicate 516 0,
            pst_unwrapping_key_bk_valid := 0, pst_masked_bk_boot_len := 0,
            pst_masked_bk_boot_data := replicate 300 0, pst_sealed_bk3_len := 0,
            pst_sealed_bk3_data := replicate 512 0, pst_bk3_session_key_valid := False,
            pst_bk3_session_key := replicate 48 0\<rparr>,
          pt_cert_chain_len_info := None\<rparr>;
          p = set_sessions (st_restore 0 (sessions p)) p
      in p\<lparr>pt_masking_key := None\<rparr>)"

definition pt_reset :: "bytes \<Rightarrow> partition \<Rightarrow> partition" where
  "pt_reset rng p =
     (let p = ps_disable rng p;
          p = p\<lparr>pt_store := (pt_store p)\<lparr>pst_vm_launch_guid := replicate 16 0\<rparr>, pt_rgs := 0\<rparr>
      in clear_partition_info p)"

text \<open>\<^verbatim>\<open>PartStore\<close>: what is saved of a partition over a firmware update.\<close>

record part_store =
  sto_unwrapping_key_id :: "u16 option"
  sto_establish_cred_encryption_key_id :: "u16 option"
  sto_session_encryption_key_id :: "u16 option"
  sto_masking_key :: "u16 option"
  sto_user_cred :: user_credential
  sto_enabled :: bool

definition store_data :: "partition \<Rightarrow> part_store" where
  "store_data p = \<lparr>sto_unwrapping_key_id = pt_unwrapping_key_id p,
     sto_establish_cred_encryption_key_id = pt_establish_cred_encryption_key_id p,
     sto_session_encryption_key_id = pt_session_encryption_key_id p,
     sto_masking_key = pt_masking_key p, sto_user_cred = mgr_user_cred (pt_cred_mgr p),
     sto_enabled = pt_enabled p\<rparr>"

text \<open>
  The resource table gives the function that owns each table. A partition that owns one is armed
  for the unwrapping key again.
\<close>

definition restore_res_mask :: "'f \<Rightarrow> 'f option list \<Rightarrow> partition \<Rightarrow> partition" where
  "restore_res_mask pfn table p =
     (let m = fold (\<lambda>(i, owner) m. if owner = Some pfn then m OR push_bit i 1 else m) (enumerate 0 table) 0;
          p = p\<lparr>pt_rgs := m\<rparr>
      in if m \<noteq> 0 then p\<lparr>pt_store := (pt_store p)\<lparr>pst_unwrapping_key_required := True\<rparr>\<rparr> else p)"

definition part_new :: "part_persistent_store \<Rightarrow> physical_table list \<Rightarrow> partition" where
  "part_new store tables = \<lparr>pt_enabled = False, pt_rgs = 0, pt_cred_mgr = credential_mgr_default,
     pt_unwrapping_key_id = None, pt_establish_cred_encryption_key_id = None,
     pt_session_encryption_key_id = None, pt_cert_chain_len_info = None, pt_masking_key = None,
     pt_store = store, pt_tables = tables\<rparr>"

definition part_restore ::
  "'f \<Rightarrow> 'f option list \<Rightarrow> part_store \<Rightarrow> part_persistent_store \<Rightarrow> physical_table list \<Rightarrow> partition" where
  "part_restore pfn table saved store tables =
     (let p = (part_new store tables)\<lparr>pt_enabled := sto_enabled saved,
            pt_unwrapping_key_id := sto_unwrapping_key_id saved,
            pt_establish_cred_encryption_key_id := sto_establish_cred_encryption_key_id saved,
            pt_masking_key := sto_masking_key saved,
            pt_session_encryption_key_id := sto_session_encryption_key_id saved\<rparr>;
          p = restore_res_mask pfn table p;
          p = p\<lparr>pt_cred_mgr := restore_user_cred (sto_user_cred saved) (pt_cred_mgr p)\<rparr>
      in p\<lparr>pt_store := (pt_store p)\<lparr>pst_partition_cert_valid := False\<rparr>\<rparr>)"

definition is_partition_provisioned :: "partition \<Rightarrow> bool" where
  "is_partition_provisioned p \<longleftrightarrow> pt_masking_key p \<noteq> None"

definition set_partition_cert_length :: "u32 \<Rightarrow> partition \<Rightarrow> unit hsm_result \<times> partition" where
  "set_partition_cert_length len p =
     (if len > MAX_PART_CERT_LENGTH then (Err PartitionCertTooLarge, p)
      else (Ok (), p\<lparr>pt_store := (pt_store p)\<lparr>pst_partition_cert_length := len\<rparr>\<rparr>))"

definition get_bk3_session :: "partition \<Rightarrow> bytes option" where
  "get_bk3_session p =
     (if pst_bk3_session_key_valid (pt_store p) then Some (pst_bk3_session_key (pt_store p)) else None)"

definition set_bk3_session :: "bytes \<Rightarrow> partition \<Rightarrow> partition" where
  "set_bk3_session key p =
     p\<lparr>pt_store := (pt_store p)\<lparr>pst_bk3_session_key := key, pst_bk3_session_key_valid := True\<rparr>\<rparr>"

definition generate_and_store_bk3_session :: "bytes \<Rightarrow> (bytes \<Rightarrow> bytes hsm_result) \<Rightarrow> partition \<Rightarrow> unit hsm_result \<times> partition" where
  "generate_and_store_bk3_session bk3 gen p =
     (if length bk3 \<noteq> 48 then (Err InvalidArgument, p)
      else try_in (gen bk3) p (\<lambda>key.
        if length key \<noteq> 48 then (Err InvalidArgument, p) else (Ok (), set_bk3_session key p)))"

section \<open>Cryptography\<close>

text \<open>
  The engines and key derivations the commands call: HKDF of a secret and a nonce, HMAC of a key
  and a message, AES-CBC decryption of a cipher text under a key and an initial vector (which it
  also advances), the session backup key of a seed, two device secrets and the backup key, the
  firmware version a masked key names, unmasking, and a fresh masking key.
\<close>

record part_crypto =
  cr_hkdf :: "bytes \<Rightarrow> bytes \<Rightarrow> bytes hsm_result"
  cr_hmac :: "bytes \<Rightarrow> bytes \<Rightarrow> bytes hsm_result"
  cr_decrypt :: "bytes \<Rightarrow> bytes \<Rightarrow> bytes \<Rightarrow> (bytes \<times> bytes) option"
  cr_bk_session_gen :: "bytes \<Rightarrow> bytes \<Rightarrow> bytes \<Rightarrow> bytes \<Rightarrow> bytes hsm_result"
  cr_masked_key_svn :: "bytes \<Rightarrow> u64 hsm_result"
  cr_unmask :: "bytes \<Rightarrow> bytes \<Rightarrow> bytes hsm_result"
  cr_generate_mk :: "bytes hsm_result"

text \<open>\<^verbatim>\<open>DdiEncryptedSessionCredential\<close> and \<^verbatim>\<open>DdiEncryptedEstablishCredential\<close>, which has no seed.\<close>

record establish_cred =
  ec_id :: bytes
  ec_pin :: bytes
  ec_iv :: bytes
  ec_nonce :: bytes
  ec_tag :: bytes

record session_cred = establish_cred +
  ec_seed :: bytes

definition verify_nonce :: "bytes \<Rightarrow> partition \<Rightarrow> unit hsm_result" where
  "verify_nonce nonce p = (if nonce \<noteq> pst_nonce (pt_store p) then Err NonceMismatch else Ok ())"

definition verify_cred_is_not_set :: "partition \<Rightarrow> unit hsm_result" where
  "verify_cred_is_not_set p =
     (if verify_user_cred_is_set (pt_cred_mgr p) then Err AppLimitReached else Ok ())"

definition verify_cred_is_set :: "partition \<Rightarrow> unit hsm_result" where
  "verify_cred_is_set p =
     (if \<not> verify_user_cred_is_set (pt_cred_mgr p) then Err CredentialsNotEstablished else Ok ())"

definition verify_encrypted_establish_credential_tag ::
  "part_crypto \<Rightarrow> bytes \<Rightarrow> establish_cred \<Rightarrow> partition \<Rightarrow> unit hsm_result" where
  "verify_encrypted_establish_credential_tag K hmac_key c p =
     (if length (ec_id c) \<noteq> 16 \<or> length (ec_pin c) \<noteq> 16 \<or> length (ec_iv c) \<noteq> 16 then Err InvalidArgument
      else and_then (cr_hmac K hmac_key (ec_id c @ ec_pin c @ ec_iv c @ pst_nonce (pt_store p))) (\<lambda>hash.
        and_then (slice_get 0 48 hash) (\<lambda>h.
        if ec_tag c \<noteq> h then Err PinDecryptionFailed else Ok ())))"

definition verify_encrypted_session_credential_tag ::
  "part_crypto \<Rightarrow> bytes \<Rightarrow> session_cred \<Rightarrow> partition \<Rightarrow> unit hsm_result" where
  "verify_encrypted_session_credential_tag K hmac_key c p =
     (if length (ec_id c) \<noteq> 16 \<or> length (ec_pin c) \<noteq> 16 \<or> length (ec_seed c) \<noteq> 48 \<or> length (ec_iv c) \<noteq> 16
      then Err InvalidArgument
      else and_then (cr_hmac K hmac_key
             (ec_id c @ ec_pin c @ ec_seed c @ ec_iv c @ pst_nonce (pt_store p))) (\<lambda>hash.
        and_then (slice_get 0 48 hash) (\<lambda>h.
        if ec_tag c \<noteq> h then Err PinDecryptionFailed else Ok ())))"

definition decrypt_credential :: "part_crypto \<Rightarrow> bytes \<Rightarrow> bytes \<Rightarrow> bytes \<Rightarrow> (bytes \<times> bytes) hsm_result" where
  "decrypt_credential K aes_key cipher_text iv = ok_or (cr_decrypt K aes_key cipher_text iv) AesDecryptFailed"

definition get_bks1_from_bmk :: "part_crypto \<Rightarrow> bks_table \<Rightarrow> bytes \<Rightarrow> bytes hsm_result" where
  "get_bks1_from_bmk K bks bmk =
     and_then (cr_masked_key_svn K bmk) (\<lambda>svn. ok_or (get_bks1 bks svn) MaskingBkBootFailed)"

definition generate_bk_session :: "part_crypto \<Rightarrow> bks_table \<Rightarrow> bytes \<Rightarrow> bytes \<Rightarrow> partition \<Rightarrow> bytes hsm_result" where
  "generate_bk_session K bks bks1 session_seed p =
     and_then (ok_or (get_bk3_session p) PartitionNotProvisioned) (\<lambda>bk3_session.
       if length session_seed \<noteq> 48 then Err InvalidArgument
       else cr_bk_session_gen K session_seed bks1 (get_bks2 bks) bk3_session)"

definition import_smk_from_bmk :: "part_crypto \<Rightarrow> bks_table \<Rightarrow> bytes \<Rightarrow> bytes \<Rightarrow> partition \<Rightarrow> bytes hsm_result" where
  "import_smk_from_bmk K bks session_seed bmk p =
     and_then (get_bks1_from_bmk K bks bmk) (\<lambda>bks1.
     and_then (ok_or (get_bk3_session p) PartitionNotProvisioned) (\<lambda>bk3_session.
       if length session_seed \<noteq> 48 then Err InvalidArgument
       else and_then (cr_bk_session_gen K session_seed bks1 (get_bks2 bks) bk3_session) (\<lambda>bk_session.
         cr_unmask K bk_session bmk)))"

section \<open>Credential and its encryption keys\<close>

text \<open>\<open>busy\<close> says which keys an engine is using (\<^verbatim>\<open>key_in_use\<close>).\<close>

definition delete_internal_key :: "(u16 \<Rightarrow> bool) \<Rightarrow> u16 \<Rightarrow> partition \<Rightarrow> unit hsm_result \<times> partition" where
  "delete_internal_key busy key_id =
     on_vault (delete_key APP_VAULT_ID_FOR_INTERNAL_KEYS KEY_TAG_UNASSIGNED key_id busy)"

definition pt_authorize :: "u64 \<Rightarrow> u64 \<Rightarrow> bytes \<Rightarrow> bytes \<Rightarrow> partition \<Rightarrow> unit hsm_result \<times> partition" where
  "pt_authorize now now' i pin p =
     (case authorize_user_with_pin_policy now now' i pin (pt_cred_mgr p) (pst_pin_policy (pt_store p)) of
        (r, policy) \<Rightarrow> (r, p\<lparr>pt_store := (pt_store p)\<lparr>pst_pin_policy := policy\<rparr>\<rparr>))"

definition set_user_credential :: "bytes \<Rightarrow> bytes \<Rightarrow> partition \<Rightarrow> unit hsm_result \<times> partition" where
  "set_user_credential i pin p =
     (case change_user_cred i pin (pt_cred_mgr p) of (r, m) \<Rightarrow> (r, p\<lparr>pt_cred_mgr := m\<rparr>))"

definition clear_credentials :: "partition \<Rightarrow> unit hsm_result \<times> partition" where
  "clear_credentials p = (Ok (), p\<lparr>pt_cred_mgr := clear_cred (pt_cred_mgr p)\<rparr>)"

definition clear_provisioning_state :: "partition \<Rightarrow> unit hsm_result \<times> partition" where
  "clear_provisioning_state p = (Ok (), p\<lparr>pt_masking_key := None\<rparr>)"

text \<open>The public half of a stored key pair.\<close>

definition public_half :: "key_store \<Rightarrow> u16 \<Rightarrow> bytes hsm_result" where
  "public_half s key_id = and_then (vk_blob s key_id) (slice_get 0 96)"

text \<open>
  \<open>pka\<close> is the key pair the engine generated. The result is the public key, the nonce and the
  number of the key if it was stored by this call.
\<close>

definition end_get_establish_cred_encryption_key ::
  "(bytes \<times> bytes) hsm_result \<Rightarrow> partition \<Rightarrow> (bytes \<times> bytes \<times> u16 option) hsm_result \<times> partition" where
  "end_get_establish_cred_encryption_key pka p =
     try_in pka p (\<lambda>(pub_key, priv_key).
     try_in (verify_cred_is_not_set p) p (\<lambda>_.
       case pt_establish_cred_encryption_key_id p of
         Some key_id \<Rightarrow>
           try_in (and_then (open_establish_cred_encryption_key (vault p) APP_VAULT_ID_FOR_INTERNAL_KEYS key_id)
                     (public_half (vault p))) p (\<lambda>pub_key.
             (Ok (pub_key, pst_nonce (pt_store p), None), p))
       | None \<Rightarrow>
           try_in (establish_cred_key_new (take 96 pub_key @ take 48 priv_key)) p (\<lambda>key.
             then_op (on_vault (import_establish_cred_encryption_key APP_VAULT_ID_FOR_INTERNAL_KEYS key)) (\<lambda>key_id p.
               (Ok (pub_key, pst_nonce (pt_store p), Some key_id),
                p\<lparr>pt_establish_cred_encryption_key_id := Some key_id\<rparr>)) p)))"

definition end_get_session_encryption_key ::
  "(bytes \<times> bytes) hsm_result \<Rightarrow> partition \<Rightarrow> (bytes \<times> bytes \<times> u16 option) hsm_result \<times> partition" where
  "end_get_session_encryption_key pka p =
     try_in pka p (\<lambda>(pub_key, priv_key).
       case pt_session_encryption_key_id p of
         Some key_id \<Rightarrow>
           try_in (and_then (open_session_encryption_key (vault p) APP_VAULT_ID_FOR_INTERNAL_KEYS key_id)
                     (public_half (vault p))) p (\<lambda>pub_key.
             (Ok (pub_key, pst_nonce (pt_store p), None), p))
       | None \<Rightarrow>
           try_in (session_encryption_key_new (take 96 pub_key @ take 48 priv_key)) p (\<lambda>key.
             then_op (on_vault (import_session_encryption_key APP_VAULT_ID_FOR_INTERNAL_KEYS key)) (\<lambda>key_id p.
               (Ok (pub_key, pst_nonce (pt_store p), Some key_id),
                p\<lparr>pt_session_encryption_key_id := Some key_id\<rparr>)) p))"

text \<open>The result of deleting the encryption key is logged and ignored.\<close>

definition end_establish_credential ::
  "part_crypto \<Rightarrow> bytes hsm_result \<Rightarrow> bytes \<Rightarrow> (u16 \<Rightarrow> bool) \<Rightarrow> establish_cred \<Rightarrow> partition \<Rightarrow>
     unit hsm_result \<times> partition" where
  "end_establish_credential K secret_val rng busy c p =
     try_in secret_val p (\<lambda>secret.
     try_in (cr_hkdf K secret (pst_nonce (pt_store p))) p (\<lambda>aes_hmac_key.
     try_in (verify_nonce (ec_nonce c) p) p (\<lambda>_.
     try_in (verify_cred_is_not_set p) p (\<lambda>_.
     try_in (verify_encrypted_establish_credential_tag K (slice 32 48 aes_hmac_key) c p) p (\<lambda>_.
     let p = reset_nonce rng p; aes_key = take 32 aes_hmac_key in
     try_in (decrypt_credential K aes_key (ec_id c) (ec_iv c)) p (\<lambda>(decrypted_id, iv).
     try_in (decrypt_credential K aes_key (ec_pin c) iv) p (\<lambda>(decrypted_pin, iv).
     then_op (set_user_credential decrypted_id decrypted_pin) (\<lambda>_ p.
       case pt_establish_cred_encryption_key_id p of
         Some key_id \<Rightarrow>
           (Ok (), snd (delete_internal_key busy key_id (p\<lparr>pt_establish_cred_encryption_key_id := None\<rparr>)))
       | None \<Rightarrow> (Ok (), p)) p)))))))"

definition generate_new_mk_and_import :: "part_crypto \<Rightarrow> partition \<Rightarrow> unit hsm_result \<times> partition" where
  "generate_new_mk_and_import K p =
     try_in (cr_generate_mk K) p (\<lambda>masking_key.
     try_in (masking_key_new masking_key) p (\<lambda>key_imported.
     then_op (on_vault (import_masking_key APP_VAULT_ID_FOR_INTERNAL_KEYS key_imported)) (\<lambda>key_id p.
       (Ok (), p\<lparr>pt_masking_key := Some key_id\<rparr>)) p))"

section \<open>Unwrapping key\<close>

definition import_unwrapping_key :: "bytes \<Rightarrow> partition \<Rightarrow> u16 hsm_result \<times> partition" where
  "import_unwrapping_key key_blob p =
     try_in (rsa_key_imported_new Rk_Rsa2kPrivate Rku_Unwrap key_blob) p (\<lambda>key.
       on_vault (rsa_import_key APP_VAULT_ID_FOR_INTERNAL_KEYS (- 1) None True key Avail_App) p)"

definition clear_unwrapping_key :: "(u16 \<Rightarrow> bool) \<Rightarrow> partition \<Rightarrow> unit hsm_result \<times> partition" where
  "clear_unwrapping_key busy p =
     then_op (case pt_unwrapping_key_id p of
         Some key_id \<Rightarrow> on_vault (delete_key APP_VAULT_ID_FOR_INTERNAL_KEYS (- 1) key_id busy)
       | None \<Rightarrow> Pair (Ok ()))
     (\<lambda>_ p. (Ok (), p\<lparr>pt_store := (pt_store p)\<lparr>pst_unwrapping_key_bk := replicate 516 0,
        pst_unwrapping_key_bk_valid := 0\<rparr>, pt_unwrapping_key_id := None\<rparr>)) p"

section \<open>Sessions\<close>

definition rev_buf :: "api_rev \<Rightarrow> bytes" where
  "rev_buf version = le_bytes 4 (rev_major version) @ le_bytes 4 (rev_minor version)"

text \<open>
  The end of opening a session in two parts: the credential is authenticated, which gives the seed
  of the session, and the session is installed.
\<close>

definition authenticate_session ::
  "part_crypto \<Rightarrow> bytes hsm_result \<Rightarrow> bytes \<Rightarrow> u64 \<Rightarrow> u64 \<Rightarrow> session_cred \<Rightarrow> partition \<Rightarrow> bytes hsm_result \<times> partition" where
  "authenticate_session K secret_val rng now now' c p =
     try_in secret_val p (\<lambda>secret.
     try_in (cr_hkdf K secret (pst_nonce (pt_store p))) p (\<lambda>aes_hmac_key.
     try_in (verify_nonce (ec_nonce c) p) p (\<lambda>_.
     try_in (verify_encrypted_session_credential_tag K (slice 32 48 aes_hmac_key) c p) p (\<lambda>_.
     let p = reset_nonce rng p; aes_key = take 32 aes_hmac_key in
     try_in (decrypt_credential K aes_key (ec_id c) (ec_iv c)) p (\<lambda>(decrypted_id, iv).
     try_in (decrypt_credential K aes_key (ec_pin c) iv) p (\<lambda>(decrypted_pin, iv).
     try_in (decrypt_credential K aes_key (ec_seed c) iv) p (\<lambda>(decrypted_seed, iv).
     then_op (pt_authorize now now' decrypted_id decrypted_pin) (\<lambda>_ p. (Ok decrypted_seed, p)) p)))))))"

definition install_session ::
  "bit_trait \<Rightarrow> part_crypto \<Rightarrow> bks_table \<Rightarrow> api_rev \<Rightarrow> u16 option \<Rightarrow> bytes option \<Rightarrow> bytes \<Rightarrow> partition \<Rightarrow>
     (api_rev \<times> u16) hsm_result \<times> partition" where
  "install_session B K bks version reopen_sess_id bmk_session decrypted_seed p =
     try_in (generate_bk_session K bks (get_bks1_current bks) decrypted_seed p) p (\<lambda>_.
     try_in (if reopen_sess_id \<noteq> None
             then and_then (ok_or bmk_session InvalidState) (\<lambda>bmk. import_smk_from_bmk K bks decrypted_seed bmk p)
             else cr_generate_mk K) p (\<lambda>mk_session.
     try_in (session_key_new (rev_buf version) mk_session) p (\<lambda>key_to_import.
     if reopen_sess_id = None \<and> get_available_session_count (sessions p) = 0 then (Err SessionLimitReached, p)
     else then_op (on_vault (import_session_key (get_user_vault_id (pt_cred_mgr p)) key_to_import)) (\<lambda>key_id.
       case reopen_sess_id of
         Some sess_id \<Rightarrow> then_op (on_sessions (recreate_session B sess_id key_id)) (\<lambda>_ p. (Ok (version, sess_id), p))
       | None \<Rightarrow> then_op (on_sessions (create_session B key_id)) (\<lambda>sess_id p. (Ok (version, sess_id), p))) p)))"

definition end_open_user_session ::
  "bit_trait \<Rightarrow> part_crypto \<Rightarrow> bks_table \<Rightarrow> bytes hsm_result \<Rightarrow> bytes \<Rightarrow> u64 \<Rightarrow> u64 \<Rightarrow> api_rev \<Rightarrow> session_cred \<Rightarrow>
     u16 option \<Rightarrow> bytes option \<Rightarrow> partition \<Rightarrow> (api_rev \<times> u16) hsm_result \<times> partition" where
  "end_open_user_session B K bks secret_val rng now now' version c reopen_sess_id bmk_session =
     then_op (authenticate_session K secret_val rng now now' c)
       (install_session B K bks version reopen_sess_id bmk_session)"

definition user_session :: "bit_trait \<Rightarrow> u16 \<Rightarrow> bool \<Rightarrow> partition \<Rightarrow> (api_rev \<times> u16) hsm_result" where
  "user_session B i allow_disabled p =
     and_then (get_target_session B (sessions p) i) (\<lambda>key_id.
     and_then (open_session_key (vault p) (get_user_vault_id (pt_cred_mgr p)) key_id allow_disabled) (\<lambda>key.
     and_then (session_key_blob (vault p) key) (\<lambda>key_blob.
       Ok (\<lparr>rev_major = le_word (take 4 key_blob), rev_minor = le_word (drop 4 key_blob)\<rparr>, i))))"

definition pt_needs_renegotiation :: "bit_trait \<Rightarrow> u16 \<Rightarrow> partition \<Rightarrow> bool" where
  "pt_needs_renegotiation B i p = needs_renegotiation B (sessions p) i"

definition flush_session :: "bit_trait \<Rightarrow> u16 \<Rightarrow> partition \<Rightarrow> partition" where
  "flush_session B i p = set_sessions (st_delete B i (sessions p)) p"

definition physical_session_id :: "bit_trait \<Rightarrow> u16 \<Rightarrow> partition \<Rightarrow> u16" where
  "physical_session_id B i p = (case get_target_session B (sessions p) i of Ok k \<Rightarrow> k | _ \<Rightarrow> - 1)"

definition invalidate :: "bit_trait \<Rightarrow> u16 \<Rightarrow> partition \<Rightarrow> partition" where
  "invalidate B i p = snd (on_vault (ks_disable_entry (physical_session_id B i p)) p)"

definition session_valid :: "bit_trait \<Rightarrow> u16 \<Rightarrow> partition \<Rightarrow> bool" where
  "session_valid B i p \<longleftrightarrow> is_ok (st_valid B (sessions p) i) \<and>
     is_ok (open_session_key (vault p) (get_user_vault_id (pt_cred_mgr p)) (physical_session_id B i p) False)"

text \<open>Deleting the key of a session, with the \<open>?\<close> on its lookup.\<close>

definition delete_session_record :: "bit_trait \<Rightarrow> (u16 \<Rightarrow> bool) \<Rightarrow> u16 \<Rightarrow> partition \<Rightarrow> unit hsm_result \<times> partition" where
  "delete_session_record B busy i p =
     try_in (get_target_session B (sessions p) i) p (\<lambda>key_id.
       on_vault (delete_key (get_user_vault_id (pt_cred_mgr p)) KEY_TAG_UNASSIGNED key_id busy) p)"

definition rollback_open_session ::
  "bit_trait \<Rightarrow> (u16 \<Rightarrow> bool) \<Rightarrow> u16 \<Rightarrow> bool \<Rightarrow> partition \<Rightarrow> unit hsm_result \<times> partition" where
  "rollback_open_session B busy i is_reopen =
     then_op (delete_session_record B busy i) (\<lambda>_ p.
       (Ok (), if is_reopen then set_sessions (rollback_recreation B i (sessions p)) p
               else set_sessions (st_delete B i (sessions p)) p))"

text \<open>\<open>sess_busy\<close> is the test of the session's keys, which for a bulk key also frees its slot of the fast path.\<close>

definition close_user_session ::
  "bit_trait \<Rightarrow> (u16 \<Rightarrow> bool) \<Rightarrow> (u16 \<Rightarrow> bool) \<Rightarrow> u16 \<Rightarrow> partition \<Rightarrow> unit hsm_result \<times> partition" where
  "close_user_session B sess_busy busy i =
     then_op (on_vault (delete_all_session_keys i sess_busy)) (\<lambda>_.
     then_op (delete_session_record B busy i) (\<lambda>_ p. (Ok (), flush_session B i p)))"

definition begin_close_user_session ::
  "bit_trait \<Rightarrow> bool \<Rightarrow> bool \<Rightarrow> u16 \<Rightarrow> partition \<Rightarrow> u16 hsm_result \<times> partition" where
  "begin_close_user_session B acquired sent i p =
     try_in (user_session B i True p) p (\<lambda>_.
     let p = invalidate B i p in
     if \<not> acquired then (Err hsm_err.Pending, p)
     else if \<not> sent then (Err IpcSendFailure, p)
     else (Ok i, p))"

text \<open>The answer of the fast path: none, one with an unreadable header, or the status of the header.\<close>

definition end_close_user_session ::
  "bit_trait \<Rightarrow> (u16 \<Rightarrow> bool) \<Rightarrow> (u16 \<Rightarrow> bool) \<Rightarrow> u32 option option \<Rightarrow> u16 \<Rightarrow> partition \<Rightarrow> unit hsm_result \<times> partition" where
  "end_close_user_session B sess_busy busy message i p =
     (case message of
        None \<Rightarrow> (Err IpcResponseError, p)
      | Some None \<Rightarrow> (Err IpcResponseError, p)
      | Some (Some status) \<Rightarrow>
          if status = 0 \<or> status = 2 then close_user_session B sess_busy busy i p
          else (Err IpcResponseError, p))"

text \<open>Changing the PIN from inside a session.\<close>

record encrypted_pin =
  ep_pin :: bytes
  ep_iv :: bytes
  ep_nonce :: bytes
  ep_tag :: bytes

definition verify_encrypted_pin_tag :: "part_crypto \<Rightarrow> bytes \<Rightarrow> encrypted_pin \<Rightarrow> partition \<Rightarrow> unit hsm_result" where
  "verify_encrypted_pin_tag K hmac_key c p =
     and_then (copy_into 0 16 (ep_pin c) (replicate 64 0)) (\<lambda>b.
     and_then (copy_into 16 16 (ep_iv c) b) (\<lambda>b.
     and_then (copy_into 32 32 (pst_nonce (pt_store p)) b) (\<lambda>b.
     and_then (cr_hmac K hmac_key b) (\<lambda>hash.
     and_then (slice_get 0 48 hash) (\<lambda>h.
       if ep_tag c \<noteq> h then Err PinDecryptionFailed else Ok ())))))"

definition end_change_pin ::
  "part_crypto \<Rightarrow> bytes hsm_result \<Rightarrow> bytes \<Rightarrow> encrypted_pin \<Rightarrow> partition \<Rightarrow> unit hsm_result \<times> partition" where
  "end_change_pin K secret_val rng c p =
     try_in secret_val p (\<lambda>secret.
     try_in (cr_hkdf K secret (pst_nonce (pt_store p))) p (\<lambda>aes_hmac_key.
     try_in (verify_nonce (ep_nonce c) p) p (\<lambda>_.
     try_in (verify_encrypted_pin_tag K (slice 32 48 aes_hmac_key) c p) p (\<lambda>_.
     let p = reset_nonce rng p in
     try_in (decrypt_credential K (take 32 aes_hmac_key) (ep_pin c) (ep_iv c)) p (\<lambda>(decrypted_pin, iv).
       set_user_credential (cred_id (mgr_user_cred (pt_cred_mgr p))) decrypted_pin p)))))"

text \<open>Deleting a key from inside session \<open>i\<close>: the check of the command, then the deletion.\<close>

definition get_key_kind :: "u16 \<Rightarrow> u16 \<Rightarrow> partition \<Rightarrow> entry_kind hsm_result" where
  "get_key_kind i key_id p =
     (if is_ok (vault_key (vault p) APP_VAULT_ID_FOR_INTERNAL_KEYS i key_id True)
      then and_then (vault_key (vault p) APP_VAULT_ID_FOR_INTERNAL_KEYS i key_id True) (vk_kind (vault p))
      else and_then (vault_key (vault p) (get_user_vault_id (pt_cred_mgr p)) i key_id True) (vk_kind (vault p)))"

definition session_delete_key :: "(u16 \<Rightarrow> bool) \<Rightarrow> u16 \<Rightarrow> u16 \<Rightarrow> partition \<Rightarrow> unit hsm_result \<times> partition" where
  "session_delete_key busy i key_id p =
     (if is_ok (vault_key (vault p) APP_VAULT_ID_FOR_INTERNAL_KEYS i key_id True)
      then (Err CannotDeleteInternalKeys, p)
      else on_vault (delete_key (get_user_vault_id (pt_cred_mgr p)) i key_id busy) p)"

definition begin_delete_aesbulk256_key :: "bool \<Rightarrow> bool \<Rightarrow> u16 \<Rightarrow> u16 \<Rightarrow> partition \<Rightarrow> unit hsm_result \<times> partition" where
  "begin_delete_aesbulk256_key acquired sent i key_id p =
     (if \<not> acquired then (Err hsm_err.Pending, p)
      else try_in (vault_key (vault p) (get_user_vault_id (pt_cred_mgr p)) i key_id True) p (\<lambda>_.
        try_in (and_then (vk_blob (vault p) key_id) (slice_get 0 2)) p (\<lambda>_.
        try_in (vk_attributes (vault p) key_id) p (\<lambda>_.
          if \<not> sent then (Err IpcSendFailure, p)
          else on_vault (ks_disable_entry key_id) p))))"

definition delete_key_on_start :: "bool \<Rightarrow> bool \<Rightarrow> (u16 \<Rightarrow> bool) \<Rightarrow> u16 \<Rightarrow> u16 \<Rightarrow> partition \<Rightarrow> unit hsm_result \<times> partition" where
  "delete_key_on_start acquired sent busy i key_id p =
     try_in (get_key_kind i key_id p) p (\<lambda>entry_kind.
       if entry_kind = EK_Session then (Err KeyNotFound, p)
       else if is_bulk_key entry_kind
       then then_op (begin_delete_aesbulk256_key acquired sent i key_id) (\<lambda>_ p. (Err hsm_err.Pending, p)) p
       else session_delete_key busy i key_id p)"

definition get_cert_len :: "nat \<Rightarrow> u8 \<Rightarrow> partition \<Rightarrow> nat option hsm_result" where
  "get_cert_len alias_cert_len cert_id p =
     (case pt_cert_chain_len_info p of None \<Rightarrow> Ok None
      | Some info \<Rightarrow>
          let num_certs = unat (cci_num_certs info); i = unat cert_id in
          if i < num_certs - 2
          then (if i < length (cci_cert_lengths info) then Ok (Some (unat (cci_cert_lengths info ! i))) else Panic)
          else if i = num_certs - 2 then Ok (Some alias_cert_len)
          else if i = num_certs - 1 then Ok (Some (unat (pst_partition_cert_length (pt_store p))))
          else Ok None)"

end
