(* ===== verification/Partition_Inv.thy ===== *)
theory Partition_Inv
  imports Partition
begin

text \<open>
  The invariant of a partition: the components are well formed, and every active session has its
  own session record in the vault, under the application of the user. It is kept by every
  command. The rules \<open>inv_rules\<close> go through the sequencing operators, so that a command is checked
  call by call.
\<close>

section \<open>Frames\<close>

abbreviation view :: "partition \<Rightarrow> u16 \<Rightarrow> stored_key option" where
  "view p \<equiv> store_view (vault p)"

abbreviation session_slots :: "partition \<Rightarrow> slot list" where
  "session_slots p \<equiv> slots (sessions p)"

abbreviation user_app :: "partition \<Rightarrow> u8" where
  "user_app p \<equiv> get_user_vault_id (pt_cred_mgr p)"

lemma vault_fields [simp]: "ks_mask (vault p) = pt_rgs p" "ks_tables (vault p) = pt_tables p"
  by (simp_all add: vault_def)

lemma vault_frame [simp]:
  "vault (p\<lparr>pt_enabled := a\<rparr>) = vault p" "vault (p\<lparr>pt_cred_mgr := m\<rparr>) = vault p"
  "vault (p\<lparr>pt_unwrapping_key_id := k\<rparr>) = vault p"
  "vault (p\<lparr>pt_establish_cred_encryption_key_id := k\<rparr>) = vault p"
  "vault (p\<lparr>pt_session_encryption_key_id := k\<rparr>) = vault p"
  "vault (p\<lparr>pt_cert_chain_len_info := i\<rparr>) = vault p" "vault (p\<lparr>pt_masking_key := k\<rparr>) = vault p"
  "vault (p\<lparr>pt_store := s\<rparr>) = vault p"
  by (simp_all add: vault_def)

lemma set_tables_id [simp]: "p\<lparr>pt_tables := pt_tables p\<rparr> = p"
  by simp

text \<open>A call to the vault changes the tables and nothing else of the partition.\<close>

lemma on_vault_eq:
  assumes "f (vault p) = (r, s)" and "ks_mask s = pt_rgs p"
  shows "on_vault f p = (r, p\<lparr>pt_tables := ks_tables s\<rparr>)" "vault (p\<lparr>pt_tables := ks_tables s\<rparr>) = s"
  using assms by (simp_all add: on_vault_def vault_def)

lemma fst_on_vault [simp]: "fst (on_vault f p) = fst (f (vault p))"
  by (simp add: on_vault_def split_beta)

lemma on_vault_frame [simp]:
  "pt_store (snd (on_vault f p)) = pt_store p" "pt_cred_mgr (snd (on_vault f p)) = pt_cred_mgr p"
  "pt_enabled (snd (on_vault f p)) = pt_enabled p" "pt_masking_key (snd (on_vault f p)) = pt_masking_key p"
  "pt_rgs (snd (on_vault f p)) = pt_rgs p"
  by (simp_all add: on_vault_def split_beta)

lemma vault_on_vault: "ks_mask (snd (f (vault p))) = pt_rgs p \<Longrightarrow> vault (snd (on_vault f p)) = snd (f (vault p))"
  by (simp add: on_vault_def split_beta vault_def)

section \<open>The invariant\<close>

definition session_record :: "u8 \<Rightarrow> stored_key \<Rightarrow> bool" where
  "session_record app k \<longleftrightarrow> sk_kind k = EK_Session \<and> sk_app_id k = app \<and> sk_session_id k = None"

definition has_record :: "u8 \<Rightarrow> u16 kmap \<Rightarrow> u16 \<Rightarrow> bool" where
  "has_record app m n \<longleftrightarrow> (\<exists>k. m n = Some k \<and> session_record app k)"

definition slot_is :: "slot list \<Rightarrow> nat \<Rightarrow> u16 \<Rightarrow> bool" where
  "slot_is ss i n \<longleftrightarrow> i < length ss \<and> ss ! i = Active n"

lemma slot_is_update:
  "slot_is (ss[i := s]) j n \<longleftrightarrow> (if j = i then i < length ss \<and> s = Active n else slot_is ss j n)"
  by (auto simp: slot_is_def nth_list_update)

text \<open>Which session records stand behind the slots.\<close>

definition slots_backed :: "u8 \<Rightarrow> u16 kmap \<Rightarrow> slot list \<Rightarrow> bool" where
  "slots_backed app m ss \<longleftrightarrow>
     (\<forall>i n. slot_is ss i n \<longrightarrow> has_record app m n) \<and>
     (\<forall>i j n. slot_is ss i n \<longrightarrow> slot_is ss j n \<longrightarrow> i = j)"

definition part_inv :: "partition \<Rightarrow> bool" where
  "part_inv p \<longleftrightarrow> store_wf (vault p) \<and> session_table_wf (sessions p) \<and> credential_mgr_wf (pt_cred_mgr p) \<and>
     user_app p = cred_vault_id user_credential_default \<and> slots_backed (user_app p) (view p) (session_slots p)"

lemma part_invD:
  assumes "part_inv p"
  shows "store_wf (vault p)" "session_table_wf (sessions p)" "credential_mgr_wf (pt_cred_mgr p)"
    "user_app p \<noteq> APP_VAULT_ID_FOR_INTERNAL_KEYS" "slots_backed (user_app p) (view p) (session_slots p)"
    "user_app p = cred_vault_id user_credential_default"
  using assms by (auto simp: part_inv_def user_credential_default_def APP_VAULT_ID_FOR_INTERNAL_KEYS_def)

lemma slot_record:
  "part_inv p \<Longrightarrow> slot_is (session_slots p) i n \<Longrightarrow> \<exists>k. view p n = Some k \<and> session_record (user_app p) k"
  unfolding part_inv_def slots_backed_def has_record_def by blast

lemma backed_mono:
  assumes "slots_backed app m ss" and "\<And>n. has_record app m n \<Longrightarrow> has_record app m' n"
  shows "slots_backed app m' ss"
  using assms unfolding slots_backed_def by blast

lemma backed_none: "(\<And>i n. \<not> slot_is ss i n) \<Longrightarrow> slots_backed app m ss"
  by (simp add: slots_backed_def)

text \<open>Emptying a slot frees the record of that slot only.\<close>

lemma backed_clear:
  assumes b: "slots_backed app m ss" and i: "slot_is ss i n"
    and m': "\<And>k. k \<noteq> n \<Longrightarrow> m' k = m k" and s: "\<And>k. s \<noteq> Active k"
  shows "slots_backed app m' (ss[i := s])"
proof -
  have "has_record app m' k" if "slot_is ss j k" "j \<noteq> i" for j k
  proof -
    have "k \<noteq> n" using b i that by (auto simp: slots_backed_def)
    then show ?thesis using b that m' by (auto simp: slots_backed_def has_record_def)
  qed
  then show ?thesis
    using b s by (simp add: slots_backed_def slot_is_update)
qed

lemma backed_put:
  assumes b: "slots_backed app m ss" and s: "\<And>k. s \<noteq> Active k"
  shows "slots_backed app m (ss[i := s])"
  using b s by (simp add: slots_backed_def slot_is_update)

text \<open>A new session on a key number that was free.\<close>

lemma backed_new:
  assumes b: "slots_backed app m ss" and free: "m n = None" and k: "session_record app k" and i: "i < length ss"
  shows "slots_backed app (m(n \<mapsto> k)) (ss[i := Active n])"
proof -
  have no: "\<not> slot_is ss j n" for j
    using b free unfolding slots_backed_def has_record_def by fastforce
  have rec: "has_record app (m(n \<mapsto> k)) l" if "l = n \<or> has_record app m l" for l
    using that k by (auto simp: has_record_def)
  show ?thesis
    using b i no rec by (simp add: slots_backed_def slot_is_update) blast
qed

section \<open>Calls to the vault\<close>

definition safe_at :: "u8 \<Rightarrow> 'a store_op \<Rightarrow> key_store \<Rightarrow> bool" where
  "safe_at app f s \<longleftrightarrow> store_wf (snd (f s)) \<and> ks_mask (snd (f s)) = ks_mask s \<and>
     (\<forall>n. has_record app (store_view s) n \<longrightarrow> has_record app (store_view (snd (f s))) n)"

lemma safe_at_id: "store_wf s \<Longrightarrow> snd (f s) = s \<Longrightarrow> safe_at app f s"
  by (simp add: safe_at_def)

lemma safe_add:
  assumes "store_wf s" and "attributes_wf a"
  shows "safe_at app (ks_add_entry a tag kind app' b) s"
  using add_result [OF assms, of tag kind app' b] ks_add_view [OF assms]
  by (auto simp: safe_at_def same_outside_def has_record_def)

lemma session_record_disabled [simp]: "session_record app (sk_set_disabled x k) = session_record app k"
  by (simp add: session_record_def sk_session_id_def)

lemma safe_disable:
  assumes wf: "store_wf s"
  shows "safe_at app (ks_disable_entry n) s"
  using follows_good [OF ks_disable_entry_follows wf] follows_view [OF ks_disable_entry_follows wf]
    store_exec_wf [OF wf, of "SC_Disable n"]
  by (auto simp: safe_at_def same_outside_def has_record_def spec_set_disabled_def split: option.splits)

lemma delete_all_session_keys_snd:
  "snd (delete_all_session_keys i cb s) = store_exec (SC_RemoveSession cb i) s"
  by (simp add: delete_all_session_keys_def split_beta)

lemma safe_session_keys:
  assumes wf: "store_wf s"
  shows "safe_at app (delete_all_session_keys i cb) s"
proof -
  have "store_view (store_exec (SC_RemoveSession cb i) s) n = Some k"
    if "store_view s n = Some k" "session_record app k" for n k
    using store_exec_spares [OF wf _ that(1), of "SC_RemoveSession cb i"] that(2)
    by (simp add: session_record_def)
  then show ?thesis
    using store_exec_wf [OF wf, of "SC_RemoveSession cb i"]
    by (auto simp: safe_at_def delete_all_session_keys_snd has_record_def same_outside_def)
qed

text \<open>Deleting a key that is not a session record of the user.\<close>

lemma delete_key_view:
  assumes wf: "store_wf s"
  shows "store_wf (snd (delete_key app session n busy s))"
    "ks_mask (snd (delete_key app session n busy s)) = ks_mask s"
    "m \<noteq> n \<Longrightarrow> store_view (snd (delete_key app session n busy s)) m = store_view s m"
    "\<not> is_ok (open_spec (\<lambda>_. True) [] True app session n (store_view s)) \<Longrightarrow> snd (delete_key app session n busy s) = s"
  using follows_good [OF ks_remove_entry_follows wf, of busy n] follows_view [OF ks_remove_entry_follows wf, of busy n]
    store_exec_wf [OF wf, of "SC_Remove busy n"] wf
  by (auto simp: delete_key_cases [OF wf] same_outside_def spec_remove_def is_ok_iff split: outcome.splits option.splits if_splits)

lemma safe_delete:
  assumes wf: "store_wf s" and no: "\<not> has_record app (store_view s) n"
  shows "safe_at app (delete_key app' session n busy) s"
  using delete_key_view [OF wf, where app = app' and session = session and busy = busy] no
  unfolding safe_at_def has_record_def by metis

lemma safe_delete_other:
  assumes wf: "store_wf s" and app: "app' \<noteq> app"
  shows "safe_at app (delete_key app' session n busy) s"
proof (cases "has_record app (store_view s) n")
  case True
  then have "\<not> is_ok (open_spec (\<lambda>_. True) [] True app' session n (store_view s))"
    using app by (auto simp: has_record_def session_record_def open_spec_def)
  then show ?thesis using delete_key_view(4) [OF wf] safe_at_id [OF wf] by metis
qed (rule safe_delete [OF wf])

lemma on_vault_inv:
  assumes inv: "part_inv p" and safe: "safe_at (user_app p) f (vault p)"
  shows "part_inv (snd (on_vault f p))"
proof -
  have v: "vault (snd (on_vault f p)) = snd (f (vault p))"
    using safe by (intro vault_on_vault) (simp add: safe_at_def)
  show ?thesis
    using inv safe backed_mono by (auto simp: part_inv_def v safe_at_def)
qed

section \<open>Sequencing\<close>

lemma keeps_try_in:
  "I s \<Longrightarrow> (\<And>x. r = Ok x \<Longrightarrow> I (snd (k x))) \<Longrightarrow> I (snd (try_in r s k))"
  by (cases r) auto

lemma keeps_then_op:
  assumes "I (snd (m s))" and "\<And>x s'. m s = (Ok x, s') \<Longrightarrow> I s' \<Longrightarrow> I (snd (k x s'))"
  shows "I (snd (then_op m k s))"
  using assms by (cases "m s"; cases "fst (m s)") (auto simp: then_op_def)

lemmas inv_rules = keeps_try_in [where I = part_inv] keeps_then_op [where I = part_inv]

section \<open>Commands that keep the invariant\<close>

lemma part_inv_cong:
  "vault p' = vault p \<Longrightarrow> sessions p' = sessions p \<Longrightarrow> pt_cred_mgr p' = pt_cred_mgr p \<Longrightarrow> part_inv p' = part_inv p"
  by (simp add: part_inv_def)

lemma part_inv_frame [simp]:
  "part_inv (p\<lparr>pt_enabled := a\<rparr>) = part_inv p" "part_inv (p\<lparr>pt_unwrapping_key_id := k\<rparr>) = part_inv p"
  "part_inv (p\<lparr>pt_establish_cred_encryption_key_id := k\<rparr>) = part_inv p"
  "part_inv (p\<lparr>pt_session_encryption_key_id := k\<rparr>) = part_inv p"
  "part_inv (p\<lparr>pt_masking_key := k\<rparr>) = part_inv p"
  "part_inv (reset_nonce rng p) = part_inv p"
  by (rule part_inv_cong; simp add: reset_nonce_def)+

lemma part_inv_store: "pst_session_table s = sessions p \<Longrightarrow> part_inv (p\<lparr>pt_store := s\<rparr>) = part_inv p"
  by (rule part_inv_cong) simp_all

text \<open>The life cycle: no session is left active when the vault is cleared.\<close>

lemma restore_inactive: "\<not> slot_is (slots (st_restore m t)) i n"
  by (auto simp: slot_is_def restore_refines spec_restore_def)

lemma vault_clear_facts:
  assumes "store_wf (vault p)"
  shows "store_wf (vault (vault_clear p))" "view (vault_clear p) = Map.empty"
    "vault (vault_clear p) = ks_nuke (vault p)"
proof -
  have "vault (vault_clear p) = ks_nuke (vault p)"
    using ks_nuke_wf(2) [OF assms] by (simp add: vault_clear_def vault_def same_outside_def)
  then show "store_wf (vault (vault_clear p))" "view (vault_clear p) = Map.empty"
    "vault (vault_clear p) = ks_nuke (vault p)"
    using ks_nuke_wf [OF assms] by simp_all
qed

lemma vault_clear_frame [simp]:
  "pt_store (vault_clear p) = pt_store p" "pt_cred_mgr (vault_clear p) = pt_cred_mgr p"
  "pt_enabled (vault_clear p) = pt_enabled p" "pt_masking_key (vault_clear p) = pt_masking_key p"
  "pt_rgs (vault_clear p) = pt_rgs p"
  by (simp_all add: vault_clear_def)

lemma part_inv_cleared:
  assumes "store_wf (vault p)" and "sessions p = st_restore m t" and "pt_cred_mgr p = clear_cred c"
  shows "part_inv p"
proof -
  have "user_app p = cred_vault_id user_credential_default"
    by (simp add: assms(3) clear_cred_def get_user_vault_id_def)
  moreover have "slots_backed (user_app p) (view p) (session_slots p)"
    by (rule backed_none) (simp add: assms(2) restore_inactive)
  ultimately show ?thesis
    using assms by (simp add: part_inv_def restore_refines clear_cred_wf)
qed

lemma ps_disable_facts:
  assumes "store_wf (vault p)"
  shows "store_wf (vault (ps_disable rng p))" "view (ps_disable rng p) = Map.empty"
    "sessions (ps_disable rng p) = st_restore (st_backup (sessions p)) (sessions p)"
    "pt_cred_mgr (ps_disable rng p) = clear_cred (pt_cred_mgr p)"
    "\<not> pt_enabled (ps_disable rng p)" "pt_masking_key (ps_disable rng p) = None"
    "pst_nonce (pt_store (ps_disable rng p)) = rng" "pst_pin_policy (pt_store (ps_disable rng p)) = pin_policy_default"
    "pt_rgs (ps_disable rng p) = pt_rgs p"
  using assms by (simp_all add: ps_disable_def Let_def reset_nonce_def vault_clear_facts ks_nuke_wf)

lemma migrate_facts:
  assumes "store_wf (vault p)"
  shows "store_wf (vault (migrate rng p))" "view (migrate rng p) = Map.empty"
    "sessions (migrate rng p) = st_restore (st_backup (sessions p)) (sessions p)"
    "pt_cred_mgr (migrate rng p) = clear_cred (pt_cred_mgr p)"
    "pt_enabled (migrate rng p) = pt_enabled p" "pt_masking_key (migrate rng p) = None"
    "\<not> pst_bk3_session_key_valid (pt_store (migrate rng p))"
  using assms by (simp_all add: migrate_def Let_def reset_nonce_def vault_clear_facts ks_nuke_wf)

lemma no_tables_wf: "length (ks_tables s) = 65 \<Longrightarrow> ks_mask s = 0 \<Longrightarrow> store_wf s \<and> store_view s = Map.empty"
  by (auto simp: store_wf_def store_view_def is_valid_table_def layout_values)

lemma pt_reset_facts:
  assumes "store_wf (vault p)"
  shows "store_wf (vault (pt_reset rng p))" "view (pt_reset rng p) = Map.empty"
    "sessions (pt_reset rng p) = st_restore 0 (sessions (ps_disable rng p))"
    "pt_cred_mgr (pt_reset rng p) = clear_cred (pt_cred_mgr p)"
    "\<not> pt_enabled (pt_reset rng p)" "pt_masking_key (pt_reset rng p) = None" "pt_rgs (pt_reset rng p) = 0"
proof -
  have "length (pt_tables (ps_disable rng p)) = 65"
    using store_wf_length [OF ps_disable_facts(1) [OF assms]] by simp
  then have "store_wf (vault (pt_reset rng p)) \<and> view (pt_reset rng p) = Map.empty"
    by (intro no_tables_wf) (simp_all add: pt_reset_def clear_partition_info_def Let_def)
  then show "store_wf (vault (pt_reset rng p))" "view (pt_reset rng p) = Map.empty" by simp_all
qed (use ps_disable_facts [OF assms] in \<open>simp_all add: pt_reset_def clear_partition_info_def Let_def\<close>)

lemma life_cycle_inv:
  assumes "store_wf (vault p)"
  shows "part_inv (ps_disable rng p)" "part_inv (migrate rng p)" "part_inv (pt_reset rng p)"
  using ps_disable_facts [OF assms] migrate_facts [OF assms] pt_reset_facts [OF assms]
  by (auto intro: part_inv_cleared)

lemma set_user_credential_inv:
  assumes "part_inv p"
  shows "part_inv (snd (set_user_credential i pin p))"
proof -
  let ?m = "snd (change_user_cred i pin (pt_cred_mgr p))"
  have m: "credential_mgr_wf ?m" "get_user_vault_id ?m = user_app p"
    using change_user_cred_wf part_invD(3) [OF assms]
    by (simp_all add: change_user_cred_def get_user_vault_id_def)
  have "snd (set_user_credential i pin p) = p\<lparr>pt_cred_mgr := ?m\<rparr>"
    by (simp add: set_user_credential_def split_beta)
  then show ?thesis using assms m by (auto simp: part_inv_def)
qed

lemma clear_credentials_inv: "part_inv p \<Longrightarrow> part_inv (snd (clear_credentials p))"
  by (auto simp: part_inv_def clear_credentials_def clear_cred_wf)
     (auto simp: clear_cred_def get_user_vault_id_def)

lemma pt_authorize_inv: "part_inv p \<Longrightarrow> part_inv (snd (pt_authorize now now' i pin p))"
  by (simp add: pt_authorize_def split_beta part_inv_store)

lemma import_inv:
  assumes "part_inv p" and "attributes_wf a"
  shows "part_inv (snd (on_vault (ks_add_entry a tag kind app b) p))"
  using on_vault_inv [OF assms(1)] safe_add part_invD(1) [OF assms(1)] assms(2) by blast

lemma internal_attributes_wf: "attributes_wf (set_flags fs (set_session False default_attributes))"
  using attributes_wf_default unfolding attr_flags_wf by (simp add: set_session_def attributes_wf_def)

lemma import_internal_inv:
  assumes "part_inv p"
  shows "part_inv (snd (on_vault (import_establish_cred_encryption_key app key) p))"
    "part_inv (snd (on_vault (import_session_encryption_key app key) p))"
    "part_inv (snd (on_vault (import_masking_key app key) p))"
    "part_inv (snd (on_vault (import_session_key app key) p))"
  using import_inv [OF assms internal_attributes_wf]
  by (simp_all add: import_establish_cred_encryption_key_def [abs_def] import_session_encryption_key_def [abs_def]
      import_masking_key_def [abs_def] import_session_key_def [abs_def])

lemma delete_internal_inv:
  assumes "part_inv p"
  shows "part_inv (snd (on_vault (delete_key APP_VAULT_ID_FOR_INTERNAL_KEYS session n busy) p))"
  using part_invD(1,4) [OF assms] by (intro on_vault_inv [OF assms] safe_delete_other) auto

lemma end_get_keys_inv:
  assumes "part_inv p"
  shows "part_inv (snd (end_get_establish_cred_encryption_key pka p))"
    "part_inv (snd (end_get_session_encryption_key pka p))"
  using assms unfolding end_get_establish_cred_encryption_key_def end_get_session_encryption_key_def
  by (auto intro!: inv_rules import_internal_inv split: option.splits prod.splits)

lemma generate_new_mk_inv: "part_inv p \<Longrightarrow> part_inv (snd (generate_new_mk_and_import K p))"
  unfolding generate_new_mk_and_import_def by (auto intro!: inv_rules import_internal_inv)

lemma end_establish_inv: "part_inv p \<Longrightarrow> part_inv (snd (end_establish_credential K secret rng busy c p))"
  unfolding end_establish_credential_def Let_def delete_internal_key_def
  by (auto intro!: inv_rules set_user_credential_inv delete_internal_inv split: option.splits prod.splits)

lemma end_change_pin_inv: "part_inv p \<Longrightarrow> part_inv (snd (end_change_pin K secret rng c p))"
  unfolding end_change_pin_def Let_def
  by (auto intro!: inv_rules set_user_credential_inv split: prod.splits)

lemma clear_unwrapping_key_inv: "part_inv p \<Longrightarrow> part_inv (snd (clear_unwrapping_key busy p))"
  unfolding clear_unwrapping_key_def
  by (auto intro!: inv_rules delete_internal_inv simp: part_inv_store split: option.splits)

lemma invalidate_inv: "part_inv p \<Longrightarrow> part_inv (invalidate B i p)"
  unfolding invalidate_def using on_vault_inv safe_disable part_invD(1) by blast

lemma begin_close_inv: "part_inv p \<Longrightarrow> part_inv (snd (begin_close_user_session B acquired sent i p))"
  unfolding begin_close_user_session_def Let_def
  by (auto intro!: inv_rules invalidate_inv)

section \<open>Sessions\<close>

lemma on_sessions_eq: "on_sessions f p = (fst (f (sessions p)), set_sessions (snd (f (sessions p))) p)"
  by (simp add: on_sessions_def split_beta)

lemma sessions_set [simp]: "sessions (set_sessions t p) = t" "vault (set_sessions t p) = vault p"
  by simp_all

text \<open>What looking up a session finds.\<close>

lemma target_Ok:
  "bit_trait_laws B \<Longrightarrow> get_target_session B t i = Ok n \<longleftrightarrow> slot_is (slots t) (unat i) n"
  by (cases "slots t ! unat i") (auto simp: get_target_refines spec_target_def slot_is_def)

lemma target_not_Panic: "bit_trait_laws B \<Longrightarrow> get_target_session B t i \<noteq> Panic"
  by (cases "slots t ! unat i") (auto simp: get_target_refines spec_target_def)

lemma session_slot_delete:
  assumes B: "bit_trait_laws B" and wf: "session_table_wf t"
  shows "session_table_wf (st_delete B i t)" "slots (st_delete B i t) = (slots t)[unat i := Free]"
    "session_table_wf (rollback_recreation B i t)" "slots (rollback_recreation B i t) = (slots t)[unat i := Pending]"
  using delete_refines [OF B wf, of i] rollback_refines [OF B wf, of i]
  by (auto simp: spec_put_def list_update_beyond)

lemma flush_session_inv:
  assumes B: "bit_trait_laws B" and "part_inv p"
  shows "part_inv (flush_session B i p)"
  using part_invD [OF assms(2)] session_slot_delete [OF B, of "sessions p" i] backed_put [where s = Free]
  by (simp add: part_inv_def flush_session_def)

text \<open>The record of a session is deleted, and only then the slot is given up.\<close>

lemma delete_session_record_cases:
  assumes B: "bit_trait_laws B" and inv: "part_inv p"
  shows "(\<exists>e. delete_session_record B busy i p = (Err e, p) \<and> (\<nexists>n. slot_is (session_slots p) (unat i) n)) \<or>
    (\<exists>n. slot_is (session_slots p) (unat i) n \<and>
       (if busy n then fst (delete_session_record B busy i p) = Err CannotDeleteKeyInUse
        else fst (delete_session_record B busy i p) = Ok ()) \<and>
       (\<exists>ts. snd (delete_session_record B busy i p) = p\<lparr>pt_tables := ts\<rparr>) \<and>
       store_wf (vault (snd (delete_session_record B busy i p))) \<and>
       view (snd (delete_session_record B busy i p)) =
         (view p)(n := if busy n then map_option (sk_set_disabled True) (view p n) else None))"
proof (cases "get_target_session B (sessions p) i")
  case (Ok n)
  let ?del = "delete_key (user_app p) KEY_TAG_UNASSIGNED n busy"
  have n: "slot_is (session_slots p) (unat i) n" using Ok by (simp add: target_Ok B)
  then obtain k where k: "view p n = Some k" "session_record (user_app p) k"
    using slot_record [OF inv] by blast
  note wf = part_invD(1) [OF inv]
  have del: "?del (vault p) = ks_remove_entry busy n (vault p)"
    using k by (simp add: delete_key_cases [OF wf] open_spec_def session_record_def)
  obtain r s' where r: "ks_remove_entry busy n (vault p) = (r, s')" by fastforce
  note f = followsD [OF ks_remove_entry_follows wf r]
  have mask: "ks_mask s' = pt_rgs p"
    using delete_key_view(2) [OF wf, of "user_app p" KEY_TAG_UNASSIGNED n busy] by (simp add: del r)
  note v = on_vault_eq [of ?del p r s', unfolded del, OF r mask]
  have eq: "delete_session_record B busy i p = (r, p\<lparr>pt_tables := ks_tables s'\<rparr>)"
    using v(1) by (simp add: delete_session_record_def Ok)
  show ?thesis
    using f k n by (intro disjI2 exI [of _ n]) (auto simp: eq v(2) spec_remove_def fun_eq_iff)
next
  case (Err e)
  then show ?thesis using target_Ok [OF B, of "sessions p" i] by (auto simp: delete_session_record_def)
qed (simp add: target_not_Panic B)

lemma session_record_gone_inv:
  assumes B: "bit_trait_laws B" and inv: "part_inv p"
    and del: "delete_session_record B busy i p = (Ok (), p')"
  shows "part_inv (set_sessions (st_delete B i (sessions p')) p')"
    "part_inv (set_sessions (rollback_recreation B i (sessions p')) p')"
proof -
  obtain n ts where n: "slot_is (session_slots p) (unat i) n" and p': "p' = p\<lparr>pt_tables := ts\<rparr>"
    "store_wf (vault p')" "view p' = (view p)(n := None)"
    using delete_session_record_cases [OF B inv, of busy i] del by (auto split: if_splits)
  have "slots_backed (user_app p) (view p') ((session_slots p)[unat i := s])" if "\<And>k. s \<noteq> Active k" for s
    using that by (intro backed_clear [OF part_invD(5) [OF inv] n]) (simp_all add: p'(3))
  then show "part_inv (set_sessions (st_delete B i (sessions p')) p')"
    "part_inv (set_sessions (rollback_recreation B i (sessions p')) p')"
    using part_invD [OF inv] session_slot_delete [OF B, of "sessions p" i] p'
    by (simp_all add: part_inv_def)
qed

lemma delete_session_record_inv:
  assumes B: "bit_trait_laws B" and inv: "part_inv p" and err: "\<not> is_ok (fst (delete_session_record B busy i p))"
  shows "part_inv (snd (delete_session_record B busy i p))"
proof -
  let ?p' = "snd (delete_session_record B busy i p)"
  consider "?p' = p" | n ts where "?p' = p\<lparr>pt_tables := ts\<rparr>" "store_wf (vault ?p')"
    "view ?p' = (view p)(n := map_option (sk_set_disabled True) (view p n))"
    using delete_session_record_cases [OF B inv, of busy i] err by (auto split: if_splits)
  then show ?thesis
  proof cases
    case 2
    then have "slots_backed (user_app p) (view ?p') (session_slots p)"
      by (intro backed_mono [OF part_invD(5) [OF inv]]) (auto simp: has_record_def)
    then show ?thesis using 2 part_invD [OF inv] by (simp add: part_inv_def)
  qed (simp add: inv)
qed

lemma then_op_cases:
  assumes "\<not> is_ok (fst (m s)) \<Longrightarrow> I (snd (m s))" and "\<And>x s'. m s = (Ok x, s') \<Longrightarrow> I (snd (k x s'))"
  shows "I (snd (then_op m k s))"
  using assms by (cases "m s"; cases "fst (m s)") (auto simp: then_op_def)

lemma rollback_open_session_inv:
  assumes "bit_trait_laws B" and "part_inv p"
  shows "part_inv (snd (rollback_open_session B busy i is_reopen p))"
  unfolding rollback_open_session_def
  by (rule then_op_cases [where I = part_inv])
     (use delete_session_record_inv [OF assms] session_record_gone_inv [OF assms] in auto)

lemma delete_session_keys_inv: "part_inv p \<Longrightarrow> part_inv (snd (on_vault (delete_all_session_keys i cb) p))"
  using on_vault_inv safe_session_keys part_invD(1) by blast

lemma close_user_session_inv:
  assumes B: "bit_trait_laws B" and inv: "part_inv p"
  shows "part_inv (snd (close_user_session B sess_busy busy i p))"
  unfolding close_user_session_def
proof (rule inv_rules(2))
  fix x p'
  assume "part_inv p'"
  then show "part_inv (snd (then_op (delete_session_record B busy i) (\<lambda>_ p. (Ok (), flush_session B i p)) p'))"
    by (intro then_op_cases [where I = part_inv])
       (use delete_session_record_inv [OF B] session_record_gone_inv(1) [OF B] in \<open>auto simp: flush_session_def\<close>)
qed (rule delete_session_keys_inv [OF inv])

lemma end_close_inv:
  assumes "bit_trait_laws B" and "part_inv p"
  shows "part_inv (snd (end_close_user_session B sess_busy busy message i p))"
  using assms by (simp add: end_close_user_session_def close_user_session_inv split: option.splits)

text \<open>Deleting a key from a session: the check of its kind spares the session records.\<close>

lemma get_key_kind_record:
  assumes inv: "part_inv p" and rec: "has_record (user_app p) (view p) n"
  shows "get_key_kind i n p = Ok EK_Session"
proof -
  obtain k where k: "view p n = Some k" "session_record (user_app p) k" using rec by (auto simp: has_record_def)
  then show ?thesis
    using part_invD(4) [OF inv]
    by (auto simp: get_key_kind_def vault_key_view open_spec_def session_record_def vk_kind_view)
qed

lemma session_delete_key_inv:
  assumes inv: "part_inv p" and no: "\<not> has_record (user_app p) (view p) n"
  shows "part_inv (snd (session_delete_key busy i n p))"
  unfolding session_delete_key_def
  using inv on_vault_inv [OF inv safe_delete [OF part_invD(1) [OF inv] no]] by simp

lemma delete_key_on_start_inv:
  assumes inv: "part_inv p"
  shows "part_inv (snd (delete_key_on_start acquired sent busy i n p))"
proof -
  have dis: "part_inv (snd (on_vault (ks_disable_entry n) p))"
    using on_vault_inv [OF inv] safe_disable part_invD(1) [OF inv] by blast
  have "part_inv (snd (begin_delete_aesbulk256_key acquired sent i n p))"
    unfolding begin_delete_aesbulk256_key_def using inv dis by (auto intro!: inv_rules)
  then show ?thesis
    unfolding delete_key_on_start_def
    using inv get_key_kind_record [OF inv, of n i] session_delete_key_inv [OF inv, of n]
    by (intro inv_rules) (auto intro!: inv_rules)
qed

section \<open>Opening\<close>

definition new_record :: "partition \<Rightarrow> bytes \<Rightarrow> stored_key" where
  "new_record p key = new_key session_key_attributes KEY_TAG_UNASSIGNED EK_Session (user_app p) key"

lemma new_record_session [simp]: "session_record (user_app p) (new_record p key)"
  by (simp add: session_record_def new_record_def new_key_def sk_session_id_def entry_flags_of_def
      session_key_attributes_def set_session_def)

text \<open>A session record is added under a free number, or nothing happens.\<close>

lemma import_record_Ok:
  assumes inv: "part_inv p" and imp: "on_vault (import_session_key (user_app p) key) p = (Ok n, p1)"
  shows "part_inv p1" "view p n = None" "view p1 = (view p)(n \<mapsto> new_record p key)"
    "\<exists>ts. p1 = p\<lparr>pt_tables := ts\<rparr>"
proof -
  obtain s' where s': "import_session_key (user_app p) key (vault p) = (Ok n, s')"
    using imp by (auto simp: on_vault_def split: prod.splits)
  note i = import_session_key_Ok [OF part_invD(1) [OF inv] s']
  have mask: "ks_mask s' = pt_rgs p" using i(2) by (simp add: same_outside_def)
  note v = on_vault_eq [of "import_session_key (user_app p) key", OF s' mask]
  have p1: "p1 = p\<lparr>pt_tables := ks_tables s'\<rparr>" using v(1) imp by simp
  show "part_inv p1" using import_internal_inv(4) [OF inv, of "user_app p" key] imp by simp
  show "view p n = None" "view p1 = (view p)(n \<mapsto> new_record p key)"
    using i(3,5) v(2) p1 by (simp_all add: new_record_def)
  show "\<exists>ts. p1 = p\<lparr>pt_tables := ts\<rparr>" using p1 by blast
qed

lemma import_record_fails:
  assumes inv: "part_inv p" and imp: "on_vault (import_session_key (user_app p) key) p = (r, p1)" "\<not> is_ok r"
  shows "p1 = p"
proof -
  obtain s' where s': "import_session_key (user_app p) key (vault p) = (r, s')" "p1 = p\<lparr>pt_tables := ks_tables s'\<rparr>"
    using imp by (auto simp: on_vault_def split: prod.splits)
  then show ?thesis using import_session_key_not_Ok(1) [OF part_invD(1) [OF inv] s'(1) imp(2)] by simp
qed

text \<open>The two tails of opening a session, on the slots.\<close>

definition put_session :: "bit_trait \<Rightarrow> api_rev \<Rightarrow> u16 option \<Rightarrow> u16 \<Rightarrow> partition \<Rightarrow> (api_rev \<times> u16) hsm_result \<times> partition" where
  "put_session B version reopen n =
     (case reopen of
        Some i \<Rightarrow> then_op (on_sessions (recreate_session B i n)) (\<lambda>_ p. (Ok (version, i), p))
      | None \<Rightarrow> then_op (on_sessions (create_session B n)) (\<lambda>i p. (Ok (version, i), p)))"

lemma put_session_table:
  assumes B: "bit_trait_laws B" and wf: "session_table_wf (sessions p)"
  obtains r t where "put_session B version reopen n p = (map_ok (Pair version) r, set_sessions t p)"
    "session_table_wf t"
    "(r, slots t) = (case reopen of None \<Rightarrow> spec_create n (session_slots p)
       | Some i \<Rightarrow> (map_ok (\<lambda>_. i) (fst (spec_recreate i n (session_slots p))), snd (spec_recreate i n (session_slots p))))"
proof (cases reopen)
  case None
  obtain r t where c: "create_session B n (sessions p) = (r, t)" by fastforce
  then show thesis
    using that [of r t] create_refines [OF B wf, of n] None
    by (cases r) (auto simp: put_session_def then_op_def on_sessions_eq)
next
  case (Some i)
  obtain r t where c: "recreate_session B i n (sessions p) = (r, t)" by fastforce
  then show thesis
    using that [of "map_ok (\<lambda>_. i) r" t] recreate_refines [OF B wf, of i n] Some
    by (cases r) (auto simp: put_session_def then_op_def on_sessions_eq)
qed

lemma spec_create_Ok:
  assumes "spec_create n ss = (Ok i, ss')" and "length ss = MAX_SESSIONS"
  shows "unat i < MAX_SESSIONS" "ss ! unat i = Free" "ss' = ss[unat i := Active n]"
proof -
  obtain j where j: "position (\<lambda>s. s = Free) ss = Some j" "i = of_nat j" "ss' = ss[j := Active n]"
    using assms(1) by (auto simp: spec_create_def split: option.splits)
  have "j < 8" "ss ! j = Free" using position_Some [of "\<lambda>s. s = Free" ss j] j(1) assms(2) by (auto simp: MAX_SESSIONS_def)
  moreover from this have "unat (of_nat j :: u16) = j" by (simp add: unsigned_of_nat take_bit_nat_eq_self)
  ultimately show "unat i < MAX_SESSIONS" "ss ! unat i = Free" "ss' = ss[unat i := Active n]"
    using j by (auto simp: MAX_SESSIONS_def)
qed

lemma put_session_Ok:
  assumes B: "bit_trait_laws B" and wf: "session_table_wf (sessions p)"
    and ok: "put_session B version reopen n p = (Ok (v, i), p')"
  shows "v = version" "unat i < MAX_SESSIONS" "session_slots p ! unat i = (if reopen = None then Free else Pending)"
    "reopen = None \<or> reopen = Some i" "session_slots p' = (session_slots p)[unat i := Active n]"
    "\<exists>t. p' = set_sessions t p \<and> session_table_wf t"
proof -
  obtain r t where rt: "put_session B version reopen n p = (map_ok (Pair version) r, set_sessions t p)"
    "session_table_wf t"
    "(r, slots t) = (case reopen of None \<Rightarrow> spec_create n (session_slots p)
       | Some i \<Rightarrow> (map_ok (\<lambda>_. i) (fst (spec_recreate i n (session_slots p))), snd (spec_recreate i n (session_slots p))))"
    by (rule put_session_table [OF B wf])
  have r: "r = Ok i" "v = version" "p' = set_sessions t p" using rt(1) ok by (cases r; auto)+
  show "v = version" by (rule r(2))
  show "\<exists>t. p' = set_sessions t p \<and> session_table_wf t" using r(3) rt(2) by blast
  have "unat i < MAX_SESSIONS \<and> session_slots p ! unat i = (if reopen = None then Free else Pending) \<and>
      (reopen = None \<or> reopen = Some i) \<and> slots t = (session_slots p)[unat i := Active n]"
  proof (cases reopen)
    case None
    then have "spec_create n (session_slots p) = (Ok i, slots t)" using rt(3) r(1) by simp
    then show ?thesis using spec_create_Ok [of n "session_slots p" i "slots t"] None by simp
  next
    case (Some j)
    then show ?thesis using rt(3) r(1) by (auto simp: spec_recreate_def split: if_splits slot.splits)
  qed
  then show "unat i < MAX_SESSIONS" "session_slots p ! unat i = (if reopen = None then Free else Pending)"
    "reopen = None \<or> reopen = Some i" "session_slots p' = (session_slots p)[unat i := Active n]"
    using r(3) by simp_all
qed

lemma put_session_fails:
  assumes B: "bit_trait_laws B" and wf: "session_table_wf (sessions p)"
    and r: "put_session B version reopen n p = (r, p')" "\<not> is_ok r"
  shows "session_slots p' = session_slots p" "\<exists>t. p' = set_sessions t p \<and> session_table_wf t" "r \<noteq> Panic"
    "reopen = None \<Longrightarrow> Free \<notin> set (session_slots p)"
proof -
  obtain r' t where rt: "put_session B version reopen n p = (map_ok (Pair version) r', set_sessions t p)"
    "session_table_wf t"
    "(r', slots t) = (case reopen of None \<Rightarrow> spec_create n (session_slots p)
       | Some i \<Rightarrow> (map_ok (\<lambda>_. i) (fst (spec_recreate i n (session_slots p))), snd (spec_recreate i n (session_slots p))))"
    by (rule put_session_table [OF B wf])
  have r': "r = map_ok (Pair version) r'" "p' = set_sessions t p" "\<not> is_ok r'"
    using rt(1) r by (cases r'; auto)+
  show "\<exists>t. p' = set_sessions t p \<and> session_table_wf t" using r'(2) rt(2) by blast
  have "slots t = session_slots p \<and> r' \<noteq> Panic \<and> (reopen = None \<longrightarrow> Free \<notin> set (session_slots p))"
    using rt(3) r'(3)
    by (auto simp: spec_create_def spec_recreate_def position_None in_set_conv_nth
        split: option.splits if_splits slot.splits)
  then show "session_slots p' = session_slots p" "r \<noteq> Panic" "reopen = None \<Longrightarrow> Free \<notin> set (session_slots p)"
    using r' by (cases r'; simp)+
qed

lemma install_session_eq:
  "install_session B K bks version reopen bmk seed p =
     try_in (generate_bk_session K bks (get_bks1_current bks) seed p) p (\<lambda>_.
     try_in (if reopen \<noteq> None
             then and_then (ok_or bmk InvalidState) (\<lambda>bmk. import_smk_from_bmk K bks seed bmk p)
             else cr_generate_mk K) p (\<lambda>mk.
     try_in (session_key_new (rev_buf version) mk) p (\<lambda>key.
     if reopen = None \<and> Free \<notin> set (session_slots p) then (Err SessionLimitReached, p)
     else then_op (on_vault (import_session_key (user_app p) key)) (put_session B version reopen) p)))"
proof -
  have "get_available_session_count (sessions p) = 0 \<longleftrightarrow> Free \<notin> set (session_slots p)"
    by (auto simp: available_count_refines filter_empty_conv)
  then show ?thesis
    unfolding install_session_def put_session_def by (cases reopen) simp_all
qed

lemma try_in_changed: "try_in m s k = (r, s') \<Longrightarrow> s' \<noteq> s \<Longrightarrow> \<exists>x. m = Ok x \<and> k x = (r, s')"
  by (cases m) auto

lemma length_rev_buf [simp]: "length (rev_buf version) = 8"
  by (simp add: rev_buf_def)

text \<open>An installed session: one record and one slot more, and nothing else.\<close>

lemma install_Ok:
  assumes B: "bit_trait_laws B" and inv: "part_inv p"
    and ok: "install_session B K bks version reopen bmk seed p = (Ok (v, i), p')"
  obtains n mk ts t where "v = version" "length mk = 80" "view p n = None" "get_bk3_session p \<noteq> None"
    "view p' = (view p)(n \<mapsto> new_record p (rev_buf version @ mk))"
    "unat i < MAX_SESSIONS" "session_slots p ! unat i = (if reopen = None then Free else Pending)"
    "reopen = None \<or> reopen = Some i" "session_slots p' = (session_slots p)[unat i := Active n]"
    "part_inv p'" "p' = set_sessions t (p\<lparr>pt_tables := ts\<rparr>)"
proof -
  obtain mk key n p1 where key: "session_key_new (rev_buf version) mk = Ok key" "get_bk3_session p \<noteq> None"
    and imp: "on_vault (import_session_key (user_app p) key) p = (Ok n, p1)"
    and put: "put_session B version reopen n p1 = (Ok (v, i), p')"
    using ok unfolding install_session_eq
    by (auto simp: res_simps then_op_def generate_bk_session_def split: if_splits prod.splits)
  note i = import_record_Ok [OF inv imp]
  obtain ts where p1: "p1 = p\<lparr>pt_tables := ts\<rparr>" using i(4) by blast
  note q = put_session_Ok [OF B part_invD(2) [OF i(1)] put]
  obtain t where t: "p' = set_sessions t p1" "session_table_wf t" using q(6) by blast
  have "slots_backed (user_app p) (view p1) ((session_slots p)[unat i := Active n])"
    unfolding i(3) using part_invD(5) [OF inv] i(2) q(2) by (intro backed_new) simp_all
  then have "part_inv p'"
    using part_invD [OF i(1)] q(5) t by (simp add: part_inv_def p1)
  moreover have "key = rev_buf version @ mk" "length mk = 80" using key(1) by (simp_all add: session_key_new_Ok)
  ultimately show thesis
    using that [of mk n t ts] key(2) i q t(1) p1 by simp
qed

text \<open>
  A session that is not installed leaves the slots alone. Only when a session that is not waiting
  is reopened, a record stays behind.
\<close>

lemma install_fails:
  assumes B: "bit_trait_laws B" and inv: "part_inv p"
    and r: "install_session B K bks version reopen bmk seed p = (r, p')" "\<not> is_ok r"
  shows "part_inv p' \<and> session_slots p' = session_slots p \<and> pt_cred_mgr p' = pt_cred_mgr p \<and>
    (p' = p \<or> (\<exists>j n mk. reopen = Some j \<and> view p n = None \<and> view p' = (view p)(n \<mapsto> new_record p (rev_buf version @ mk))))"
proof (cases "p' = p")
  case False
  obtain mk key r1 p1 where key: "session_key_new (rev_buf version) mk = Ok key"
    "\<not> (reopen = None \<and> Free \<notin> set (session_slots p))"
    and imp: "on_vault (import_session_key (user_app p) key) p = (r1, p1)"
    and put: "try_in r1 p1 (\<lambda>n. put_session B version reopen n p1) = (r, p')"
    using r(1) False unfolding install_session_eq
    by (auto dest!: try_in_changed [OF _ False] simp: then_op_def split: if_splits prod.splits)
  have "is_ok r1" using import_record_fails [OF inv imp] put False by (cases r1) auto
  then obtain n where n: "r1 = Ok n" by (auto simp: is_ok_iff)
  note i = import_record_Ok [OF inv imp [unfolded n]]
  obtain ts where p1: "p1 = p\<lparr>pt_tables := ts\<rparr>" using i(4) by blast
  have put': "put_session B version reopen n p1 = (r, p')" using put n by simp
  note f = put_session_fails [OF B part_invD(2) [OF i(1)] put' r(2)]
  obtain t where t: "p' = set_sessions t p1" "session_table_wf t" using f(2) by blast
  have "part_inv p'" using part_invD [OF i(1)] f(1) t by (simp add: part_inv_def)
  moreover have "reopen \<noteq> None" using f(4) key(2) p1 by auto
  ultimately show ?thesis
    using f(1) i(2,3) t(1) p1 key(1) by (auto simp: session_key_new_Ok)
qed (simp add: inv)

section \<open>Authentication\<close>

abbreviation nonce :: "partition \<Rightarrow> bytes" where
  "nonce p \<equiv> pst_nonce (pt_store p)"

abbreviation policy :: "partition \<Rightarrow> pin_policy" where
  "policy p \<equiv> pst_pin_policy (pt_store p)"

text \<open>What a login has shown: the request is fresh, its tag is right, and it carries the credential.\<close>

definition authentic :: "part_crypto \<Rightarrow> bytes hsm_result \<Rightarrow> session_cred \<Rightarrow> partition \<Rightarrow> bytes \<Rightarrow> bool" where
  "authentic K secret_val c p seed \<longleftrightarrow> ec_nonce c = nonce p \<and>
     (\<exists>secret key hash i pin iv iv' iv''. secret_val = Ok secret \<and> cr_hkdf K secret (nonce p) = Ok key \<and>
        cr_hmac K (slice 32 48 key) (ec_id c @ ec_pin c @ ec_seed c @ ec_iv c @ nonce p) = Ok hash \<and>
        48 \<le> length hash \<and> ec_tag c = take 48 hash \<and>
        cr_decrypt K (take 32 key) (ec_id c) (ec_iv c) = Some (i, iv) \<and>
        cr_decrypt K (take 32 key) (ec_pin c) iv = Some (pin, iv') \<and>
        cr_decrypt K (take 32 key) (ec_seed c) iv' = Some (seed, iv'') \<and>
        authorize_user (pt_cred_mgr p) i pin)"

lemma pt_authorize_Ok:
  "pt_authorize now now' i pin p = (Ok (), p') \<longleftrightarrow> can_login now (policy p) \<and> authorize_user (pt_cred_mgr p) i pin \<and>
     p' = p\<lparr>pt_store := (pt_store p)\<lparr>pst_pin_policy :=
       if pp_state (policy p) = Lockout then reset_context (policy p) else policy p\<rparr>\<rparr>"
  by (auto simp: pt_authorize_def authorize_user_with_pin_policy_def enforce_pin_policy_def Let_def)

lemma slice_zero: "slice 0 n b = take n b"
  by (simp add: slice_def)

lemma authenticate_Ok:
  assumes "authenticate_session K secret_val rng now now' c p = (Ok seed, p')"
  shows "authentic K secret_val c p seed" "can_login now (policy p)"
    "p' = p\<lparr>pt_store := (pt_store p)\<lparr>pst_nonce := rng, pst_pin_policy :=
       if pp_state (policy p) = Lockout then reset_context (policy p) else policy p\<rparr>\<rparr>"
  using assms
  by (auto simp: authenticate_session_def Let_def res_simps then_op_def authentic_def verify_nonce_def
      verify_encrypted_session_credential_tag_def decrypt_credential_def slice_zero pt_authorize_Ok
      reset_nonce_def split: if_splits prod.splits)

text \<open>Whatever its result, authentication changes at most the nonce and the PIN policy.\<close>

lemma authenticate_state:
  "\<exists>n q. snd (authenticate_session K secret_val rng now now' c p) =
     p\<lparr>pt_store := (pt_store p)\<lparr>pst_nonce := n, pst_pin_policy := q\<rparr>\<rparr>"
proof -
  let ?I = "\<lambda>p'. \<exists>n q. p' = p\<lparr>pt_store := (pt_store p)\<lparr>pst_nonce := n, pst_pin_policy := q\<rparr>\<rparr>"
  have p: "?I p" by (intro exI [of _ "nonce p"] exI [of _ "policy p"]) simp
  have r: "?I (reset_nonce rng p)" by (intro exI [of _ rng] exI [of _ "policy p"]) (simp add: reset_nonce_def)
  have a: "?I (snd (pt_authorize now now' i pin (reset_nonce rng p)))" for i pin
    by (auto simp: pt_authorize_def reset_nonce_def split_beta)
  show ?thesis
    unfolding authenticate_session_def Let_def
    by (intro keeps_try_in [where I = ?I] p r) (auto simp: split_beta then_op_def intro!: keeps_try_in [where I = ?I] r a)
qed

lemma authenticate_inv: "part_inv p \<Longrightarrow> part_inv (snd (authenticate_session K secret_val rng now now' c p))"
  using authenticate_state [of K secret_val rng now now' c p] by (auto simp: part_inv_store)

lemma end_open_inv:
  assumes B: "bit_trait_laws B" and inv: "part_inv p"
  shows "part_inv (snd (end_open_user_session B K bks secret_val rng now now' version c reopen bmk p))"
  unfolding end_open_user_session_def
proof (rule inv_rules(2))
  show "part_inv (snd (authenticate_session K secret_val rng now now' c p))" by (rule authenticate_inv [OF inv])
  fix seed p1
  assume inv1: "part_inv p1"
  obtain r p' where r: "install_session B K bks version reopen bmk seed p1 = (r, p')" by fastforce
  show "part_inv (snd (install_session B K bks version reopen bmk seed p1))"
  proof (cases "is_ok r")
    case True
    then obtain v i where vi: "install_session B K bks version reopen bmk seed p1 = (Ok (v, i), p')"
      using r by (auto simp: is_ok_iff)
    show ?thesis by (rule install_Ok [OF B inv1 vi]) (simp add: vi)
  next
    case False
    then show ?thesis using install_fails [OF B inv1 r] r by simp
  qed
qed

end
