(* ===== verification/Partition_Props.thy ===== *)
theory Partition_Props
  imports Partition_Inv
begin

text \<open>
  What a partition guarantees over its whole life: the step relation of its commands, the states
  they reach, and the properties of sessions: who can open one, what opening and closing change,
  and what a disabled partition refuses.
\<close>

section \<open>Steps\<close>

text \<open>The events a partition takes part in, with the answer where it matters.\<close>

datatype (plugins only: code size) part_event =
    Ev_Enable
  | Ev_Disable
  | Ev_Migrate
  | Ev_Reset
  | Ev_Encryption_Key
  | Ev_Establish "unit hsm_result"
  | Ev_Clear_Credentials
  | Ev_Masking_Key
  | Ev_Unwrapping_Key
  | Ev_Open "(api_rev \<times> u16) hsm_result"
  | Ev_Rollback u16
  | Ev_Change_Pin "unit hsm_result"
  | Ev_Begin_Close u16
  | Ev_End_Close u16
  | Ev_Flush u16
  | Ev_Import
  | Ev_Delete u16

text \<open>
  One rule per command, for any request, any answer of the engines and any time. The import rule
  covers every import of a user key: each of them adds one entry to the store.
\<close>

inductive part_step :: "bit_trait \<Rightarrow> part_crypto \<Rightarrow> bks_table \<Rightarrow> partition \<Rightarrow> part_event \<Rightarrow> partition \<Rightarrow> bool"
  for B K bks where
  step_enable: "part_step B K bks p Ev_Enable (ps_enable p)"
| step_disable: "part_step B K bks p Ev_Disable (ps_disable rng p)"
| step_migrate: "part_step B K bks p Ev_Migrate (migrate rng p)"
| step_reset: "part_step B K bks p Ev_Reset (pt_reset rng p)"
| step_establish_key:
    "end_get_establish_cred_encryption_key pka p = (r, p') \<Longrightarrow> part_step B K bks p Ev_Encryption_Key p'"
| step_session_key: "end_get_session_encryption_key pka p = (r, p') \<Longrightarrow> part_step B K bks p Ev_Encryption_Key p'"
| step_establish:
    "end_establish_credential K secret rng busy c p = (r, p') \<Longrightarrow> part_step B K bks p (Ev_Establish r) p'"
| step_clear_credentials: "clear_credentials p = (r, p') \<Longrightarrow> part_step B K bks p Ev_Clear_Credentials p'"
| step_masking_key: "generate_new_mk_and_import K p = (r, p') \<Longrightarrow> part_step B K bks p Ev_Masking_Key p'"
| step_clear_provisioning: "clear_provisioning_state p = (r, p') \<Longrightarrow> part_step B K bks p Ev_Masking_Key p'"
| step_bk3_session: "generate_and_store_bk3_session bk3 gen p = (r, p') \<Longrightarrow> part_step B K bks p Ev_Masking_Key p'"
| step_unwrapping_key: "clear_unwrapping_key busy p = (r, p') \<Longrightarrow> part_step B K bks p Ev_Unwrapping_Key p'"
| step_open:
    "end_open_user_session B K bks secret rng now now' version c reopen bmk p = (r, p') \<Longrightarrow>
       part_step B K bks p (Ev_Open r) p'"
| step_rollback: "rollback_open_session B busy i is_reopen p = (r, p') \<Longrightarrow> part_step B K bks p (Ev_Rollback i) p'"
| step_change_pin: "end_change_pin K secret rng cp p = (r, p') \<Longrightarrow> part_step B K bks p (Ev_Change_Pin r) p'"
| step_begin_close:
    "begin_close_user_session B acquired sent i p = (r', p') \<Longrightarrow> part_step B K bks p (Ev_Begin_Close i) p'"
| step_end_close:
    "end_close_user_session B sess_busy busy message i p = (r, p') \<Longrightarrow> part_step B K bks p (Ev_End_Close i) p'"
| step_flush: "part_step B K bks p (Ev_Flush i) (flush_session B i p)"
| step_import:
    "attributes_wf a \<Longrightarrow> on_vault (ks_add_entry a tag kind app b) p = (n, p') \<Longrightarrow> part_step B K bks p Ev_Import p'"
| step_delete:
    "delete_key_on_start acquired sent busy i key_id p = (r, p') \<Longrightarrow> part_step B K bks p (Ev_Delete key_id) p'"

inductive part_trace ::
  "bit_trait \<Rightarrow> part_crypto \<Rightarrow> bks_table \<Rightarrow> partition \<Rightarrow> part_event list \<Rightarrow> partition \<Rightarrow> bool"
  for B K bks where
  trace_nil: "part_trace B K bks p [] p"
| trace_cons: "part_step B K bks p e q \<Longrightarrow> part_trace B K bks q es r \<Longrightarrow> part_trace B K bks p (e # es) r"

lemma snd_eqI: "f = (r, p') \<Longrightarrow> P (snd f) \<Longrightarrow> P p'"
  by simp

lemma part_step_inv:
  assumes B: "bit_trait_laws B" and step: "part_step B K bks p e q" and inv: "part_inv p"
  shows "part_inv q"
  using step inv
proof cases
  case (step_bk3_session bk3 gen r)
  then show ?thesis
    using inv by (cases "gen bk3")
      (auto simp: generate_and_store_bk3_session_def set_bk3_session_def part_inv_store split: if_splits)
qed (use inv part_invD(1) [OF inv] in \<open>auto simp: ps_enable_def clear_provisioning_state_def
      life_cycle_inv flush_session_inv [OF B]
      elim!: snd_eqI intro: end_get_keys_inv end_establish_inv clear_credentials_inv generate_new_mk_inv
        clear_unwrapping_key_inv end_open_inv [OF B] rollback_open_session_inv [OF B] end_change_pin_inv
        begin_close_inv end_close_inv [OF B] import_inv delete_key_on_start_inv\<close>)

lemma part_trace_inv:
  assumes "bit_trait_laws B" and "part_trace B K bks p es q" and "part_inv p"
  shows "part_inv q"
  using assms(2,3) by (induction rule: part_trace.induct) (auto dest: part_step_inv [OF assms(1)])

section \<open>Looking up a session\<close>

text \<open>A record is 88 bytes long, so reading the version out of it cannot fail.\<close>

lemma record_length:
  assumes "store_wf s" and "store_view s n = Some k" and "session_record app k"
  shows "length (sk_blob k) = 88"
  using store_view_length [OF assms(1,2)] assms(3)
  by (simp add: session_record_def is_var_hmac_key_def)

definition record_version :: "stored_key \<Rightarrow> api_rev" where
  "record_version k = \<lparr>rev_major = le_word (take 4 (sk_blob k)), rev_minor = le_word (take 4 (drop 4 (sk_blob k)))\<rparr>"

lemma user_session_active:
  assumes B: "bit_trait_laws B" and inv: "part_inv p" and n: "slot_is (session_slots p) (unat i) n"
    and k: "view p n = Some k"
  shows "user_session B i allow p =
    (if \<not> allow \<and> sk_disabled k then Err InvalidKeyIndex else Ok (record_version k, i))"
proof -
  have r: "session_record (user_app p) k" using slot_record [OF inv n] k by auto
  note wf = part_invD(1) [OF inv]
  have "session_key_blob (vault p) n = Ok (take 8 (sk_blob k))"
    using vk_blob_view [OF wf k] record_length [OF wf k r]
    by (simp add: session_key_blob_def slice_get_def slice_def SESSION_KEY_SIZE_def)
  moreover have "open_session_key (vault p) (user_app p) n allow =
      (if \<not> allow \<and> sk_disabled k then Err InvalidKeyIndex else Ok n)"
    using k r by (simp add: open_internal_spec open_spec_def session_record_def)
  moreover have "get_target_session B (sessions p) i = Ok n" using n by (simp add: target_Ok B)
  ultimately show ?thesis
    by (simp add: user_session_def record_version_def take_drop)
qed

lemma user_session_inactive:
  assumes B: "bit_trait_laws B" and n: "\<nexists>n. slot_is (session_slots p) (unat i) n"
  shows "\<exists>e. user_session B i allow p = Err e"
proof (cases "get_target_session B (sessions p) i")
  case (Ok n)
  then show ?thesis using n by (auto simp: target_Ok B)
qed (auto simp: user_session_def target_not_Panic B)

lemma user_session_Ok_iff:
  assumes "bit_trait_laws B" and "part_inv p"
  shows "is_ok (user_session B i True p) \<longleftrightarrow> (\<exists>n. slot_is (session_slots p) (unat i) n)"
  using user_session_inactive [OF assms(1), of p i True] user_session_active [OF assms, of i _ _ True]
    slot_record [OF assms(2), of "unat i"]
  by (metis is_ok.simps(1,2))

text \<open>A session is found the same way as long as its slot and its record are the same.\<close>

lemma user_session_cong:
  assumes B: "bit_trait_laws B" and inv: "part_inv p" "part_inv p'"
    and slot: "session_slots p' ! unat i = session_slots p ! unat i"
    and view: "\<And>n. slot_is (session_slots p) (unat i) n \<Longrightarrow> view p' n = view p n"
  shows "user_session B i allow p' = user_session B i allow p"
proof (cases "\<exists>n. slot_is (session_slots p) (unat i) n")
  case True
  then obtain n where n: "slot_is (session_slots p) (unat i) n" by blast
  then have n': "slot_is (session_slots p') (unat i) n" using slot by (simp add: slot_is_def)
  obtain k where "view p n = Some k" using slot_record [OF inv(1) n] by blast
  then show ?thesis
    using user_session_active [OF B inv(1) n, of k allow] user_session_active [OF B inv(2) n', of k allow] view [OF n]
    by simp
next
  case False
  have "get_target_session B (sessions p') i = get_target_session B (sessions p) i"
    using slot by (simp add: get_target_refines B spec_target_def)
  moreover have "\<nexists>n. get_target_session B (sessions p) i = Ok n" using False by (simp add: target_Ok B)
  ultimately show ?thesis
    by (cases "get_target_session B (sessions p) i") (auto simp: user_session_def)
qed

section \<open>A partition to start from\<close>

text \<open>
  Before any command: no session is active and no credential of a user with another vault is set.
  A reset, a disable and a migration lead back here.
\<close>

definition part_start :: "partition \<Rightarrow> bool" where
  "part_start p \<longleftrightarrow> store_wf (vault p) \<and> session_table_wf (sessions p) \<and> credential_mgr_wf (pt_cred_mgr p) \<and>
     user_app p = cred_vault_id user_credential_default \<and> (\<forall>i n. \<not> slot_is (session_slots p) i n)"

lemma part_start_inv: "part_start p \<Longrightarrow> part_inv p"
  by (simp add: part_start_def part_inv_def backed_none)

lemma cleared_start:
  assumes "store_wf (vault p)"
  shows "part_start (ps_disable rng p)" "part_start (migrate rng p)" "part_start (pt_reset rng p)"
  using life_cycle_inv [OF assms] ps_disable_facts(3) [OF assms] migrate_facts(3) [OF assms] pt_reset_facts(3) [OF assms]
  by (auto simp: part_start_def part_inv_def restore_inactive)

text \<open>
  A partition with one table, a credential and a backup key, and engines simple enough to compute
  with, for the examples below.
\<close>

definition demo_store :: part_persistent_store where
  "demo_store = \<lparr>pst_session_table = empty_session_table, pst_unwrapping_key_required = False,
     pst_unwrapping_key_bk_valid = 0, pst_unwrapping_key_bk = replicate 516 0, pst_pin_policy = pin_policy_default,
     pst_vm_launch_guid = replicate 16 0, pst_partition_id_valid = False, pst_partition_id = replicate 16 0,
     pst_partition_id_priv_key = replicate 48 0, pst_partition_id_pub_key = replicate 97 0,
     pst_partition_cert_valid = False, pst_partition_cert_length = 0, pst_partition_cert_data = replicate 800 0,
     pst_masked_bk_boot_len = 0, pst_masked_bk_boot_data = replicate 300 0, pst_sealed_bk3_len = 0,
     pst_sealed_bk3_data = replicate 512 0, pst_nonce = replicate 32 5, pst_bk3_session_key_valid = True,
     pst_bk3_session_key = replicate 48 3\<rparr>"

definition demo_cred :: user_credential where
  "demo_cred = \<lparr>cred_id = replicate 16 1, cred_pin = replicate 16 2, cred_vault_id = 0\<rparr>"

definition demo :: partition where
  "demo = (part_new demo_store (ks_tables (empty_store 1)))\<lparr>pt_rgs := 1, pt_enabled := True,
     pt_cred_mgr := \<lparr>mgr_user_cred = demo_cred\<rparr>\<rparr>"

definition demo_crypto :: part_crypto where
  "demo_crypto = \<lparr>cr_hkdf = (\<lambda>_ _. Ok (replicate 80 0)), cr_hmac = (\<lambda>_ _. Ok (replicate 64 9)),
     cr_decrypt = (\<lambda>_ c iv. Some (c, iv)), cr_bk_session_gen = (\<lambda>_ _ _ _. Ok (replicate 80 4)),
     cr_masked_key_svn = (\<lambda>_. Ok 0), cr_unmask = (\<lambda>_ _. Ok (replicate 80 6)), cr_generate_mk = Ok (replicate 80 6)\<rparr>"

definition demo_request :: session_cred where
  "demo_request = \<lparr>ec_id = replicate 16 1, ec_pin = replicate 16 2, ec_iv = replicate 16 0, ec_nonce = replicate 32 5,
     ec_tag = replicate 48 9, ec_seed = replicate 48 8\<rparr>"

definition demo_bks :: bks_table where
  "demo_bks = \<lparr>bks1_entries = replicate 11 \<lparr>bks_valid = 1, bks_svn = replicate 8 0, bks_key = replicate 32 1\<rparr>,
     bks2_entry = \<lparr>bks_valid = 1, bks_svn = replicate 8 0, bks_key = replicate 32 2\<rparr>\<rparr>"

lemma demo_fields [simp]:
  "vault demo = empty_store 1" "sessions demo = empty_session_table" "user_app demo = 0"
  "pst_nonce (pt_store demo) = replicate 32 5" "pst_pin_policy (pt_store demo) = pin_policy_default"
  "get_bk3_session demo = Some (replicate 48 3)"
  by (simp_all add: demo_def part_new_def demo_store_def demo_cred_def get_user_vault_id_def get_bk3_session_def
      vault_def empty_store_def)

lemma empty_slots: "slots empty_session_table = replicate 8 Free"
  by (rule slots_eqI) (simp_all add: MAX_SESSIONS_def empty_session_table_def slot_at_def)

lemma demo_start: "part_start demo"
proof -
  have "credential_mgr_wf (pt_cred_mgr demo)"
    by (simp add: demo_def credential_mgr_wf_def demo_cred_def replicate_eq_replicate)
  then show ?thesis
    by (simp add: part_start_def empty_session_table_wf empty_slots slot_is_def user_credential_default_def)
qed

abbreviation open_demo :: "u16 option \<Rightarrow> bytes option \<Rightarrow> partition \<Rightarrow> (api_rev \<times> u16) hsm_result \<times> partition" where
  "open_demo reopen bmk \<equiv> end_open_user_session plain_bits demo_crypto demo_bks (Ok []) (replicate 32 7) 10 11
     \<lparr>rev_major = 1, rev_minor = 0\<rparr> demo_request reopen bmk"

lemma reset_nonce_frame [simp]:
  "vault (reset_nonce rng p) = vault p" "sessions (reset_nonce rng p) = sessions p"
  "pt_cred_mgr (reset_nonce rng p) = pt_cred_mgr p" "get_bk3_session (reset_nonce rng p) = get_bk3_session p"
  by (simp_all add: reset_nonce_def get_bk3_session_def)

lemma demo_authentic:
  assumes "pt_cred_mgr p = pt_cred_mgr demo" and "pst_nonce (pt_store p) = replicate 32 5"
    and "pst_pin_policy (pt_store p) = pin_policy_default"
  shows "authenticate_session demo_crypto (Ok []) (replicate 32 7) 10 11 demo_request p =
    (Ok (replicate 48 8), reset_nonce (replicate 32 7) p)"
proof -
  have "authorize_user (pt_cred_mgr p) (replicate 16 1) (replicate 16 2)"
    by (simp add: assms(1) demo_def demo_cred_def authorize_user_def replicate_eq_replicate)
  then have "pt_authorize 10 11 (replicate 16 1) (replicate 16 2) (reset_nonce (replicate 32 7) p) =
      (Ok (), reset_nonce (replicate 32 7) p)"
    using assms(3)
    by (simp add: pt_authorize_Ok reset_nonce_def can_login_def pin_policy_default_def)
  then show ?thesis
    using assms(2)
    by (simp add: authenticate_session_def demo_crypto_def demo_request_def verify_nonce_def Let_def then_op_def
        verify_encrypted_session_credential_tag_def decrypt_credential_def slice_get_def slice_def)
qed

text \<open>The engines of the example accept every partition with an empty vault.\<close>

lemma demo_import:
  assumes "vault p = empty_store 1"
  obtains n p' where "on_vault (import_session_key app (rev_buf version @ replicate 80 6)) p = (Ok n, p')"
proof -
  let ?key = "rev_buf version @ replicate 80 (6 :: u8)"
  have valid: "add_valid session_key_attributes EK_Session ?key"
    by (simp add: add_valid_def expected_key_len_def is_var_hmac_key_def)
  obtain n s' where "ks_add_entry session_key_attributes KEY_TAG_UNASSIGNED EK_Session app ?key (empty_store 1) = (Ok n, s')"
    by (rule empty_store_adds [OF session_key_attributes_wf valid])
       (simp_all add: blocks_for_def align8_def is_var_hmac_key_def)
  then show thesis using that assms by (simp add: on_vault_def import_session_key_eq)
qed

lemma demo_key: "session_key_new (rev_buf version) (replicate 80 6) = Ok (rev_buf version @ replicate 80 6)"
  by (simp add: session_key_new_Ok)

lemma open_demo_Ok:
  obtains i p' where "open_demo None None demo = (Ok (\<lparr>rev_major = 1, rev_minor = 0\<rparr>, i), p')"
proof -
  let ?p = "reset_nonce (replicate 32 7) demo"
  have p: "vault ?p = empty_store 1" "user_app ?p = 0" "sessions ?p = empty_session_table"
    "get_bk3_session ?p = Some (replicate 48 3)"
    by simp_all
  obtain n p1 where imp: "on_vault (import_session_key 0 (rev_buf \<lparr>rev_major = 1, rev_minor = 0\<rparr> @ replicate 80 6)) ?p = (Ok n, p1)"
    by (rule demo_import [OF p(1)])
  have p1: "sessions p1 = empty_session_table" using imp p(3) by (metis on_vault_frame(1) snd_conv)
  obtain r p2 where put: "put_session plain_bits \<lparr>rev_major = 1, rev_minor = 0\<rparr> None n p1 = (r, p2)" by fastforce
  have wf: "session_table_wf (sessions p1)" by (simp add: p1 empty_session_table_wf)
  have "is_ok r"
    using put_session_fails(4) [OF plain_bits_laws wf put] by (auto simp: p1 empty_slots)
  then obtain v i where r: "r = Ok (v, i)" by (auto simp: is_ok_iff)
  have v: "v = \<lparr>rev_major = 1, rev_minor = 0\<rparr>" using put_session_Ok(1) [OF plain_bits_laws wf put [unfolded r]] .
  have "open_demo None None demo = (Ok (v, i), p2)"
    using p imp put r
    by (simp add: end_open_user_session_def then_op_def demo_authentic install_session_eq generate_bk_session_def
        demo_key empty_slots) (simp add: demo_crypto_def demo_key imp)
  then show thesis using that v by blast
qed

section \<open>Opening a session, as a whole\<close>

text \<open>Everything a successful opening shows and does, for the properties below.\<close>

lemma end_open_Ok:
  assumes B: "bit_trait_laws B" and inv: "part_inv p"
    and ok: "end_open_user_session B K bks secret_val rng now now' version c reopen bmk p = (Ok (v, i), p')"
  obtains seed n mk where "authentic K secret_val c p seed" "can_login now (policy p)" "get_bk3_session p \<noteq> None"
    "v = version" "length mk = 80" "view p n = None" "view p' = (view p)(n \<mapsto> new_record p (rev_buf version @ mk))"
    "unat i < MAX_SESSIONS" "session_slots p ! unat i = (if reopen = None then Free else Pending)"
    "reopen = None \<or> reopen = Some i" "session_slots p' = (session_slots p)[unat i := Active n]"
    "part_inv p'" "nonce p' = rng" "pt_cred_mgr p' = pt_cred_mgr p"
proof -
  obtain seed p1 where a: "authenticate_session K secret_val rng now now' c p = (Ok seed, p1)"
    and ins: "install_session B K bks version reopen bmk seed p1 = (Ok (v, i), p')"
    using ok by (auto simp: end_open_user_session_def then_op_def res_simps split: prod.splits)
  note auth = authenticate_Ok [OF a]
  have p1: "vault p1 = vault p" "sessions p1 = sessions p" "pt_cred_mgr p1 = pt_cred_mgr p"
    "get_bk3_session p1 = get_bk3_session p" "nonce p1 = rng"
    unfolding auth(3) by (simp_all add: get_bk3_session_def)
  have inv1: "part_inv p1" using part_inv_cong [OF p1(1-3)] inv by simp
  show thesis
  proof (rule install_Ok [OF B inv1 ins])
    fix n mk ts t
    assume "v = version" "length mk = 80" "view p1 n = None" "get_bk3_session p1 \<noteq> None"
      "view p' = (view p1)(n \<mapsto> new_record p1 (rev_buf version @ mk))" "unat i < MAX_SESSIONS"
      "session_slots p1 ! unat i = (if reopen = None then Free else Pending)" "reopen = None \<or> reopen = Some i"
      "session_slots p' = (session_slots p1)[unat i := Active n]" "part_inv p'"
      "p' = set_sessions t (p1\<lparr>pt_tables := ts\<rparr>)"
    then show thesis
      using that [of seed mk n] auth(1,2) p1 by (simp add: new_record_def)
  qed
qed

lemma install_nonce: "nonce (snd (install_session B K bks version reopen bmk seed p)) = nonce p"
proof -
  have put: "nonce (snd (put_session B version ro n q)) = nonce q" for n q ro
    unfolding put_session_def
    by (cases ro) (auto simp: then_op_def on_sessions_eq intro!: keeps_try_in [where I = "\<lambda>r. nonce r = nonce q"])
  show ?thesis
    unfolding install_session_eq
    by (auto simp: then_op_def split_beta put intro!: keeps_try_in [where I = "\<lambda>q. nonce q = nonce p"])
qed

lemma slot_is_unique: "slot_is ss i n \<Longrightarrow> slot_is ss i m \<Longrightarrow> m = n"
  by (simp add: slot_is_def)

lemma delete_session_record_idle:
  assumes "bit_trait_laws B" and "part_inv p" and n: "slot_is (session_slots p) (unat i) n" and "\<not> busy n"
  obtains ts where "delete_session_record B busy i p = (Ok (), p\<lparr>pt_tables := ts\<rparr>)"
    "view (p\<lparr>pt_tables := ts\<rparr>) = (view p)(n := None)" "store_wf (vault (p\<lparr>pt_tables := ts\<rparr>))"
proof -
  let ?d = "delete_session_record B busy i p"
  obtain m where m: "slot_is (session_slots p) (unat i) m" "if busy m then fst ?d = Err CannotDeleteKeyInUse else fst ?d = Ok ()"
      "\<exists>ts. snd ?d = p\<lparr>pt_tables := ts\<rparr>" "store_wf (vault (snd ?d))"
      "view (snd ?d) = (view p)(m := if busy m then map_option (sk_set_disabled True) (view p m) else None)"
    using delete_session_record_cases [OF assms(1,2), of busy i] n by blast
  have "m = n" by (rule slot_is_unique [OF n m(1)])
  moreover obtain ts where "snd ?d = p\<lparr>pt_tables := ts\<rparr>" using m(3) by blast
  ultimately show thesis
    using that [of ts] m(2,4,5) assms(4) by (simp add: prod_eq_iff)
qed

section \<open>Properties\<close>



text \<open>
  C5: Nobody opens a session without the credential. If opening or reopening a session succeeds,
  the request carried the nonce of the partition and a tag computed over it with the agreed key,
  it decrypted to the id and the PIN of the user, the PIN policy allowed a login at that time, and
  the partition holds its backup key. The nonce is then a new one.
\<close>

theorem login_authorized:
  assumes "bit_trait_laws B" and "part_inv p"
    and "end_open_user_session B K bks secret_val rng now now' version c reopen bmk p = (Ok (v, i), p')"
  shows "(\<exists>seed. authentic K secret_val c p seed) \<and> verify_user_cred_is_set (pt_cred_mgr p) \<and>
    can_login now (pst_pin_policy (pt_store p)) \<and> get_bk3_session p \<noteq> None \<and> pst_nonce (pt_store p') = rng"
  by (rule end_open_Ok [OF assms]) (auto simp: authentic_def dest: authorize_set)

theorem login_authorized_witness:
  "\<exists>r p'. open_demo None None demo = (r, p') \<and> pst_nonce (pt_store p') = replicate 32 7"
proof -
  obtain i p' where ok: "open_demo None None demo = (Ok (\<lparr>rev_major = 1, rev_minor = 0\<rparr>, i), p')" by (rule open_demo_Ok)
  show ?thesis using login_authorized [OF plain_bits_laws part_start_inv [OF demo_start] ok] ok by blast
qed

text \<open>
  C27: An opened session works and disturbs nothing. The new session is found, enabled, with the
  version it was opened with; its slot was free, or waiting for renegotiation when the session was
  reopened; every other session is looked up as before; and the vault has one key more, under a
  number that was free.
\<close>

theorem opened_session_usable:
  assumes B: "bit_trait_laws B" and inv: "part_inv p"
    and ok: "end_open_user_session B K bks secret_val rng now now' version c reopen bmk p = (Ok (v, i), p')"
  shows "user_session B i False p' = Ok (version, i) \<and> session_valid B i p' \<and>
    (if reopen = None then st_valid B (sessions p) i = Err SessionNotFound
     else reopen = Some i \<and> st_valid B (sessions p) i = Err SessionNeedsRenegotiation) \<and>
    (\<forall>j allow. j \<noteq> i \<longrightarrow> user_session B j allow p' = user_session B j allow p) \<and>
    (\<exists>n. store_view (vault p) n = None \<and> (\<forall>m. m \<noteq> n \<longrightarrow> store_view (vault p') m = store_view (vault p) m))"
proof (rule end_open_Ok [OF B inv ok])
  fix seed n mk
  assume n: "view p n = None" "view p' = (view p)(n \<mapsto> new_record p (rev_buf version @ mk))"
    and i: "unat i < MAX_SESSIONS" "session_slots p ! unat i = (if reopen = None then Free else Pending)"
      "reopen = None \<or> reopen = Some i" "session_slots p' = (session_slots p)[unat i := Active n]"
    and inv': "part_inv p'" and len: "length mk = 80"
  let ?k = "new_record p (rev_buf version @ mk)"
  have s: "slot_is (session_slots p') (unat i) n" using i by (simp add: slot_is_def)
  have k: "view p' n = Some ?k" by (simp add: n(2))
  have dis: "\<not> sk_disabled ?k"
    by (simp add: new_record_def new_key_def sk_disabled_def entry_flags_of_def default_entry_flags_def)
  have ver: "record_version ?k = version"
    by (simp add: record_version_def new_record_def new_key_def rev_buf_def le_word_le_bytes)
  have us: "user_session B i False p' = Ok (version, i)"
    using user_session_active [OF B inv' s k, of False] dis ver by simp
  have t: "get_target_session B (sessions p') i = Ok n" using s by (simp add: target_Ok B)
  then have "session_valid B i p'"
    using us dis k unfolding session_valid_def physical_session_id_def
    by (auto simp: get_target_session_def user_session_def res_simps is_ok_iff split: outcome.splits)
  moreover have "user_session B j allow p' = user_session B j allow p" if "j \<noteq> i" for j allow
  proof (rule user_session_cong [OF B inv inv'])
    have "unat j \<noteq> unat i" using that by (simp add: word_unat_eq_iff)
    then show "session_slots p' ! unat j = session_slots p ! unat j" by (simp add: i(4))
    show "view p' m = view p m" if "slot_is (session_slots p) (unat j) m" for m
      using slot_record [OF inv that] n by auto
  qed
  moreover have "if reopen = None then st_valid B (sessions p) i = Err SessionNotFound
     else reopen = Some i \<and> st_valid B (sessions p) i = Err SessionNeedsRenegotiation"
    using i(1-3) by (auto simp: st_valid_refines B)
  ultimately show ?thesis using us n by auto
qed

theorem opened_session_usable_witness:
  "\<exists>i p'. open_demo None None demo = (Ok (\<lparr>rev_major = 1, rev_minor = 0\<rparr>, i), p') \<and>
     user_session plain_bits i False p' = Ok (\<lparr>rev_major = 1, rev_minor = 0\<rparr>, i)"
proof -
  obtain i p' where ok: "open_demo None None demo = (Ok (\<lparr>rev_major = 1, rev_minor = 0\<rparr>, i), p')" by (rule open_demo_Ok)
  show ?thesis using opened_session_usable [OF plain_bits_laws part_start_inv [OF demo_start] ok] ok by blast
qed



lemma rollback_restores:
  assumes B: "bit_trait_laws B" and inv: "part_inv p"
    and ok: "end_open_user_session B K bks secret_val rng now now' version c reopen bmk p = (Ok (v, i), p')"
    and idle: "\<forall>n. \<not> busy n"
  shows "case rollback_open_session B busy i (reopen \<noteq> None) p' of (r, p'') \<Rightarrow>
    r = Ok () \<and> slots (sessions p'') = slots (sessions p) \<and> store_view (vault p'') = store_view (vault p) \<and>
    pt_cred_mgr p'' = pt_cred_mgr p"
proof (rule end_open_Ok [OF B inv ok])
  fix seed n mk
  assume n: "view p n = None" "view p' = (view p)(n \<mapsto> new_record p (rev_buf version @ mk))"
    and i: "unat i < MAX_SESSIONS" "session_slots p ! unat i = (if reopen = None then Free else Pending)"
      "session_slots p' = (session_slots p)[unat i := Active n]"
    and inv': "part_inv p'" and cred: "pt_cred_mgr p' = pt_cred_mgr p"
  have s: "slot_is (session_slots p') (unat i) m \<longleftrightarrow> m = n" for m using i by (auto simp: slot_is_def)
  obtain ts where del: "delete_session_record B busy i p' = (Ok (), p'\<lparr>pt_tables := ts\<rparr>)"
    "view (p'\<lparr>pt_tables := ts\<rparr>) = (view p')(n := None)"
    by (rule delete_session_record_idle [OF B inv', of i n busy]) (use s idle in auto)
  have "view (p'\<lparr>pt_tables := ts\<rparr>) = view p" using del(2) n by (simp add: fun_eq_iff)
  moreover have "(session_slots p)[unat i := (if reopen = None then Free else Pending)] = session_slots p"
    using i(2) by (metis list_update_id)
  ultimately show ?thesis
    using del(1) session_slot_delete [OF B part_invD(2) [OF inv'], of i] i(3) cred
    by (auto simp: rollback_open_session_def then_op_def)
qed

text \<open>
  Rolling back an opening undoes it. When a command fails after its session was opened or
  reopened, the rollback restores the slots and every key of the vault to what they were before.
\<close>

theorem rollback_undoes_open:
  assumes B: "bit_trait_laws B" and inv: "part_inv p"
    and ok: "end_open_user_session B K bks secret_val rng now now' version c reopen bmk p = (Ok (v, i), p')"
    and idle: "\<forall>n. \<not> busy n"
  shows "case rollback_open_session B busy i (reopen \<noteq> None) p' of (r, p'') \<Rightarrow>
    r = Ok () \<and> slots (sessions p'') = slots (sessions p) \<and> store_view (vault p'') = store_view (vault p) \<and>
    pt_cred_mgr p'' = pt_cred_mgr p"
  by (rule rollback_restores [OF assms])

theorem rollback_undoes_open_witness:
  "\<exists>i p'. open_demo None None demo = (Ok (\<lparr>rev_major = 1, rev_minor = 0\<rparr>, i), p') \<and>
     store_view (vault (snd (rollback_open_session plain_bits (\<lambda>_. False) i False p'))) = Map.empty"
proof -
  obtain i p' where ok: "open_demo None None demo = (Ok (\<lparr>rev_major = 1, rev_minor = 0\<rparr>, i), p')" by (rule open_demo_Ok)
  show ?thesis
    using rollback_undoes_open [OF plain_bits_laws part_start_inv [OF demo_start] ok, of "\<lambda>_. False"] ok
    by (auto simp: split_beta)
qed

section \<open>Closing\<close>

lemma delete_all_session_keys_idle:
  assumes wf: "store_wf s" and idle: "\<forall>n. \<not> cb n"
  shows "fst (delete_all_session_keys i cb s) = Ok ()"
    "store_view (snd (delete_all_session_keys i cb s)) n =
       (case store_view s n of None \<Rightarrow> None | Some k \<Rightarrow> if sk_session_id k = Some i then None else Some k)"
proof -
  have none: "table_failed (of_session i) cb s t = 0" for t
    using idle by (simp add: table_failed_def bulk_failed_def)
  have "fail_weight 0 = 0" by (simp add: fail_weight_def)
  then have "is_ok (fst (ks_remove_all_session_only_entries cb i s))"
    using remove_in_tables_spec [OF wf bulk_op_session [of i cb], of "[0..<65]" 0 0] none
    by (auto simp: ks_remove_all_session_only_entries_def layout_values store_bulk_result_def)
  then show "fst (delete_all_session_keys i cb s) = Ok ()"
    by (auto simp: delete_all_session_keys_def is_ok_iff split_beta)
  show "store_view (snd (delete_all_session_keys i cb s)) n =
       (case store_view s n of None \<Rightarrow> None | Some k \<Rightarrow> if sk_session_id k = Some i then None else Some k)"
    using ks_bulk_view(1) [OF wf, of cb i] idle
    by (simp add: delete_all_session_keys_snd bulk_map_def bulk_entry_def of_session_def split: option.splits)
qed

lemma close_effect:
  assumes B: "bit_trait_laws B" and inv: "part_inv p" and act: "get_target_session B (sessions p) i = Ok n"
    and idle: "\<forall>k. \<not> sess_busy k" "\<not> busy n"
  obtains p' where "close_user_session B sess_busy busy i p = (Ok (), p')" "session_slots p' = (session_slots p)[unat i := Free]"
    "\<And>m. view p' m = (case view p m of None \<Rightarrow> None | Some k \<Rightarrow> if m = n \<or> sk_session_id k = Some i then None else Some k)"
proof -
  let ?f = "delete_all_session_keys i sess_busy"
  define p1 where "p1 = snd (on_vault ?f p)"
  note wf = part_invD(1) [OF inv]
  have inv1: "part_inv p1" unfolding p1_def by (rule delete_session_keys_inv [OF inv])
  have v1: "vault p1 = snd (?f (vault p))"
    using safe_session_keys [OF wf] unfolding p1_def by (intro vault_on_vault) (auto simp: safe_at_def)
  have first: "on_vault ?f p = (Ok (), p1)"
    using delete_all_session_keys_idle(1) [OF wf idle(1), of i] by (simp add: prod_eq_iff p1_def)
  have s1: "sessions p1 = sessions p" by (simp add: p1_def)
  have n: "slot_is (session_slots p1) (unat i) n" using act by (simp add: target_Ok B s1)
  obtain ts where del: "delete_session_record B busy i p1 = (Ok (), p1\<lparr>pt_tables := ts\<rparr>)"
    "view (p1\<lparr>pt_tables := ts\<rparr>) = (view p1)(n := None)"
    by (rule delete_session_record_idle [where busy = busy, OF B inv1 n idle(2)])
  define p' where "p' = flush_session B i (p1\<lparr>pt_tables := ts\<rparr>)"
  have close: "close_user_session B sess_busy busy i p = (Ok (), p')"
    by (simp add: close_user_session_def then_op_def first del(1) p'_def)
  have sl: "session_slots p' = (session_slots p)[unat i := Free]"
    using session_slot_delete(2) [OF B part_invD(2) [OF inv]] by (simp add: p'_def flush_session_def s1)
  have vw: "view p' m = (case view p m of None \<Rightarrow> None
       | Some k \<Rightarrow> if m = n \<or> sk_session_id k = Some i then None else Some k)" for m
    using delete_all_session_keys_idle(2) [OF wf idle(1), of i m] del(2)
    by (simp add: p'_def flush_session_def v1 split: option.splits)
  show thesis by (rule that [OF close sl vw])
qed



section \<open>Without a credential\<close>

text \<open>No credential and no session: what holds from a disable until a credential is established.\<close>

definition locked :: "partition \<Rightarrow> bool" where
  "locked p \<longleftrightarrow> part_inv p \<and> \<not> verify_user_cred_is_set (pt_cred_mgr p) \<and> (\<forall>i n. \<not> slot_is (session_slots p) i n)"

lemma locked_cred:
  assumes "locked p"
  shows "cred_id (mgr_user_cred (pt_cred_mgr p)) = replicate 16 0" "\<not> authorize_user (pt_cred_mgr p) i pin"
  using assms part_invD(3) [of p]
  by (auto simp: locked_def verify_user_cred_is_set_def credential_mgr_wf_def authorize_user_def)

lemma not_set_cleared: "\<not> verify_user_cred_is_set (clear_cred m)"
  by (simp add: verify_user_cred_is_set_def clear_cred_def user_credential_default_def)

lemma cleared_locked:
  assumes "store_wf (vault p)"
  shows "locked (ps_disable rng p)" "locked (migrate rng p)" "locked (pt_reset rng p)"
  using cleared_start [OF assms, of rng] ps_disable_facts(4) [OF assms] migrate_facts(4) [OF assms] pt_reset_facts(4) [OF assms]
  by (auto simp: locked_def part_start_inv part_start_def not_set_cleared)

text \<open>Commands that change neither the credential nor the sessions.\<close>

definition same_login :: "partition \<Rightarrow> partition \<Rightarrow> bool" where
  "same_login p q \<longleftrightarrow> pt_cred_mgr q = pt_cred_mgr p \<and> sessions q = sessions p"

lemma same_login_simps [simp]:
  "same_login p p" "same_login p (snd (on_vault f q)) = same_login p q"
  "same_login p (q\<lparr>pt_establish_cred_encryption_key_id := k\<rparr>) = same_login p q"
  "same_login p (q\<lparr>pt_session_encryption_key_id := k\<rparr>) = same_login p q"
  "same_login p (q\<lparr>pt_masking_key := k\<rparr>) = same_login p q"
  "same_login p (q\<lparr>pt_unwrapping_key_id := k\<rparr>) = same_login p q"
  "same_login p (q\<lparr>pt_enabled := a\<rparr>) = same_login p q"
  "same_login p (reset_nonce rng q) = same_login p q"
  by (simp_all add: same_login_def)

lemma same_login_store: "pst_session_table s = sessions q \<Longrightarrow> same_login p (q\<lparr>pt_store := s\<rparr>) = same_login p q"
  by (simp add: same_login_def)

lemma locked_same_login: "locked p \<Longrightarrow> part_inv q \<Longrightarrow> same_login p q \<Longrightarrow> locked q"
  by (simp add: locked_def same_login_def)

lemmas login_rules = keeps_try_in [where I = "same_login p" for p] keeps_then_op [where I = "same_login p" for p]

lemma encryption_keys_login:
  "same_login p (snd (end_get_establish_cred_encryption_key pka p))"
  "same_login p (snd (end_get_session_encryption_key pka p))"
  "same_login p (snd (generate_new_mk_and_import K p))" "same_login p (snd (clear_unwrapping_key busy p))"
  unfolding end_get_establish_cred_encryption_key_def end_get_session_encryption_key_def
    generate_new_mk_and_import_def clear_unwrapping_key_def
  by (auto intro!: login_rules simp: same_login_store split: option.splits prod.splits)

lemma delete_key_login: "same_login p (snd (delete_key_on_start acquired sent busy i n p))"
  unfolding delete_key_on_start_def begin_delete_aesbulk256_key_def session_delete_key_def
  by (auto intro!: login_rules)

lemma try_in_result:
  assumes "\<And>e. P (Err e, s)" and "P (Panic, s)" and "\<And>x. m = Ok x \<Longrightarrow> P (k x)"
  shows "P (try_in m s k)"
  using assms by (cases m) auto

text \<open>Setting a credential either succeeds or changes nothing.\<close>

lemma set_user_credential_cases:
  "fst (set_user_credential i pin p) = Ok () \<or>
     set_user_credential i pin p = (Err InvalidUserCredential, p)"
  by (simp add: set_user_credential_def change_user_cred_def)

lemma establish_fails_login:
  assumes "end_establish_credential K secret rng busy c p = (r, q)" and "r \<noteq> Ok ()"
  shows "same_login p q"
proof -
  define P where "P = (\<lambda>x :: unit hsm_result \<times> partition. fst x = Ok () \<or> same_login p (snd x))"
  have err: "same_login p s \<Longrightarrow> P (Err e, s)" "same_login p s \<Longrightarrow> P (Panic, s)" for s e by (simp_all add: P_def)
  have set: "P (then_op (set_user_credential i pin) k (reset_nonce rng p))"
    if "\<And>x s. fst (k x s) = Ok ()" for i pin k
    using set_user_credential_cases [of i pin "reset_nonce rng p"] that
    by (cases "set_user_credential i pin (reset_nonce rng p)") (auto simp: then_op_def P_def)
  have "P (end_establish_credential K secret rng busy c p)"
    unfolding end_establish_credential_def Let_def
    by (intro try_in_result [where P = P] err same_login_simps(1))
       (auto simp: split_beta intro!: try_in_result [where P = P] err set split: option.splits)
  then show ?thesis using assms by (simp add: P_def)
qed

lemma change_pin_locked:
  assumes l: "locked p" and "end_change_pin K secret rng c p = (r, q)"
  shows "same_login p q" "r \<noteq> Ok ()"
proof -
  define P where "P = (\<lambda>x :: unit hsm_result \<times> partition. fst x \<noteq> Ok () \<and> same_login p (snd x))"
  have err: "same_login p s \<Longrightarrow> P (Err e, s)" "same_login p s \<Longrightarrow> P (Panic, s)" for s e by (simp_all add: P_def)
  have set: "P (set_user_credential (cred_id (mgr_user_cred (pt_cred_mgr p))) pin (reset_nonce rng p))" for pin
    using locked_cred(1) [OF l] by (simp add: set_user_credential_def change_user_cred_def P_def same_login_def)
  have "P (end_change_pin K secret rng c p)"
    unfolding end_change_pin_def Let_def
    by (intro try_in_result [where P = P] err same_login_simps(1))
       (auto simp: split_beta intro!: try_in_result [where P = P] err set)
  then show "same_login p q" "r \<noteq> Ok ()" using assms(2) by (simp_all add: P_def)
qed

lemma session_commands_locked:
  assumes B: "bit_trait_laws B" and l: "locked p"
  shows "same_login p (snd (rollback_open_session B busy i re p))"
    "same_login p (snd (begin_close_user_session B acquired sent i p))"
    "same_login p (snd (end_close_user_session B sess_busy busy message i p))"
proof -
  obtain e where t: "get_target_session B (sessions p) i = Err e"
    using l target_Ok [OF B, of "sessions p" i] target_not_Panic [OF B, of "sessions p" i]
    by (cases "get_target_session B (sessions p) i") (auto simp: locked_def)
  show "same_login p (snd (rollback_open_session B busy i re p))"
    "same_login p (snd (begin_close_user_session B acquired sent i p))"
    using t by (auto simp: rollback_open_session_def delete_session_record_def then_op_def
        begin_close_user_session_def user_session_def)
  have "same_login p (snd (close_user_session B sess_busy busy i p))"
    unfolding close_user_session_def
    by (rule keeps_then_op [where I = "same_login p"])
       (use t in \<open>auto simp: delete_session_record_def then_op_def same_login_def\<close>)
  then show "same_login p (snd (end_close_user_session B sess_busy busy message i p))"
    by (auto simp: end_close_user_session_def split: option.splits)
qed

lemma open_locked:
  assumes "locked p" and "end_open_user_session B K bks secret_val rng now now' version c reopen bmk p = (r, q)"
  shows "\<not> is_ok r" "same_login p q"
proof -
  obtain r1 p1 where a: "authenticate_session K secret_val rng now now' c p = (r1, p1)" by fastforce
  have "\<not> is_ok r1"
  proof
    assume "is_ok r1"
    then obtain seed where "r1 = Ok seed" by (auto simp: is_ok_iff)
    with authenticate_Ok(1) a have "authentic K secret_val c p seed" by blast
    then show False using locked_cred(2) [OF assms(1)] by (auto simp: authentic_def)
  qed
  then have "q = p1" "\<not> is_ok r"
    using assms(2) a by (cases r1; auto simp: end_open_user_session_def then_op_def)+
  moreover have "same_login p p1"
    using authenticate_state [of K secret_val rng now now' c p] a by (auto simp: same_login_store)
  ultimately show "\<not> is_ok r" "same_login p q" by simp_all
qed

lemma locked_step:
  assumes B: "bit_trait_laws B" and l: "locked p" and step: "part_step B K bks p e q" and ne: "e \<noteq> Ev_Establish (Ok ())"
  shows "locked q \<and> (\<forall>x. e \<noteq> Ev_Open (Ok x))"
proof -
  have inv: "part_inv p" "part_inv q" using l part_step_inv [OF B step] by (auto simp: locked_def)
  note same = locked_same_login [OF l inv(2)]
  show ?thesis
    using step
  proof cases
    case (step_establish secret rng busy c r)
    then show ?thesis using same establish_fails_login ne by blast
  next
    case (step_open secret rng now now' version c reopen bmk r)
    then show ?thesis using same open_locked [OF l step_open(2)] by (auto simp: is_ok_iff)
  next
    case (step_flush i)
    then show ?thesis
      using l inv session_slot_delete(2) [OF B part_invD(2) [OF inv(1)], of i]
      by (auto simp: locked_def flush_session_def slot_is_update)
  next
    case (step_clear_credentials r)
    then show ?thesis using l inv(2) by (auto simp: locked_def clear_credentials_def not_set_cleared)
  next
    case (step_bk3_session bk3 gen r)
    then have "same_login p q"
      by (cases "gen bk3") (auto simp: generate_and_store_bk3_session_def set_bk3_session_def same_login_def split: if_splits)
    then show ?thesis using same step_bk3_session by blast
  next
    case step_enable
    then show ?thesis using l by (simp add: ps_enable_def locked_def)
  next
    case (step_clear_provisioning r)
    then show ?thesis using l by (auto simp: clear_provisioning_state_def locked_def)
  next
    case (step_change_pin secret rng cp r)
    then show ?thesis using same change_pin_locked(1) [OF l step_change_pin(2)] by blast
  qed (use cleared_locked [OF part_invD(1) [OF inv(1)]] in
      \<open>auto simp: session_commands_locked [OF B l]
        encryption_keys_login delete_key_login intro: same elim!: snd_eqI [where P = "same_login p", THEN same]\<close>)
qed

lemma locked_trace:
  assumes B: "bit_trait_laws B" and tr: "part_trace B K bks p es q"
  shows "locked p \<Longrightarrow> Ev_Establish (Ok ()) \<notin> set es \<Longrightarrow> locked q \<and> (\<forall>x. Ev_Open (Ok x) \<notin> set es)"
  using tr
proof (induction rule: part_trace.induct)
  case (trace_cons p e q es r)
  then show ?case using locked_step [OF B trace_cons.prems(1) trace_cons.hyps(1)] by auto
qed simp

text \<open>
  C6: A disabled partition is locked. Disabling, migrating or resetting a partition empties its
  vault and ends every session; from then on, until a credential is established, no session is
  opened and none can be used, whatever commands arrive, even if the partition is enabled again.
\<close>

theorem disable_locks_out:
  assumes "bit_trait_laws B" and "store_wf (vault p)"
    and "p0 \<in> {ps_disable rng p, migrate rng p, pt_reset rng p}"
    and "part_trace B K bks p0 es q" and "Ev_Establish (Ok ()) \<notin> set es"
  shows "store_view (vault p0) = Map.empty \<and> (\<forall>x. Ev_Open (Ok x) \<notin> set es) \<and>
    (\<forall>i allow. \<not> is_ok (user_session B i allow q))"
proof -
  have l: "locked p0" using assms(3) cleared_locked [OF assms(2)] by auto
  have "store_view (vault p0) = Map.empty"
    using assms(3) ps_disable_facts(2) [OF assms(2)] migrate_facts(2) [OF assms(2)] pt_reset_facts(2) [OF assms(2)] by auto
  moreover have q: "locked q" "\<forall>x. Ev_Open (Ok x) \<notin> set es"
    using locked_trace [OF assms(1,4) l assms(5)] by auto
  moreover have "\<not> is_ok (user_session B i allow q)" for i allow
    using user_session_inactive [OF assms(1), of q i allow] q(1) by (auto simp: locked_def)
  ultimately show ?thesis by blast
qed

theorem disable_locks_out_witness:
  "\<not> is_ok (fst (open_demo None None (ps_enable (ps_disable (replicate 32 5) demo))))"
proof -
  let ?p0 = "ps_disable (replicate 32 5) demo"
  obtain r q where r: "open_demo None None (ps_enable ?p0) = (r, q)" by fastforce
  have "part_trace plain_bits demo_crypto demo_bks ?p0 [Ev_Enable, Ev_Open r] q"
    by (rule trace_cons [OF step_enable trace_cons [OF step_open [OF r] trace_nil]])
  from disable_locks_out [OF plain_bits_laws _ _ this, of demo "replicate 32 5"] show ?thesis
    by (auto simp: r is_ok_iff)
qed

section \<open>Failures\<close>

lemma open_failure_state:
  assumes B: "bit_trait_laws B" and inv: "part_inv p"
    and r: "end_open_user_session B K bks secret_val rng now now' version c reopen bmk p = (r, p')" "\<not> is_ok r"
    and waiting: "\<forall>i. reopen = Some i \<longrightarrow> needs_renegotiation B (sessions p) i"
  shows "\<exists>x y. p' = p\<lparr>pt_store := (pt_store p)\<lparr>pst_nonce := x, pst_pin_policy := y\<rparr>\<rparr>"
proof -
  obtain r1 p1 where a: "authenticate_session K secret_val rng now now' c p = (r1, p1)" by fastforce
  obtain x y where p1: "p1 = p\<lparr>pt_store := (pt_store p)\<lparr>pst_nonce := x, pst_pin_policy := y\<rparr>\<rparr>"
    using authenticate_state [of K secret_val rng now now' c p] a by auto
  have "p' = p1"
  proof (cases r1)
    case (Ok seed)
    have inv1: "part_inv p1" using authenticate_inv [OF inv] a by (metis snd_conv)
    have ins: "install_session B K bks version reopen bmk seed p1 = (r, p')"
      using r(1) a Ok by (simp add: end_open_user_session_def then_op_def)
    show ?thesis
    proof (rule ccontr)
      assume ne: "p' \<noteq> p1"
      then obtain j where j: "reopen = Some j" using install_fails [OF B inv1 ins r(2)] by blast
      have pend: "unat j < MAX_SESSIONS" "session_slots p1 ! unat j = Pending"
        using waiting j by (simp_all add: needs_renegotiation_refines B p1)
      obtain key r2 p2 where imp: "on_vault (import_session_key (user_app p1) key) p1 = (r2, p2)"
        and put: "try_in r2 p2 (\<lambda>n. put_session B version reopen n p2) = (r, p')"
        using ins ne unfolding install_session_eq
        by (auto dest!: try_in_changed [OF _ ne] simp: then_op_def split: if_splits prod.splits)
      have "is_ok r2" using import_record_fails [OF inv1 imp] put ne by (cases r2) auto
      then obtain n where "r2 = Ok n" by (auto simp: is_ok_iff)
      then have put': "put_session B version (Some j) n p2 = (r, p')" "sessions p2 = sessions p1"
        "session_table_wf (sessions p2)"
        using put j import_record_Ok [OF inv1, of key n p2] imp part_invD(2) by (auto simp: p1)
      have "fst (recreate_session B j n (sessions p2)) = Ok ()"
        using put'(2) pend recreate_refines [OF B put'(3), of j n] by (auto simp: spec_recreate_def split_beta)
      then show False
        using r(2) put'(1) by (auto simp: put_session_def then_op_def on_sessions_eq)
    qed
  qed (use r(1) a in \<open>simp_all add: end_open_user_session_def then_op_def\<close>)
  then show ?thesis using p1 by blast
qed

text \<open>
  C31: A session that cannot be opened leaves nothing behind. If opening fails, or reopening a
  session that waits for renegotiation, then the slots, the vault and the credential are as
  before: at most the nonce and the PIN policy have changed.
\<close>

theorem open_failure_atomic:
  assumes B: "bit_trait_laws B" and inv: "part_inv p"
    and r: "end_open_user_session B K bks secret_val rng now now' version c reopen bmk p = (r, p')" "\<not> is_ok r"
    and waiting: "\<forall>i. reopen = Some i \<longrightarrow> needs_renegotiation B (sessions p) i"
  shows "\<exists>x y. p' = p\<lparr>pt_store := (pt_store p)\<lparr>pst_nonce := x, pst_pin_policy := y\<rparr>\<rparr>"
  by (rule open_failure_state [OF assms])

theorem open_failure_atomic_witness:
  "let p = demo\<lparr>pt_cred_mgr := credential_mgr_default\<rparr> in
     \<not> is_ok (fst (open_demo None None p)) \<and> store_view (vault (snd (open_demo None None p))) = Map.empty"
proof -
  let ?p = "demo\<lparr>pt_cred_mgr := credential_mgr_default\<rparr>"
  have s: "part_start ?p"
    using demo_start credential_mgr_default_wf
    by (simp add: part_start_def) (simp add: credential_mgr_default_def get_user_vault_id_def)
  then have "locked ?p"
    by (simp add: locked_def part_start_inv part_start_def verify_user_cred_is_set_def credential_mgr_default_def
        user_credential_default_def)
  obtain r q where r: "open_demo None None ?p = (r, q)" by fastforce
  have nok: "\<not> is_ok r" by (rule open_locked(1) [OF \<open>locked ?p\<close> r])
  show ?thesis
    using open_failure_atomic [OF plain_bits_laws part_start_inv [OF s] r nok] nok by (auto simp: r Let_def)
qed



text \<open>
  C39: A short PIN stops the firmware. Changing the PIN copies the encrypted PIN and the initial
  vector of the request into fixed slices without checking their lengths, unlike establishing the
  credential and opening a session: a request with the right nonce but fewer than sixteen bytes
  panics before its tag is looked at.
\<close>

theorem short_pin_panics:
  assumes "secret_val = Ok secret" and "cr_hkdf K secret (pst_nonce (pt_store p)) = Ok key"
    and "ep_nonce c = pst_nonce (pt_store p)" and "length (ep_pin c) \<noteq> 16 \<or> length (ep_iv c) \<noteq> 16"
  shows "end_change_pin K secret_val rng c p = (Panic, p)"
  using assms
  by (cases "length (ep_pin c) = 16")
     (simp_all add: end_change_pin_def verify_nonce_def verify_encrypted_pin_tag_def copy_into_def)

theorem short_pin_panics_witness:
  "end_change_pin demo_crypto (Ok []) (replicate 32 7)
     \<lparr>ep_pin = [], ep_iv = replicate 16 0, ep_nonce = replicate 32 5, ep_tag = []\<rparr> demo = (Panic, demo)"
  by (rule short_pin_panics) (simp_all add: demo_crypto_def)

section \<open>Saving and restoring\<close>

lemma owned_fold:
  assumes "i0 + length table \<le> 128"
  shows "bit (fold (\<lambda>(i, owner) m. if owner = Some pfn then m OR push_bit i 1 else m) (enumerate i0 table) (m :: u128)) j \<longleftrightarrow>
    bit m j \<or> (\<exists>k < length table. j = i0 + k \<and> table ! k = Some pfn)"
  using assms
proof (induction table arbitrary: i0 m)
  case (Cons x xs)
  have "bit (push_bit i0 1 :: u128) j \<longleftrightarrow> j = i0" using Cons.prems by (auto simp: bit_exp_iff push_bit_of_1)
  then show ?case
    using Cons.IH [of "Suc i0" "if x = Some pfn then m OR push_bit i0 1 else m"] Cons.prems
    by (simp add: bit_or_iff Ex_less_Suc2)
qed simp

lemma restore_mask:
  assumes "length table \<le> 128" and "\<forall>i < 128. bit (pt_rgs p) i \<longleftrightarrow> i < length table \<and> table ! i = Some pfn"
  shows "pt_rgs (restore_res_mask pfn table q) = pt_rgs p"
proof -
  have "pt_rgs (restore_res_mask pfn table q) =
      fold (\<lambda>(i, owner) m. if owner = Some pfn then m OR push_bit i 1 else m) (enumerate 0 table) 0"
    by (simp add: restore_res_mask_def Let_def)
  also have "\<dots> = pt_rgs p"
    using owned_fold [of 0 table pfn 0] assms by (intro bit_word_eqI) auto
  finally show ?thesis .
qed

text \<open>
  C30: A partition survives a firmware update. What is saved of a partition, together with the
  persistent store, the key tables and the resource table, gives it back: the same keys, sessions
  and credential, so that every session and every login is answered as before. Only the validity
  of the certificate is withdrawn and the unwrapping key is asked for again.
\<close>

theorem saved_partition_restored:
  assumes len: "length table \<le> 128"
    and own: "\<forall>i < 128. bit (pt_rgs p) i \<longleftrightarrow> i < length table \<and> table ! i = Some pfn"
  shows "let q = part_restore pfn table (store_data p) (pt_store p) (pt_tables p) in
    store_data q = store_data p \<and> vault q = vault p \<and> sessions q = sessions p \<and> pt_cred_mgr q = pt_cred_mgr p \<and>
    user_session B i allow q = user_session B i allow p \<and>
    is_partition_provisioned q = is_partition_provisioned p \<and> get_bk3_session q = get_bk3_session p \<and>
    pst_nonce (pt_store q) = pst_nonce (pt_store p) \<and> pst_pin_policy (pt_store q) = pst_pin_policy (pt_store p) \<and>
    \<not> pst_partition_cert_valid (pt_store q)"
proof -
  define q where "q = part_restore pfn table (store_data p) (pt_store p) (pt_tables p)"
  have rgs: "pt_rgs q = pt_rgs p"
    using restore_mask [OF len own] by (simp add: q_def part_restore_def Let_def)
  have tab: "pt_tables q = pt_tables p" "pt_enabled q = pt_enabled p" "pt_unwrapping_key_id q = pt_unwrapping_key_id p"
    "pt_establish_cred_encryption_key_id q = pt_establish_cred_encryption_key_id p"
    "pt_session_encryption_key_id q = pt_session_encryption_key_id p" "pt_masking_key q = pt_masking_key p"
    "pt_cred_mgr q = pt_cred_mgr p"
    by (simp_all add: q_def part_restore_def restore_res_mask_def part_new_def store_data_def restore_user_cred_def Let_def)
  have st: "sessions q = sessions p" "nonce q = nonce p" "policy q = policy p" "\<not> pst_partition_cert_valid (pt_store q)"
    "pst_bk3_session_key_valid (pt_store q) = pst_bk3_session_key_valid (pt_store p)"
    "pst_bk3_session_key (pt_store q) = pst_bk3_session_key (pt_store p)"
    by (simp_all add: q_def part_restore_def restore_res_mask_def part_new_def Let_def)
  have v: "vault q = vault p" using rgs tab(1) by (simp add: vault_def)
  show ?thesis
    unfolding q_def [symmetric] Let_def using tab st v
    by (simp add: store_data_def user_session_def is_partition_provisioned_def get_bk3_session_def)
qed

theorem saved_partition_restored_witness:
  "vault (part_restore (3 :: nat) [Some 3] (store_data demo) (pt_store demo) (pt_tables demo)) = empty_store 1"
proof -
  have "pt_rgs demo = 1" by (simp add: demo_def)
  then have "\<forall>i < 128. bit (pt_rgs demo) i \<longleftrightarrow> i < length [Some (3 :: nat)] \<and> [Some (3 :: nat)] ! i = Some 3"
    by (auto simp: bit_1_iff)
  from saved_partition_restored [OF _ this] show ?thesis by (simp add: Let_def)
qed

end
