(* ===== verification/Range_Check.thy ===== *)
theory Range_Check
  imports Vault_Keys
begin

text \<open>
  The comparisons of big numbers that guard the public-key engines: the coordinates of a public
  point (\<^verbatim>\<open>hsm/src/partition/ecc_key_validation.rs\<close>), the input of an RSA operation
  (\<^verbatim>\<open>check_valid_input\<close> of \<^verbatim>\<open>hsm/src/partition/session/app_sess/rsa.rs\<close>) and an ECC private key
  (\<^verbatim>\<open>validate_scalar_d_from_pka_bytes\<close> of \<^verbatim>\<open>hsm/src/partition/session/app_sess/ecc.rs\<close>). All three compare digit by digit
  from the most significant end and stop early. They are shown to decide the intended
  inequalities between the numbers.
\<close>

section \<open>The program\<close>

text \<open>A coordinate against the prime of the curve, both little-endian; \<open>i\<close> is the next index of the loop.\<close>

fun coordinate_loop :: "bytes \<Rightarrow> bytes \<Rightarrow> nat \<Rightarrow> bool \<Rightarrow> bool" where
  "coordinate_loop coordinate p 0 coord_gt_zero \<longleftrightarrow>
     (coord_gt_zero \<or> coordinate ! 0 \<ge> 1) \<and> coordinate ! 0 < p ! 0"
| "coordinate_loop coordinate p (Suc j) coord_gt_zero \<longleftrightarrow>
     (let i = Suc j; coord_gt_zero = (coord_gt_zero \<or> coordinate ! i > 0) in
      if p ! i > coordinate ! i
      then coord_gt_zero \<or> list_ex (\<lambda>x. x > 0) (rev (slice 1 j coordinate)) \<or> coordinate ! 0 \<ge> 1
      else if p ! i < coordinate ! i then False
      else coordinate_loop coordinate p j coord_gt_zero)"

definition is_in_valid_range :: "bytes \<Rightarrow> bytes \<Rightarrow> (hsm_err, bool) outcome" where
  "is_in_valid_range coordinate p =
     (if length coordinate \<noteq> length p then Ok False
      else if p = [] then Panic
      else Ok (coordinate_loop coordinate p (length p - 1) False))"

text \<open>The input \<open>m\<close> of an RSA operation against the modulus \<open>n\<close>.\<close>

fun input_loop :: "bytes \<Rightarrow> bytes \<Rightarrow> nat \<Rightarrow> bool \<Rightarrow> bool" where
  "input_loop n m 0 m_gt_one \<longleftrightarrow> (m_gt_one \<or> m ! 0 > 1) \<and> n ! 0 > m ! 0 \<and> n ! 0 - m ! 0 > 1"
| "input_loop n m (Suc j) m_gt_one \<longleftrightarrow>
     (let i = Suc j; m_gt_one = (m_gt_one \<or> m ! i > 0) in
      if n ! i > m ! i
      then if n ! i - m ! i = 1 \<and> list_all (\<lambda>x. x = 0) (take i n) \<and> list_all (\<lambda>x. x = 0xFF) (take i m) then False
           else m_gt_one \<or> list_ex (\<lambda>x. x > 0) (rev (slice 1 j m)) \<or> m ! 0 > 1
      else if n ! i < m ! i then False
      else input_loop n m j m_gt_one)"

definition check_valid_input :: "bytes \<Rightarrow> bytes \<Rightarrow> (hsm_err, bool) outcome" where
  "check_valid_input n m =
     (if length n \<noteq> length m then Ok False
      else if n = [] then Panic
      else Ok (input_loop n m (length n - 1) False))"

text \<open>A private key as limbs of 64 bits against the order of the curve.\<close>

primrec ecc_len :: "ecc_curve \<Rightarrow> nat" where
  "ecc_len P256 = 32"
| "ecc_len P384 = 48"
| "ecc_len P521 = 66"

primrec pka_len :: "ecc_curve \<Rightarrow> nat" where
  "pka_len P256 = 32"
| "pka_len P384 = 48"
| "pka_len P521 = 68"

definition P256_ORDER_U64 :: "u64 list" where
  "P256_ORDER_U64 = [0xf3b9cac2fc632551, 0xbce6faada7179e84, 0xffffffffffffffff, 0xffffffff00000000]"

definition P384_ORDER_U64 :: "u64 list" where
  "P384_ORDER_U64 = [0xecec196accc52973, 0x581a0db248b0a77a, 0xc7634d81f4372ddf,
     0xffffffffffffffff, 0xffffffffffffffff, 0xffffffffffffffff]"

definition P521_ORDER_U64 :: "u64 list" where
  "P521_ORDER_U64 = [0xbb6fb71e91386409, 0x3bb5c9b8899c47ae, 0x7fcc0148f709a5d0, 0x51868783bf2f966b,
     0xfffffffffffffffa, 0xffffffffffffffff, 0xffffffffffffffff, 0xffffffffffffffff, 0x00000000000001ff]"

primrec order_limbs :: "ecc_curve \<Rightarrow> u64 list" where
  "order_limbs P256 = P256_ORDER_U64"
| "order_limbs P384 = P384_ORDER_U64"
| "order_limbs P521 = P521_ORDER_U64"

fun chunks :: "nat \<Rightarrow> 'a list \<Rightarrow> 'a list list" where
  "chunks n [] = []"
| "chunks n (x # xs) = (x # take (n - 1) xs) # chunks n (drop (n - 1) xs)"

definition limb_of :: "bytes \<Rightarrow> u64" where
  "limb_of chunk = fold (\<lambda>(j, x) limb. limb OR push_bit (8 * j) (ucast x)) (List.enumerate 0 chunk) 0"

definition d_le_to_limbs :: "nat \<Rightarrow> bytes \<Rightarrow> u64 list hsm_result" where
  "d_le_to_limbs n input =
     (let cs = chunks 8 input in
      if length cs > n then Panic else Ok (map limb_of cs @ replicate (n - length cs) 0))"

fun compare_limbs :: "(u64 \<times> u64) list \<Rightarrow> bool" where
  "compare_limbs [] = False"
| "compare_limbs ((a, b) # xs) = (if a < b then True else if b < a then False else compare_limbs xs)"

definition is_valid_scalar :: "u64 list \<Rightarrow> u64 list \<Rightarrow> bool" where
  "is_valid_scalar d order = (if list_all (\<lambda>x. x = 0) d then False else compare_limbs (zip (rev d) (rev order)))"

primrec curve_limbs :: "ecc_curve \<Rightarrow> nat" where
  "curve_limbs P256 = 4"
| "curve_limbs P384 = 6"
| "curve_limbs P521 = 9"

definition validate_scalar_d_from_pka_bytes :: "ecc_curve \<Rightarrow> bytes \<Rightarrow> unit hsm_result" where
  "validate_scalar_d_from_pka_bytes curve d_pka =
     (if length d_pka \<noteq> pka_len curve then Err KeyStructuralValidationFailed
      else and_then (d_le_to_limbs (curve_limbs curve) (take (ecc_len curve) d_pka)) (\<lambda>d_limbs.
        if \<not> is_valid_scalar d_limbs (order_limbs curve) then Err KeyStructuralValidationFailed else Ok ()))"

section \<open>Numbers\<close>

primrec le_nat :: "'a::len word list \<Rightarrow> nat" where
  "le_nat [] = 0"
| "le_nat (x # xs) = unat x + 2 ^ LENGTH('a) * le_nat xs"

lemma le_nat_append: "le_nat (xs @ ys) = le_nat xs + 2 ^ (LENGTH('a) * length xs) * le_nat (ys :: 'a::len word list)"
  by (induction xs) (simp_all add: algebra_simps power_add)

lemma le_nat_less: "le_nat (xs :: 'a::len word list) < 2 ^ (LENGTH('a) * length xs)"
proof (induction xs)
  case (Cons x xs)
  have "unat x + 2 ^ LENGTH('a) * le_nat xs < 2 ^ LENGTH('a) + 2 ^ LENGTH('a) * le_nat xs"
    using unsigned_less [of x] by simp
  also have "\<dots> \<le> 2 ^ LENGTH('a) * 2 ^ (LENGTH('a) * length xs)"
    using Cons by (metis Suc_leI mult_Suc_right mult_le_mono2)
  finally show ?case by (simp add: power_add)
qed simp

lemma le_nat_0_iff: "le_nat (xs :: 'a::len word list) = 0 \<longleftrightarrow> (\<forall>x \<in> set xs. x = 0)"
  by (induction xs) (auto simp: unat_eq_0)

text \<open>The digit at \<open>i\<close> decides the comparison of the first \<open>i + 1\<close> digits, unless it is the same in both.\<close>

lemma le_nat_take_Suc:
  "i < length xs \<Longrightarrow> le_nat (take (Suc i) xs) = le_nat (take i xs) + 2 ^ (LENGTH('a) * i) * unat (xs ! i :: 'a::len word)"
  by (simp add: take_Suc_conv_app_nth le_nat_append)

lemma digit_decides:
  fixes x y :: nat
  assumes "a < B" and "b < B" and "x < y"
  shows "a + B * x < b + B * y"
proof -
  have "a + B * x < B * Suc x" using assms(1) by simp
  also have "\<dots> \<le> B * y" using assms(3) by (intro mult_le_mono2) simp
  finally show ?thesis by simp
qed

lemma take_less:
  fixes xs ys :: "'a::len word list"
  assumes "i < length xs" and "i < length ys"
  shows "xs ! i < ys ! i \<Longrightarrow> le_nat (take (Suc i) xs) < le_nat (take (Suc i) ys)"
    and "xs ! i = ys ! i \<Longrightarrow>
      le_nat (take (Suc i) xs) < le_nat (take (Suc i) ys) \<longleftrightarrow> le_nat (take i xs) < le_nat (take i ys)"
proof -
  have "le_nat (take i xs) < 2 ^ (LENGTH('a) * i)" "le_nat (take i ys) < 2 ^ (LENGTH('a) * i)"
    using le_nat_less [of "take i xs"] le_nat_less [of "take i ys"] assms by simp_all
  then show "xs ! i < ys ! i \<Longrightarrow> le_nat (take (Suc i) xs) < le_nat (take (Suc i) ys)"
    using digit_decides assms by (simp add: le_nat_take_Suc word_less_nat_alt)
qed (use assms in \<open>simp add: le_nat_take_Suc\<close>)

text \<open>The rest of the bytes is positive exactly if the loops find a positive byte in it.\<close>

lemma take_Suc_parts: "xs \<noteq> [] \<Longrightarrow> take (Suc j) xs = xs ! 0 # slice 1 j xs"
  by (cases xs) (simp_all add: slice_def)

lemma byte_pos: "(x :: 'a::len word) > 0 \<longleftrightarrow> x \<noteq> 0" "(x :: 'a::len word) \<ge> 1 \<longleftrightarrow> x \<noteq> 0"
  by (simp_all add: word_greater_zero_iff word_le_nat_alt Suc_le_eq unat_gt_0)

lemma low_pos:
  assumes "j < length (c :: bytes)"
  shows "0 < le_nat (take (Suc j) c) \<longleftrightarrow> list_ex (\<lambda>x. x > 0) (rev (slice 1 j c)) \<or> c ! 0 \<ge> 1"
  using assms le_nat_0_iff [of "take (Suc j) c"]
  by (auto simp: take_Suc_parts [of c] byte_pos list_ex_iff simp flip: length_greater_0_conv)

lemma coordinate_loop_exact:
  assumes "i < length c" and "length c = length p"
  shows "coordinate_loop c p i gt \<longleftrightarrow>
    (gt \<or> 0 < le_nat (take (Suc i) c)) \<and> le_nat (take (Suc i) c) < le_nat (take (Suc i) p)"
  using assms
proof (induction i arbitrary: gt)
  case 0
  then show ?case by (cases c; cases p) (auto simp: word_less_nat_alt byte_pos unat_gt_0)
next
  case (Suc j)
  have j: "j < length c" "Suc j < length p" using Suc.prems by simp_all
  have pos: "0 < le_nat (take (Suc (Suc j)) c) \<longleftrightarrow> c ! Suc j > 0 \<or> 0 < le_nat (take (Suc j) c)"
    using Suc.prems by (auto simp: le_nat_take_Suc [of "Suc j"] word_greater_zero_iff unat_gt_0)
  consider "c ! Suc j < p ! Suc j" | "p ! Suc j < c ! Suc j" | "c ! Suc j = p ! Suc j" by fastforce
  then show ?case
  proof cases
    case 1
    then show ?thesis using take_less(1) [OF Suc.prems(1) j(2)] low_pos [OF j(1)] pos
      by (auto simp: Let_def simp del: take_Suc_conv_app_nth)
  next
    case 2
    then show ?thesis using take_less(1) [OF j(2) Suc.prems(1)] order.asym [OF 2] by (auto simp: Let_def)
  next
    case 3
    then show ?thesis using take_less(2) [OF Suc.prems(1) j(2) 3] Suc.IH [OF j(1) Suc.prems(2)] pos
      by (auto simp: Let_def)
  qed
qed

lemma le_nat_max: "Suc (le_nat (xs :: 'a::len word list)) = 2 ^ (LENGTH('a) * length xs) \<longleftrightarrow> (\<forall>x \<in> set xs. x = - 1)"
proof (induction xs)
  case (Cons x xs)
  define B V C where "B = (2 :: nat) ^ LENGTH('a)" and "V = le_nat xs" and "C = (2 :: nat) ^ (LENGTH('a) * length xs)"
  have lt: "unat x < B" "V < C" using unsigned_less [of x] le_nat_less [of xs] by (simp_all add: B_def V_def C_def)
  have "Suc (unat x + B * V) = B * C \<longleftrightarrow> Suc (unat x) = B \<and> Suc V = C"
  proof
    assume eq: "Suc (unat x + B * V) = B * C"
    have "Suc V = C"
    proof (rule ccontr)
      assume "Suc V \<noteq> C"
      then have "B * Suc (Suc V) \<le> B * C" using lt(2) by (intro mult_le_mono2) simp
      then show False using eq lt(1) by simp
    qed
    then show "Suc (unat x) = B \<and> Suc V = C" using eq by auto
  qed auto
  moreover have "Suc (unat x) = B \<longleftrightarrow> x = - 1"
    using lt(1) by (auto simp: B_def word_unat_eq_iff unsigned_minus_1_eq_mask mask_eq_exp_minus_1)
  ultimately show ?case using Cons by (simp add: B_def V_def C_def power_add)
qed simp

lemma low_gt_one:
  assumes "j < length (m :: bytes)"
  shows "1 < le_nat (take (Suc j) m) \<longleftrightarrow> list_ex (\<lambda>x. x > 0) (rev (slice 1 j m)) \<or> m ! 0 > 1"
proof -
  have "m \<noteq> []" using assms by auto
  then show ?thesis using le_nat_0_iff [of "slice 1 j m"]
    by (cases "le_nat (slice 1 j m)") (auto simp: take_Suc_parts byte_pos list_ex_iff word_less_nat_alt unat_gt_0)
qed

lemma ff: "(255 :: u8) = - 1"
  by simp

lemma input_loop_exact:
  assumes "i < length m" and "length m = length n"
  shows "input_loop n m i gt \<longleftrightarrow>
    (gt \<or> 1 < le_nat (take (Suc i) m)) \<and> Suc (le_nat (take (Suc i) m)) < le_nat (take (Suc i) n)"
  using assms
proof (induction i arbitrary: gt)
  case 0
  then show ?case by (cases m; cases n) (auto simp: word_less_nat_alt unat_sub_if' word_le_nat_alt)
next
  case (Suc j)
  have j: "j < length m" "Suc j < length n" using Suc.prems by simp_all
  define B where "B = (2 :: nat) ^ (8 * Suc j)"
  define M N where "M = le_nat (take (Suc j) m)" and "N = le_nat (take (Suc j) n)"
  have digits: "le_nat (take (Suc (Suc j)) m) = M + B * unat (m ! Suc j)"
    "le_nat (take (Suc (Suc j)) n) = N + B * unat (n ! Suc j)"
    using Suc.prems by (simp_all add: le_nat_take_Suc [of "Suc j"] M_def N_def B_def)
  have "1 < B" unfolding B_def by (rule one_less_power) simp_all
  have B: "M < B" "N < B" using le_nat_less [of "take (Suc j) m"] le_nat_less [of "take (Suc j) n"] Suc.prems
    by (simp_all add: M_def N_def B_def)
  have pos: "1 < le_nat (take (Suc (Suc j)) m) \<longleftrightarrow> m ! Suc j > 0 \<or> 1 < M"
    using \<open>1 < B\<close> by (cases "unat (m ! Suc j)") (auto simp: digits word_less_nat_alt)
  have low: "1 < M \<longleftrightarrow> list_ex (\<lambda>x. x > 0) (rev (slice 1 j m)) \<or> m ! 0 > 1"
    using low_gt_one [OF j(1)] by (simp add: M_def)
  have all: "list_all (\<lambda>x. x = 0) (take (Suc j) n) \<longleftrightarrow> N = 0" "list_all (\<lambda>x. x = 0xFF) (take (Suc j) m) \<longleftrightarrow> Suc M = B"
    using le_nat_0_iff [of "take (Suc j) n"] le_nat_max [of "take (Suc j) m"] Suc.prems
    by (simp_all add: ff list_all_iff M_def N_def B_def)
  consider "m ! Suc j < n ! Suc j" | "n ! Suc j < m ! Suc j" | "m ! Suc j = n ! Suc j" by fastforce
  then show ?case
  proof cases
    case 1
    then have d: "n ! Suc j - m ! Suc j = 1 \<longleftrightarrow> unat (n ! Suc j) = Suc (unat (m ! Suc j))"
      by (auto simp: word_unat_eq_iff unat_sub_if' word_less_nat_alt)
    obtain k where k: "unat (n ! Suc j) = unat (m ! Suc j) + Suc k"
      using 1 less_imp_Suc_add unfolding word_less_nat_alt by fastforce
    have "Suc (M + B * unat (m ! Suc j)) < N + B * unat (n ! Suc j) \<longleftrightarrow> \<not> (k = 0 \<and> N = 0 \<and> Suc M = B)"
      using B \<open>1 < B\<close> by (cases k) (auto simp: k algebra_simps)
    then show ?thesis using 1 d k low pos all by (auto simp: Let_def digits)
  next
    case 2
    then have "N + B * unat (n ! Suc j) < M + B * unat (m ! Suc j)"
      using digit_decides B by (simp add: word_less_nat_alt)
    then show ?thesis using order.asym [OF 2] 2 by (auto simp: Let_def digits)
  next
    case 3
    then show ?thesis using Suc.IH [OF j(1) Suc.prems(2)] pos by (auto simp: Let_def digits M_def N_def)
  qed
qed

lemma limb_snoc: "limb_of (xs @ [x]) = limb_of xs OR push_bit (8 * length xs) (ucast x)"
  by (simp add: limb_of_def enumerate_append_eq)

lemma unat_limb: "length xs \<le> 8 \<Longrightarrow> unat (limb_of xs) = le_nat xs"
proof (induction xs rule: rev_induct)
  case Nil
  then show ?case by (simp add: limb_of_def)
next
  case (snoc x xs)
  let ?n = "8 * length xs"
  have n: "?n + 8 \<le> 64" using snoc.prems by simp
  have ih: "unat (limb_of xs) = le_nat xs" using snoc by simp
  have lt: "le_nat xs < 2 ^ ?n" using le_nat_less [of xs] by simp
  have "unat x < 2 ^ LENGTH(8)" by (rule unsigned_less)
  also have "\<dots> \<le> 2 ^ LENGTH(64)" by simp
  finally have "unat (ucast x :: u64) = unat x" unfolding unsigned_ucast_eq by (rule take_bit_nat_eq_self)
  moreover have "unat x * 2 ^ ?n < 2 ^ 64"
  proof -
    have "unat x * 2 ^ ?n < 2 ^ 8 * 2 ^ ?n" using unsigned_less [of x] by simp
    also have "\<dots> \<le> 2 ^ 64" using n unfolding power_add [symmetric] by (intro power_increasing) simp_all
    finally show ?thesis .
  qed
  ultimately have b: "unat (push_bit ?n (ucast x) :: u64) = push_bit ?n (unat x)"
    unfolding unsigned_push_bit_eq by (simp add: take_bit_nat_eq_self_iff push_bit_eq_mult)
  have "le_nat xs AND push_bit ?n (unat x) = 0"
    using take_bit_nat_eq_self [OF lt] by (intro bit_eqI) (metis bit_and_iff bit_push_bit_iff bit_take_bit_iff bit_0_eq not_le bot_apply bot_bool_def)
  then have "unat (limb_of (xs @ [x])) = le_nat xs + push_bit ?n (unat x)"
    by (simp add: limb_snoc unsigned_or_eq ih b disjunctive_add_eq_or)
  then show ?case by (simp add: le_nat_append push_bit_eq_mult)
qed

lemma chunks_limbs: "le_nat (map limb_of (chunks 8 xs)) = le_nat xs" "length (chunks 8 xs) = (length xs + 7) div 8"
proof (induction "8 :: nat" xs rule: chunks.induct)
  case (2 x xs)
  let ?c = "x # take 7 xs"
  have l: "unat (limb_of ?c) = le_nat ?c" by (rule unat_limb) simp
  { case 1
    show ?case
    proof (cases "length xs < 7")
      case True
      then show ?thesis using l "2.hyps" by simp
    next
      case False
      then have "le_nat (x # xs) = le_nat ?c + 2 ^ 64 * le_nat (drop 7 xs)"
        using le_nat_append [of ?c "drop 7 xs"] by simp
      then show ?thesis using l "2.hyps" by simp
    qed }
  { case 2
    show ?case using "2.hyps" by (cases "length xs < 7") simp_all }
qed simp_all

lemma compare_limbs_exact:
  "length xs = length ys \<Longrightarrow> compare_limbs (zip xs ys) \<longleftrightarrow> le_nat (rev xs) < le_nat (rev ys)"
proof (induction xs ys rule: list_induct2)
  case (Cons x xs y ys)
  have B: "le_nat (rev xs) < 2 ^ (64 * length ys)" "le_nat (rev ys) < 2 ^ (64 * length ys)"
    using le_nat_less [of "rev xs"] le_nat_less [of "rev ys"] Cons.hyps by simp_all
  consider "x < y" | "y < x" | "x = y" by fastforce
  then show ?case
  proof cases
    case 1
    then show ?thesis using digit_decides [OF B] Cons.hyps by (simp add: le_nat_append word_less_nat_alt)
  next
    case 2
    then show ?thesis using digit_decides [OF B(2) B(1), of "unat y" "unat x"] Cons.hyps
      by (simp add: le_nat_append word_less_nat_alt)
  next
    case 3
    then show ?thesis using Cons by (simp add: le_nat_append)
  qed
qed simp

lemma is_valid_scalar_exact:
  "length d = length order \<Longrightarrow> is_valid_scalar d order \<longleftrightarrow> 0 < le_nat d \<and> le_nat d < le_nat order"
  using compare_limbs_exact [of "rev d" "rev order"] le_nat_0_iff [of d]
  by (auto simp: is_valid_scalar_def list_all_iff)

section \<open>Properties\<close>

text \<open>
  C22: The check of a coordinate is exact. For a coordinate of the length of the prime it answers
  whether the number is at least one and less than the prime; with another length it refuses.
  It never reads outside of the two slices.
\<close>

theorem coordinate_range_exact:
  assumes "p \<noteq> []"
  shows "is_in_valid_range c p = Ok (length c = length p \<and> 1 \<le> le_nat c \<and> le_nat c < le_nat p)"
proof (cases "length c = length p")
  case True
  then have "length p - 1 < length c" "Suc (length p - 1) = length p" using assms by (cases p; simp)+
  then show ?thesis using True assms coordinate_loop_exact [of "length p - 1" c p False]
    by (simp add: is_in_valid_range_def Suc_le_eq)
qed (simp add: is_in_valid_range_def)

theorem coordinate_range_exact_witness:
  "is_in_valid_range [0xFE, 0xFF] [0xFF, 0xFF] = Ok True \<and> is_in_valid_range [0xFF, 0xFF] [0xFF, 0xFF] = Ok False \<and>
   is_in_valid_range [0, 0] [0xFF, 0xFF] = Ok False"
  using coordinate_range_exact [of "[0xFF, 0xFF]" "[0xFE, 0xFF]"] coordinate_range_exact [of "[0xFF, 0xFF]" "[0xFF, 0xFF]"]
    coordinate_range_exact [of "[0xFF, 0xFF]" "[0, 0]"] by simp

text \<open>
  The check of an RSA input is exact. For an input of the length of the modulus it answers
  whether the number is greater than one and less than the modulus minus one, also where the
  subtraction borrows over all lower bytes; with another length it refuses. It never reads
  outside of the two slices, and none of its subtractions of bytes wraps.
\<close>

theorem rsa_input_exact:
  assumes "n \<noteq> []"
  shows "check_valid_input n m = Ok (length m = length n \<and> 1 < le_nat m \<and> le_nat m < le_nat n - 1)"
proof (cases "length m = length n")
  case True
  then have "length n - 1 < length m" "Suc (length n - 1) = length n" using assms by (cases n; simp)+
  then show ?thesis using True assms input_loop_exact [of "length n - 1" m n False]
    by (simp add: check_valid_input_def less_diff_conv)
qed (simp add: check_valid_input_def)

theorem rsa_input_exact_witness:
  "check_valid_input [0, 2] [255, 1] = Ok False \<and> check_valid_input [0, 2] [254, 1] = Ok True"
  using rsa_input_exact [of "[0, 2]" "[255, 1]"] rsa_input_exact [of "[0, 2]" "[254, 1]"] by simp

text \<open>
  C21: The check of a private key is exact. It accepts a key in the format of the engine exactly if
  the number in its bytes, without the two bytes of padding of P-521, is positive and less than
  the order of the curve; the conversion to limbs keeps the number and stays in its array.
\<close>

theorem scalar_range_exact:
  "validate_scalar_d_from_pka_bytes curve d =
     (if length d = pka_len curve \<and> 0 < le_nat (take (ecc_len curve) d) \<and>
         le_nat (take (ecc_len curve) d) < le_nat (order_limbs curve)
      then Ok () else Err KeyStructuralValidationFailed)"
proof (cases "length d = pka_len curve")
  case True
  let ?d = "take (ecc_len curve) d"
  have len: "length (chunks 8 ?d) = curve_limbs curve" "length (order_limbs curve) = curve_limbs curve"
    using True chunks_limbs(2) [of ?d] by (cases curve; simp add: P256_ORDER_U64_def P384_ORDER_U64_def P521_ORDER_U64_def)+
  then have "d_le_to_limbs (curve_limbs curve) ?d = Ok (map limb_of (chunks 8 ?d))" by (simp add: d_le_to_limbs_def)
  then show ?thesis using True len is_valid_scalar_exact [of "map limb_of (chunks 8 ?d)" "order_limbs curve"] chunks_limbs(1) [of ?d]
    by (simp add: validate_scalar_d_from_pka_bytes_def)
qed (simp add: validate_scalar_d_from_pka_bytes_def)

end
