(* ===== verification/Cdma_Vault.thy ===== *)
theory Cdma_Vault
  imports Session_Table
begin

text \<open>
  The slots of the bulk keys in the memory of the fast path (\<^verbatim>\<open>hsm/src/partition/cdma_vault.rs\<close>): sixty-five
  tables of seven keys, of which a partition owns those of its mask. One byte per table says
  which slots are taken; these bytes lie in a memory that all partitions share. The keys
  themselves are written and erased by the fast path.
\<close>

section \<open>The program\<close>

definition CDMA_TABLE_COUNT :: nat where "CDMA_TABLE_COUNT = 65"
definition MAX_KEYS_PER_TABLE :: nat where "MAX_KEYS_PER_TABLE = 7"
definition CDMA_KEY_SIZE :: nat where "CDMA_KEY_SIZE = 32"
definition TOTAL_TABLE_SIZE :: nat where "TOTAL_TABLE_SIZE = MAX_KEYS_PER_TABLE * CDMA_KEY_SIZE"

text \<open>\<^verbatim>\<open>AesBulk256KeyId\<close>, whose fields have three and seven bits; the reserved field is zero.\<close>

record bulk_key_id =
  key_index :: u8
  vault_id :: u8

record cdma_vault =
  cv_base :: nat
  cv_mask :: u128
  cv_meta_data :: bytes

definition cdma_valid_table :: "cdma_vault \<Rightarrow> u8 \<Rightarrow> bool" where
  "cdma_valid_table v table_index \<longleftrightarrow> table_index < of_nat CDMA_TABLE_COUNT \<and> cv_mask v AND push_bit (unat table_index) 1 \<noteq> 0"

text \<open>The two loops of \<^verbatim>\<open>import_key\<close>: over the tables, and over the slots of a table.\<close>

fun find_slot :: "bit_trait \<Rightarrow> u8 \<Rightarrow> nat list \<Rightarrow> nat option" where
  "find_slot B availability [] = None"
| "find_slot B availability (k # ks) = (if \<not> bit_get B availability k then Some k else find_slot B availability ks)"

fun import_loop :: "bit_trait \<Rightarrow> nat list \<Rightarrow> cdma_vault \<Rightarrow> bulk_key_id hsm_result \<times> cdma_vault" where
  "import_loop B [] v = (Err ReachedMaxAesBulkKeys, v)"
| "import_loop B (t # ts) v =
     (if \<not> cdma_valid_table v (of_nat t) then import_loop B ts v
      else let availability = cv_meta_data v ! t in
        case find_slot B availability [0..<MAX_KEYS_PER_TABLE] of
          Some k \<Rightarrow> (Ok \<lparr>key_index = of_nat k, vault_id = of_nat t\<rparr>,
                     v\<lparr>cv_meta_data := (cv_meta_data v)[t := bit_set B availability k True]\<rparr>)
        | None \<Rightarrow> import_loop B ts v)"

definition cdma_import_key :: "bit_trait \<Rightarrow> bytes \<Rightarrow> cdma_vault \<Rightarrow> bulk_key_id hsm_result \<times> cdma_vault" where
  "cdma_import_key B key_blob v =
     (if length key_blob \<noteq> CDMA_KEY_SIZE then (Err InvalidArgument, v)
      else import_loop B [0..<CDMA_TABLE_COUNT] v)"

definition cdma_delete_key :: "bit_trait \<Rightarrow> bulk_key_id \<Rightarrow> cdma_vault \<Rightarrow> unit hsm_result \<times> cdma_vault" where
  "cdma_delete_key B key_id v =
     (if \<not> cdma_valid_table v (vault_id key_id) then (Err InvalidKeyTableIndex, v)
      else let t = unat (vault_id key_id); k = unat (key_index key_id) in
        if \<not> bit_get B (cv_meta_data v ! t) k then (Err InvalidKeyIndex, v)
        else (Ok (), v\<lparr>cv_meta_data := (cv_meta_data v)[t := bit_set B (cv_meta_data v ! t) k False]\<rparr>))"

definition cdma_clear_table :: "bit_trait \<Rightarrow> nat \<Rightarrow> cdma_vault \<Rightarrow> cdma_vault" where
  "cdma_clear_table B t v =
     (if \<not> cdma_valid_table v (of_nat t) then v
      else v\<lparr>cv_meta_data := (cv_meta_data v)
        [t := fold (\<lambda>k availability. bit_set B availability k False) [0..<MAX_KEYS_PER_TABLE] (cv_meta_data v ! t)]\<rparr>)"

definition cdma_clear :: "bit_trait \<Rightarrow> cdma_vault \<Rightarrow> cdma_vault" where
  "cdma_clear B v = fold (cdma_clear_table B) [0..<CDMA_TABLE_COUNT] v"

definition get_key_entry :: "bit_trait \<Rightarrow> bulk_key_id \<Rightarrow> cdma_vault \<Rightarrow> (nat \<times> nat) hsm_result" where
  "get_key_entry B key_id v =
     (if \<not> cdma_valid_table v (vault_id key_id) then Err InvalidKeyIndex
      else if \<not> bit_get B (cv_meta_data v ! unat (vault_id key_id)) (unat (key_index key_id)) then Err InvalidKeyIndex
      else Ok (cv_base v + unat (vault_id key_id) * TOTAL_TABLE_SIZE + unat (key_index key_id) * CDMA_KEY_SIZE, CDMA_KEY_SIZE))"

section \<open>Slots\<close>

text \<open>
  The vault as a set of slots: those a partition owns, and those of them that hold a key. Ids come
  from a two-byte field, so that they are below 8 and 128.
\<close>

definition own_tables :: "cdma_vault \<Rightarrow> nat set" where
  "own_tables v = {t. t < CDMA_TABLE_COUNT \<and> bit (cv_mask v) t}"

definition taken :: "cdma_vault \<Rightarrow> (nat \<times> nat) set" where
  "taken v = {(t, k). t \<in> own_tables v \<and> k < MAX_KEYS_PER_TABLE \<and> bit (cv_meta_data v ! t) k}"

definition id_slot :: "bulk_key_id \<Rightarrow> nat \<times> nat" where
  "id_slot i = (unat (vault_id i), unat (key_index i))"

text \<open>The byte of an owned table uses seven bits.\<close>

definition cdma_wf :: "cdma_vault \<Rightarrow> bool" where
  "cdma_wf v \<longleftrightarrow> length (cv_meta_data v) = CDMA_TABLE_COUNT \<and> (\<forall>t \<in> own_tables v. \<not> bit (cv_meta_data v ! t) 7)"

lemma valid_table_iff: "cdma_valid_table v t \<longleftrightarrow> unat t \<in> own_tables v"
  by (auto simp: cdma_valid_table_def own_tables_def CDMA_TABLE_COUNT_def word_less_nat_alt bit_iff_and_push_bit_not_eq_0)

lemma find_slot_Some: "find_slot B m ks = Some k \<Longrightarrow> k \<in> set ks \<and> \<not> bit_get B m k"
  by (induction ks) (auto split: if_splits)

lemma find_slot_None: "find_slot B m ks = None \<longleftrightarrow> (\<forall>k \<in> set ks. bit_get B m k)"
  by (induction ks) auto

lemma small_u8: "n < 256 \<Longrightarrow> unat (of_nat n :: u8) = n"
  by (simp add: unat_of_nat)

lemma import_loop_cases:
  assumes "bit_trait_laws B" and "\<forall>t \<in> set ts. t < CDMA_TABLE_COUNT"
  obtains (found) t k where "t \<in> own_tables v" "k < MAX_KEYS_PER_TABLE" "\<not> bit (cv_meta_data v ! t) k"
      "import_loop B ts v = (Ok \<lparr>key_index = of_nat k, vault_id = of_nat t\<rparr>,
         v\<lparr>cv_meta_data := (cv_meta_data v)[t := bit_set B (cv_meta_data v ! t) k True]\<rparr>)"
  | (full) "import_loop B ts v = (Err ReachedMaxAesBulkKeys, v)"
      "\<forall>t \<in> set ts \<inter> own_tables v. \<forall>k < MAX_KEYS_PER_TABLE. bit (cv_meta_data v ! t) k"
  using assms(2)
proof (induction ts arbitrary: thesis)
  case Nil
  then show ?case by simp
next
  case (Cons t ts)
  have t: "unat (of_nat t :: u8) = t" using Cons.prems(3) by (simp add: CDMA_TABLE_COUNT_def small_u8)
  show ?case
  proof (cases "t \<in> own_tables v \<and> find_slot B (cv_meta_data v ! t) [0..<MAX_KEYS_PER_TABLE] \<noteq> None")
    case True
    then obtain k where k: "find_slot B (cv_meta_data v ! t) [0..<MAX_KEYS_PER_TABLE] = Some k" by auto
    then have "k < MAX_KEYS_PER_TABLE" "\<not> bit (cv_meta_data v ! t) k"
      using find_slot_Some [OF k] assms(1) by (auto simp: bit_trait_get MAX_KEYS_PER_TABLE_def)
    then show ?thesis using Cons.prems(1) True k t by (simp add: valid_table_iff Let_def)
  next
    case False
    then have skip: "import_loop B (t # ts) v = import_loop B ts v" by (auto simp: valid_table_iff t Let_def)
    have "\<forall>k < MAX_KEYS_PER_TABLE. bit (cv_meta_data v ! t) k" if "t \<in> own_tables v"
      using False that assms(1) by (auto simp: find_slot_None bit_trait_get MAX_KEYS_PER_TABLE_def)
    then show ?thesis using Cons.IH Cons.prems skip by auto
  qed
qed

text \<open>Writing one bit of an owned table.\<close>

lemma set_slot:
  fixes x :: bool
  assumes "bit_trait_laws B" and "cdma_wf v" and "t \<in> own_tables v" and "k < MAX_KEYS_PER_TABLE"
  defines "v' \<equiv> v\<lparr>cv_meta_data := (cv_meta_data v)[t := bit_set B (cv_meta_data v ! t) k x]\<rparr>"
  shows "taken v' = (if x then insert (t, k) (taken v) else taken v - {(t, k)})"
    and "cdma_wf v'" and "own_tables v' = own_tables v"
    and "\<forall>u. u \<notin> own_tables v \<longrightarrow> cv_meta_data v' ! u = cv_meta_data v ! u"
proof -
  have t: "t < length (cv_meta_data v)" using assms(2,3) by (simp add: cdma_wf_def own_tables_def)
  have bits: "bit (cv_meta_data v' ! u) j \<longleftrightarrow> (if u = t \<and> j = k then x else bit (cv_meta_data v ! u) j)" if "j < 8" for u j
    using t bit_trait_set [OF assms(1) _ that] assms(4) by (auto simp: v'_def MAX_KEYS_PER_TABLE_def nth_list_update)
  have own: "own_tables v' = own_tables v" by (simp add: v'_def own_tables_def)
  have "(u, j) \<in> taken v' \<longleftrightarrow> (u, j) \<in> (if x then insert (t, k) (taken v) else taken v - {(t, k)})" for u j
    using bits [of j u] own assms(3,4) by (cases "j < 8"; cases x; simp add: taken_def MAX_KEYS_PER_TABLE_def) blast+
  then show "taken v' = (if x then insert (t, k) (taken v) else taken v - {(t, k)})" by auto
  show "cdma_wf v'"
    using assms(2,4) bits [of 7] own by (simp add: cdma_wf_def MAX_KEYS_PER_TABLE_def) (simp add: v'_def)
  show "\<forall>u. u \<notin> own_tables v \<longrightarrow> cv_meta_data v' ! u = cv_meta_data v ! u"
  proof (intro allI impI)
    fix u assume "u \<notin> own_tables v"
    then have "u \<noteq> t" using assms(3) by auto
    then show "cv_meta_data v' ! u = cv_meta_data v ! u" by (simp add: v'_def)
  qed
qed (simp add: v'_def own_tables_def)

lemma clear_byte:
  assumes "bit_trait_laws B" and "\<forall>k \<in> set ks. k < 8" and "j < 8"
  shows "bit (fold (\<lambda>k m. bit_set B m k False) ks m) j \<longleftrightarrow> bit m j \<and> j \<notin> set ks"
  using assms(2) by (induction ks arbitrary: m) (auto simp: bit_trait_set [OF assms(1) _ assms(3)])

lemma clear_table:
  assumes "bit_trait_laws B" and "cdma_wf v" and "t < CDMA_TABLE_COUNT"
  shows "taken (cdma_clear_table B t v) = taken v - {t} \<times> UNIV" "cdma_wf (cdma_clear_table B t v)"
    "cv_mask (cdma_clear_table B t v) = cv_mask v" "\<forall>u. u \<notin> own_tables v \<longrightarrow> cv_meta_data (cdma_clear_table B t v) ! u = cv_meta_data v ! u"
proof -
  have t: "unat (of_nat t :: u8) = t" "t < length (cv_meta_data v)" using assms(2,3) by (simp_all add: small_u8 cdma_wf_def CDMA_TABLE_COUNT_def)
  note b = clear_byte [OF assms(1), of "[0..<MAX_KEYS_PER_TABLE]"]
  have own: "own_tables (cdma_clear_table B t v) = own_tables v" by (simp add: cdma_clear_table_def own_tables_def)
  have bits: "bit (cv_meta_data (cdma_clear_table B t v) ! u) j \<longleftrightarrow> bit (cv_meta_data v ! u) j \<and> \<not> (u = t \<and> j < MAX_KEYS_PER_TABLE)"
    if "j < 8" "u \<in> own_tables v" for u j
    using t b that by (simp add: cdma_clear_table_def valid_table_iff nth_list_update MAX_KEYS_PER_TABLE_def)
  show "taken (cdma_clear_table B t v) = taken v - {t} \<times> UNIV"
    using bits by (auto simp: taken_def own MAX_KEYS_PER_TABLE_def)
  show "cdma_wf (cdma_clear_table B t v)"
    using bits assms(2) by (simp add: cdma_wf_def own) (simp add: cdma_clear_table_def)
  show "\<forall>u. u \<notin> own_tables v \<longrightarrow> cv_meta_data (cdma_clear_table B t v) ! u = cv_meta_data v ! u"
    using t by (auto simp: cdma_clear_table_def valid_table_iff nth_list_update)
qed (simp add: cdma_clear_table_def)

lemma clear_tables:
  assumes "bit_trait_laws B" and "\<forall>t \<in> set ts. t < CDMA_TABLE_COUNT"
  shows "cdma_wf v \<Longrightarrow> taken (fold (cdma_clear_table B) ts v) = taken v - set ts \<times> UNIV \<and> cdma_wf (fold (cdma_clear_table B) ts v) \<and>
    (\<forall>u. u \<notin> own_tables v \<longrightarrow> cv_meta_data (fold (cdma_clear_table B) ts v) ! u = cv_meta_data v ! u)"
  using assms(2)
proof (induction ts arbitrary: v)
  case (Cons t ts)
  then have t: "t < CDMA_TABLE_COUNT" by simp
  have "own_tables (cdma_clear_table B t v) = own_tables v"
    using clear_table(3) [OF assms(1) Cons.prems(1) t] by (simp add: own_tables_def)
  then show ?case using Cons.IH [OF clear_table(2) [OF assms(1) Cons.prems(1) t]] Cons.prems(2) clear_table(1,4) [OF assms(1) Cons.prems(1) t]
    by auto
qed simp

section \<open>Property\<close>

text \<open>
  C23: The bulk-key slots are a set of its own for every partition. Importing a key takes a free slot
  of a table of the partition and fails only for a key of the wrong length or when all its slots
  are taken; deleting a key frees its slot and fails exactly if the id names no taken slot of the
  partition; clearing frees all. None of them changes the byte of a table of another partition.
\<close>

theorem cdma_slots:
  assumes "bit_trait_laws B" and "cdma_wf v" and "key_index i < 8"
  shows "(case cdma_import_key B blob v of
       (Ok j, v') \<Rightarrow> length blob = CDMA_KEY_SIZE \<and> id_slot j \<in> own_tables v \<times> {..<MAX_KEYS_PER_TABLE} - taken v \<and>
         taken v' = insert (id_slot j) (taken v) \<and> cdma_wf v' \<and> (\<forall>u. u \<notin> own_tables v \<longrightarrow> cv_meta_data v' ! u = cv_meta_data v ! u)
     | (Err e, v') \<Rightarrow> v' = v \<and> (if length blob = CDMA_KEY_SIZE
         then e = ReachedMaxAesBulkKeys \<and> taken v = own_tables v \<times> {..<MAX_KEYS_PER_TABLE} else e = InvalidArgument)
     | (Panic, _) \<Rightarrow> False) \<and>
    (case cdma_delete_key B i v of
       (Ok _, v') \<Rightarrow> id_slot i \<in> taken v \<and> taken v' = taken v - {id_slot i} \<and> cdma_wf v' \<and>
         (\<forall>u. u \<notin> own_tables v \<longrightarrow> cv_meta_data v' ! u = cv_meta_data v ! u)
     | (Err e, v') \<Rightarrow> v' = v \<and> id_slot i \<notin> taken v
     | (Panic, _) \<Rightarrow> False) \<and>
    taken (cdma_clear B v) = {} \<and> cdma_wf (cdma_clear B v) \<and>
    (\<forall>u. u \<notin> own_tables v \<longrightarrow> cv_meta_data (cdma_clear B v) ! u = cv_meta_data v ! u)"
    (is "?import \<and> ?delete \<and> ?clear")
proof (intro conjI)
  have tables: "\<forall>t \<in> set [0..<CDMA_TABLE_COUNT]. t < CDMA_TABLE_COUNT" by simp
  show ?import
  proof (cases rule: import_loop_cases [OF assms(1) tables, of v])
    case (1 t k)
    then have "id_slot \<lparr>key_index = of_nat k, vault_id = of_nat t\<rparr> = (t, k)"
      by (simp add: id_slot_def own_tables_def small_u8 CDMA_TABLE_COUNT_def MAX_KEYS_PER_TABLE_def)
    then show ?thesis using 1 set_slot [OF assms(1,2) 1(1,2), of True]
      by (auto simp: cdma_import_key_def taken_def)
  next
    case 2
    then show ?thesis by (auto simp: cdma_import_key_def taken_def own_tables_def)
  qed
  show ?delete
  proof (cases "id_slot i \<in> taken v")
    case True
    then have i: "unat (vault_id i) \<in> own_tables v" "unat (key_index i) < MAX_KEYS_PER_TABLE"
      "bit (cv_meta_data v ! unat (vault_id i)) (unat (key_index i))"
      by (auto simp: taken_def id_slot_def)
    then show ?thesis using True set_slot [OF assms(1,2) i(1,2), of False] assms(1)
      by (auto simp: cdma_delete_key_def valid_table_iff id_slot_def Let_def bit_trait_get MAX_KEYS_PER_TABLE_def)
  next
    case False
    have "unat (key_index i) < 8" using assms(3) by (simp add: word_less_nat_alt)
    then have "\<not> bit_get B (cv_meta_data v ! unat (vault_id i)) (unat (key_index i))" if "unat (vault_id i) \<in> own_tables v"
      using False that assms(1,2) by (cases "unat (key_index i) = 7")
        (auto simp: taken_def id_slot_def bit_trait_get cdma_wf_def MAX_KEYS_PER_TABLE_def)
    then show ?thesis using False by (auto simp: cdma_delete_key_def valid_table_iff Let_def)
  qed
  have "taken v - set [0..<CDMA_TABLE_COUNT] \<times> UNIV = {}" by (auto simp: taken_def own_tables_def)
  then show "taken (cdma_clear B v) = {}" "cdma_wf (cdma_clear B v)"
    "\<forall>u. u \<notin> own_tables v \<longrightarrow> cv_meta_data (cdma_clear B v) ! u = cv_meta_data v ! u"
    using clear_tables [OF assms(1) tables assms(2)] by (simp_all add: cdma_clear_def)
qed

theorem cdma_slots_witness:
  "let v = \<lparr>cv_base = 0, cv_mask = 2, cv_meta_data = replicate 65 0\<rparr> in
   id_slot (\<lparr>key_index = 0, vault_id = 1\<rparr>) \<notin> taken v \<and> taken (cdma_clear plain_bits v) = {} \<and>
   fst (cdma_import_key plain_bits (replicate 32 7) v) = Ok \<lparr>key_index = 0, vault_id = 1\<rparr> \<and>
   taken (snd (cdma_import_key plain_bits (replicate 32 7) v)) = insert (1, 0) (taken v)"
proof -
  define v where "v = \<lparr>cv_base = 0, cv_mask = 2, cv_meta_data = replicate 65 0\<rparr>"
  have wf: "cdma_wf v" by (auto simp: cdma_wf_def v_def own_tables_def CDMA_TABLE_COUNT_def)
  have tables: "[0..<CDMA_TABLE_COUNT] = 0 # 1 # [2..<65]" "[0..<MAX_KEYS_PER_TABLE] = 0 # [1..<7]"
    by (simp_all add: CDMA_TABLE_COUNT_def MAX_KEYS_PER_TABLE_def upt_rec)
  have imp: "fst (cdma_import_key plain_bits (replicate 32 7) v) = Ok \<lparr>key_index = 0, vault_id = 1\<rparr>"
    unfolding cdma_import_key_def tables
    by (simp add: CDMA_KEY_SIZE_def tables(2) cdma_valid_table_def v_def plain_bits_def Let_def) (simp add: CDMA_TABLE_COUNT_def)
  have "id_slot (\<lparr>key_index = 0, vault_id = 1\<rparr> :: bulk_key_id) = (1, 0)" by (simp add: id_slot_def)
  then show ?thesis
    using cdma_slots [OF plain_bits_laws wf, of "\<lparr>key_index = 0, vault_id = 1\<rparr>" "replicate 32 7"] imp
    by (cases "cdma_import_key plain_bits (replicate 32 7) v") (simp add: v_def [symmetric])
qed

end
