(* ===== verification/Cmd_Scheduler.thy ===== *)
theory Cmd_Scheduler
  imports Hsm_Prelude
begin

text \<open>
  The command scheduler (\<^verbatim>\<open>hsm/src/cmd_scheduler/scheduler.rs\<close>): it keeps the state machines of
  the commands in flight in slots, hands out tags, and delivers events, wake-ups, clean-ups and
  time-outs to them. It is generic in the state machine, which is the argument \<open>F\<close> with the
  functions of the trait \<^verbatim>\<open>CmdFsm\<close>. While it runs, a state machine changes whatever is shared:
  it may put tags into the two queues of the scheduler, and it changes the rest of the world.
\<close>

section \<open>State\<close>

record ('r, 'e, 'w) queues =
  ready_queue :: "(u16 \<times> 'r) list"
  cleanup_queue :: "(u16 \<times> 'e) list"
  world :: 'w

text \<open>The trait \<^verbatim>\<open>CmdFsm\<close>, with the destructor that runs when a state machine leaves its slot.\<close>

record ('f, 'r, 'e, 'w) cmd_fsm =
  fsm_on_event :: "'e \<Rightarrow> u16 \<Rightarrow> 'f \<Rightarrow> ('r, 'e, 'w) queues \<Rightarrow> unit hsm_result \<times> 'f \<times> ('r, 'e, 'w) queues"
  fsm_acquire_resource :: "u16 \<Rightarrow> 'r \<Rightarrow> 'f \<Rightarrow> 'e hsm_result \<times> 'f"
  fsm_drop :: "'f \<Rightarrow> ('r, 'e, 'w) queues \<Rightarrow> ('r, 'e, 'w) queues"

text \<open>
  \<^verbatim>\<open>CmdSchedulerImpl\<close> and the queues of \<^verbatim>\<open>CmdScheduler\<close>. The closure of a drain is opaque, and
  \<open>drained\<close> lists the closures that have been called, oldest first.
\<close>

record ('f, 'r, 'e, 'w, 'd) scheduler =
  cmd_slots :: "('f \<times> u16) option list"
  free_tags :: "u16 list"
  occupancy_list :: u128
  access_list :: u128
  fn_drain :: "'d option"
  drained :: "'d list"
  shared :: "('r, 'e, 'w) queues"

definition sched_new :: "nat \<Rightarrow> 'w \<Rightarrow> ('f, 'r, 'e, 'w, 'd) scheduler" where
  "sched_new cmd_count w =
     (let n = unat (of_nat cmd_count :: u16)
      in \<lparr>cmd_slots = replicate n None, free_tags = map of_nat [0..<n], occupancy_list = 0, access_list = 0,
          fn_drain = None, drained = [], shared = \<lparr>ready_queue = [], cleanup_queue = [], world = w\<rparr>\<rparr>)"

text \<open>\<open>1 << tag\<close> on 128 bits.\<close>

definition shl_one :: "nat \<Rightarrow> u128 hsm_result" where
  "shl_one i = (if i < 128 then Ok (push_bit i 1) else Panic)"

section \<open>Operations\<close>

definition alloc_static ::
  "'f \<Rightarrow> ('f, 'r, 'e, 'w, 'd) scheduler \<Rightarrow> u16 option hsm_result \<times> ('f, 'r, 'e, 'w, 'd) scheduler" where
  "alloc_static fsm s =
     (if free_tags s = [] then (Ok None, s)
      else let tag = last (free_tags s); s = s\<lparr>free_tags := butlast (free_tags s)\<rparr>
        in if unat tag < length (cmd_slots s)
           then (Ok (Some tag), s\<lparr>cmd_slots := (cmd_slots s)[unat tag := Some (fsm, tag)]\<rparr>)
           else (Panic, s))"

definition sched_alloc ::
  "'f \<Rightarrow> ('f, 'r, 'e, 'w, 'd) scheduler \<Rightarrow> u16 option hsm_result \<times> ('f, 'r, 'e, 'w, 'd) scheduler" where
  "sched_alloc fsm s =
     (if free_tags s = [] then (Ok None, s)
      else let tag = last (free_tags s); s = s\<lparr>free_tags := butlast (free_tags s)\<rparr>
        in if unat tag < length (cmd_slots s)
           then let s = s\<lparr>cmd_slots := (cmd_slots s)[unat tag := Some (fsm, tag)]\<rparr>
             in try_in (shl_one (unat tag)) s (\<lambda>b.
                  (Ok (Some tag), s\<lparr>occupancy_list := occupancy_list s OR b\<rparr>))
           else (Panic, s))"

text \<open>Taking the drain closure, if there is one, and calling it.\<close>

definition take_drain :: "('f, 'r, 'e, 'w, 'd) scheduler \<Rightarrow> ('f, 'r, 'e, 'w, 'd) scheduler" where
  "take_drain s = (case fn_drain s of None \<Rightarrow> s | Some d \<Rightarrow> s\<lparr>fn_drain := None, drained := drained s @ [d]\<rparr>)"

text \<open>The end of an event: a state machine that is done leaves its slot, a static one stays.\<close>

definition slot_retire ::
  "('f, 'r, 'e, 'w) cmd_fsm \<Rightarrow> nat \<Rightarrow> 'f \<Rightarrow> u16 \<Rightarrow> u128 \<Rightarrow> bool \<Rightarrow> ('f, 'r, 'e, 'w, 'd) scheduler \<Rightarrow>
     ('f, 'r, 'e, 'w, 'd) scheduler" where
  "slot_retire F index f tag b static_fsm s =
     (let s = (if static_fsm then s
               else s\<lparr>cmd_slots := (cmd_slots s)[index := None], free_tags := free_tags s @ [tag],
                      shared := fsm_drop F f (shared s)\<rparr>);
          s = s\<lparr>occupancy_list := occupancy_list s AND NOT b\<rparr>
      in if occupancy_list s = 0 then take_drain s else s)"

text \<open>\<^verbatim>\<open>CmdSlot::on_event\<close> of the slot with the given index.\<close>

definition slot_on_event ::
  "('f, 'r, 'e, 'w) cmd_fsm \<Rightarrow> 'e \<Rightarrow> nat \<Rightarrow> ('f, 'r, 'e, 'w, 'd) scheduler \<Rightarrow>
     unit hsm_result \<times> ('f, 'r, 'e, 'w, 'd) scheduler" where
  "slot_on_event F event index s =
     (case cmd_slots s ! index of
        None \<Rightarrow> (Ok (), s)
      | Some (fsm, tag) \<Rightarrow>
          try_in (shl_one (unat tag)) s (\<lambda>b.
          let s = s\<lparr>access_list := access_list s OR b\<rparr> in
          case fsm_on_event F event tag fsm (shared s) of (result, fsm, q) \<Rightarrow>
          let s = s\<lparr>cmd_slots := (cmd_slots s)[index := Some (fsm, tag)], shared := q\<rparr> in
          case result of
            Panic \<Rightarrow> (Panic, s)
          | Ok _ \<Rightarrow> (Ok (), slot_retire F index fsm tag b False s)
          | Err e \<Rightarrow> (Ok (), if e \<noteq> Pending then slot_retire F index fsm tag b (e = DrainReady) s else s)))"

definition impl_on_event ::
  "('f, 'r, 'e, 'w) cmd_fsm \<Rightarrow> 'e \<Rightarrow> u16 \<Rightarrow> ('f, 'r, 'e, 'w, 'd) scheduler \<Rightarrow>
     unit hsm_result \<times> ('f, 'r, 'e, 'w, 'd) scheduler" where
  "impl_on_event F event tag s =
     (if unat tag < length (cmd_slots s) then slot_on_event F event (unat tag) s else (Panic, s))"

definition on_cleanup ::
  "('f, 'r, 'e, 'w) cmd_fsm \<Rightarrow> u16 \<Rightarrow> 'e \<Rightarrow> ('f, 'r, 'e, 'w, 'd) scheduler \<Rightarrow>
     unit hsm_result \<times> ('f, 'r, 'e, 'w, 'd) scheduler" where
  "on_cleanup F tag event s =
     (if unat tag < length (cmd_slots s) then slot_on_event F event (unat tag) s else (Panic, s))"

definition on_ready ::
  "('f, 'r, 'e, 'w) cmd_fsm \<Rightarrow> u16 \<Rightarrow> 'r \<Rightarrow> ('f, 'r, 'e, 'w, 'd) scheduler \<Rightarrow>
     unit hsm_result \<times> ('f, 'r, 'e, 'w, 'd) scheduler" where
  "on_ready F tag res_id s =
     (let index = unat tag in
      if length (cmd_slots s) \<le> index then (Panic, s)
      else case cmd_slots s ! index of
        None \<Rightarrow> (Ok (), s)
      | Some (fsm, t) \<Rightarrow>
          (case fsm_acquire_resource F tag res_id fsm of (event, fsm) \<Rightarrow>
           let s = s\<lparr>cmd_slots := (cmd_slots s)[index := Some (fsm, t)]\<rparr> in
           try_in event s (\<lambda>event.
           try_in (shl_one index) s (\<lambda>b.
             slot_on_event F event index (s\<lparr>access_list := access_list s OR b\<rparr>)))))"

primrec run_cleanups ::
  "('f, 'r, 'e, 'w) cmd_fsm \<Rightarrow> (u16 \<times> 'e) list \<Rightarrow> ('f, 'r, 'e, 'w, 'd) scheduler \<Rightarrow>
     unit hsm_result \<times> ('f, 'r, 'e, 'w, 'd) scheduler" where
  "run_cleanups F [] = Pair (Ok ())"
| "run_cleanups F (x # xs) = then_op (on_cleanup F (fst x) (snd x)) (\<lambda>_. run_cleanups F xs)"

primrec run_ready ::
  "('f, 'r, 'e, 'w) cmd_fsm \<Rightarrow> (u16 \<times> 'r) list \<Rightarrow> ('f, 'r, 'e, 'w, 'd) scheduler \<Rightarrow>
     unit hsm_result \<times> ('f, 'r, 'e, 'w, 'd) scheduler" where
  "run_ready F [] = Pair (Ok ())"
| "run_ready F (x # xs) = then_op (on_ready F (fst x) (snd x)) (\<lambda>_. run_ready F xs)"

text \<open>
  \<^verbatim>\<open>CmdScheduler::on_event\<close>: the event, then the clean-ups and the wake-ups that were queued. Each
  queue is copied and emptied before its entries are run, so that what is queued meanwhile waits
  for the next event.
\<close>

definition sched_on_event ::
  "('f, 'r, 'e, 'w) cmd_fsm \<Rightarrow> 'e \<Rightarrow> u16 \<Rightarrow> ('f, 'r, 'e, 'w, 'd) scheduler \<Rightarrow>
     unit hsm_result \<times> ('f, 'r, 'e, 'w, 'd) scheduler" where
  "sched_on_event F event tag =
     then_op (impl_on_event F event tag) (\<lambda>_ s.
     then_op (run_cleanups F (cleanup_queue (shared s))) (\<lambda>_ s.
       run_ready F (ready_queue (shared s)) (s\<lparr>shared := (shared s)\<lparr>ready_queue := []\<rparr>\<rparr>))
     (s\<lparr>shared := (shared s)\<lparr>cleanup_queue := []\<rparr>\<rparr>))"

text \<open>The queues are reached without the rest of the scheduler.\<close>

definition sched_cleanup :: "'e \<Rightarrow> u16 \<Rightarrow> ('r, 'e, 'w) queues \<Rightarrow> ('r, 'e, 'w) queues" where
  "sched_cleanup event tag q = q\<lparr>cleanup_queue := cleanup_queue q @ [(tag, event)]\<rparr>"

definition sched_wakeup :: "u16 \<Rightarrow> 'r \<Rightarrow> ('r, 'e, 'w) queues \<Rightarrow> ('r, 'e, 'w) queues" where
  "sched_wakeup tag res_id q = q\<lparr>ready_queue := ready_queue q @ [(tag, res_id)]\<rparr>"

definition rsrc_ownership_transferred :: "'r \<Rightarrow> ('r, 'e, 'w) queues \<Rightarrow> bool" where
  "rsrc_ownership_transferred res_id q \<longleftrightarrow> (\<exists>entry \<in> set (ready_queue q). snd entry = res_id)"

text \<open>
  \<^verbatim>\<open>on_tick\<close>: the time-out goes to every slot whose bit differs between the two lists, lowest
  first.
\<close>

definition trailing_zeros :: "u128 \<Rightarrow> nat" where
  "trailing_zeros w = length (takeWhile (\<lambda>i. \<not> bit w i) [0..<128])"

lemma trailing_zeros:
  assumes "w \<noteq> 0"
  shows "trailing_zeros w < 128" "bit w (trailing_zeros w)" "i < trailing_zeros w \<Longrightarrow> \<not> bit w i"
proof -
  let ?P = "\<lambda>i. \<not> bit w i"
  obtain j where "bit w j" "j < 128" using assms by (auto simp: bit_eq_iff dest: bit_imp_le_length)
  then have "takeWhile ?P [0..<128] \<noteq> [0..<128]" by (auto simp: takeWhile_eq_all_conv)
  then show l: "trailing_zeros w < 128"
    unfolding trailing_zeros_def using length_takeWhile_le [of ?P "[0..<128]"] takeWhile_eq_take [of ?P "[0..<128]"]
    by (metis diff_zero le_neq_implies_less length_upt take_all order_refl)
  show "bit w (trailing_zeros w)"
    using nth_length_takeWhile [of ?P "[0..<128]"] l unfolding trailing_zeros_def by simp
  show "\<not> bit w i" if "i < trailing_zeros w"
    using nth_mem [of i "takeWhile ?P [0..<128]"] takeWhile_nth [of i ?P "[0..<128]"] set_takeWhileD that l
    unfolding trailing_zeros_def by fastforce
qed

lemma finite_bits: "finite {i. bit (w :: u128) i}"
  by (rule finite_subset [of _ "{..<128}"]) (auto dest: bit_imp_le_length)

lemma clear_bits:
  "i < 128 \<Longrightarrow> {j. bit (w AND NOT (2 ^ i) :: u128) j} = {j. bit w j} - {i}"
  by (auto simp: bit_and_iff bit_not_iff bit_exp_iff dest: bit_imp_le_length)

lemma clear_card:
  assumes "w \<noteq> 0"
  shows "card {i. bit (w AND NOT (push_bit (trailing_zeros w) 1)) i} < card {i. bit w i}"
  using card_Diff1_less [OF finite_bits, of "trailing_zeros w" w] trailing_zeros [OF assms]
  by (simp add: clear_bits del: card_Diff_insert card_Diff_singleton)

function tick_loop ::
  "('f, 'r, 'e, 'w) cmd_fsm \<Rightarrow> 'e \<Rightarrow> u128 \<Rightarrow> ('f, 'r, 'e, 'w, 'd) scheduler \<Rightarrow>
     unit hsm_result \<times> ('f, 'r, 'e, 'w, 'd) scheduler" where
  "tick_loop F event inactive_list s =
     (if inactive_list = 0 then (Ok (), s)
      else let index = trailing_zeros inactive_list in
        if length (cmd_slots s) \<le> index then (Panic, s)
        else then_op (slot_on_event F event index) (\<lambda>_ s.
          tick_loop F event (inactive_list AND NOT (push_bit index 1)) s) s)"
  by pat_completeness auto
termination
  by (relation "measure (\<lambda>(F, event, inactive_list, s). card {i. bit inactive_list i})")
     (use clear_card in auto)

text \<open>The same loop over a list of slots.\<close>

primrec visit_slots ::
  "('f, 'r, 'e, 'w) cmd_fsm \<Rightarrow> 'e \<Rightarrow> nat list \<Rightarrow> ('f, 'r, 'e, 'w, 'd) scheduler \<Rightarrow>
     unit hsm_result \<times> ('f, 'r, 'e, 'w, 'd) scheduler" where
  "visit_slots F e [] = Pair (Ok ())"
| "visit_slots F e (i # is) = then_op (slot_on_event F e i) (\<lambda>_. visit_slots F e is)"

definition on_tick ::
  "('f, 'r, 'e, 'w) cmd_fsm \<Rightarrow> 'e \<Rightarrow> ('f, 'r, 'e, 'w, 'd) scheduler \<Rightarrow>
     unit hsm_result \<times> ('f, 'r, 'e, 'w, 'd) scheduler" where
  "on_tick F timeout_event s =
     then_op (tick_loop F timeout_event (occupancy_list s XOR access_list s)) (\<lambda>_ s. (Ok (), s\<lparr>access_list := 0\<rparr>)) s"

definition sched_drain ::
  "'d \<Rightarrow> ('f, 'r, 'e, 'w, 'd) scheduler \<Rightarrow> unit hsm_result \<times> ('f, 'r, 'e, 'w, 'd) scheduler" where
  "sched_drain io_drain s =
     (if fn_drain s \<noteq> None then (Err DrainBusy, s)
      else (Ok (), if occupancy_list s = 0 then s\<lparr>drained := drained s @ [io_drain]\<rparr>
                   else s\<lparr>fn_drain := Some io_drain\<rparr>))"

declare tick_loop.simps [simp del]

section \<open>Invariant\<close>

text \<open>
  The tags that are free are the indices of the empty slots, a state machine carries the index of
  its slot, commands in flight are in slots, and a drain only waits while a command is in flight.
\<close>

definition sched_wf :: "('f, 'r, 'e, 'w, 'd) scheduler \<Rightarrow> bool" where
  "sched_wf s \<longleftrightarrow> length (cmd_slots s) \<le> 128 \<and> distinct (free_tags s) \<and>
     (\<forall>t. t \<in> set (free_tags s) \<longleftrightarrow> unat t < length (cmd_slots s) \<and> cmd_slots s ! unat t = None) \<and>
     (\<forall>i f t. i < length (cmd_slots s) \<longrightarrow> cmd_slots s ! i = Some (f, t) \<longrightarrow> unat t = i) \<and>
     (\<forall>i. bit (occupancy_list s) i \<longrightarrow> i < length (cmd_slots s) \<and> cmd_slots s ! i \<noteq> None) \<and>
     (\<forall>i. bit (access_list s) i \<longrightarrow> i < length (cmd_slots s)) \<and>
     (fn_drain s \<noteq> None \<longrightarrow> occupancy_list s \<noteq> 0)"

text \<open>The drains that were accepted: the ones called, and the one that waits.\<close>

definition drains :: "('f, 'r, 'e, 'w, 'd) scheduler \<Rightarrow> 'd list" where
  "drains s = drained s @ (case fn_drain s of None \<Rightarrow> [] | Some d \<Rightarrow> [d])"

text \<open>
  What delivering events does to a scheduler: it stays well formed, no drain is lost or called
  twice, and one that is called leaves no command in flight.
\<close>

definition delivers :: "('f, 'r, 'e, 'w, 'd) scheduler \<Rightarrow> ('f, 'r, 'e, 'w, 'd) scheduler \<Rightarrow> bool" where
  "delivers s s' \<longleftrightarrow> sched_wf s \<longrightarrow> sched_wf s' \<and> length (cmd_slots s') = length (cmd_slots s) \<and>
     drains s' = drains s \<and> (drained s' = drained s \<or> occupancy_list s' = 0) \<and>
     (occupancy_list s = 0 \<longrightarrow> occupancy_list s' = 0)"

lemma delivers_refl [simp, intro]: "delivers s s"
  by (simp add: delivers_def)

lemma delivers_trans [trans]: "delivers s t \<Longrightarrow> delivers t u \<Longrightarrow> delivers s u"
  by (auto simp: delivers_def)

lemma delivers_shared [simp]: "delivers s (s\<lparr>shared := q\<rparr>)"
  by (simp add: delivers_def sched_wf_def drains_def)

lemma delivers_then_op:
  assumes "delivers s (snd (m s))" and "\<And>x t. delivers t (snd (k x t))"
  shows "delivers s (snd (then_op m k s))"
  using assms(1) delivers_trans [OF assms(1) assms(2)]
  by (cases "m s"; cases "fst (m s)") (auto simp: then_op_def)

lemma bit_shl [simp]: "i < 128 \<Longrightarrow> bit (2 ^ i :: u128) j \<longleftrightarrow> j = i"
  by (auto simp: bit_exp_iff)

lemma delivers_slot:
  assumes "i < length (cmd_slots s)" and "cmd_slots s ! i = Some (f, t)"
  shows "delivers s (s\<lparr>cmd_slots := (cmd_slots s)[i := Some (f', t)]\<rparr>)"
  using assms by (auto simp: delivers_def sched_wf_def drains_def nth_list_update)

lemma delivers_access:
  assumes "i < length (cmd_slots s)"
  shows "delivers s (s\<lparr>access_list := access_list s OR 2 ^ i\<rparr>)"
  using assms by (auto simp: delivers_def sched_wf_def drains_def bit_or_iff)

lemma delivers_take_drain:
  assumes "sched_wf s \<Longrightarrow> sched_wf (take_drain t)" and "length (cmd_slots t) = length (cmd_slots s)"
    and "occupancy_list t = 0" and "drains t = drains s"
  shows "delivers s (take_drain t)"
  using assms by (auto simp: delivers_def take_drain_def drains_def split: option.splits)

lemma retire_delivers:
  assumes "i < length (cmd_slots s)" and "cmd_slots s ! i = Some (f, t)"
  shows "delivers s (slot_retire F i f' t (2 ^ i) st s)"
proof -
  define u where "u = (if st then s else s\<lparr>cmd_slots := (cmd_slots s)[i := None], free_tags := free_tags s @ [t],
      shared := fsm_drop F f' (shared s)\<rparr>)\<lparr>occupancy_list := occupancy_list s AND NOT (2 ^ i)\<rparr>"
  have eq: "slot_retire F i f' t (2 ^ i) st s = (if occupancy_list u = 0 then take_drain u else u)"
    by (simp add: slot_retire_def u_def Let_def)
  have len: "length (cmd_slots u) = length (cmd_slots s)" and dr: "drains u = drains s" "drained u = drained s"
    "fn_drain u = fn_drain s"
    by (simp_all add: u_def drains_def)
  have wf: "sched_wf (take_drain u)" "occupancy_list u \<noteq> 0 \<Longrightarrow> sched_wf u" if wf: "sched_wf s"
  proof -
    have "unat t = i" "i < 128" using that assms by (auto simp: sched_wf_def)
    then have *: "sched_wf (u\<lparr>fn_drain := None\<rparr>)"
      using that assms \<open>unat t = i\<close> \<open>i < 128\<close>
      by (auto simp: sched_wf_def u_def nth_list_update bit_and_iff bit_not_iff word_unat_eq_iff)
    then show "sched_wf (take_drain u)"
      by (cases "fn_drain u") (simp_all add: take_drain_def sched_wf_def)
    show "sched_wf u" if "occupancy_list u \<noteq> 0" using * that by (simp add: sched_wf_def)
  qed
  show ?thesis
  proof (cases "occupancy_list u = 0")
    case True
    then show ?thesis using delivers_take_drain [of s u] wf(1) len dr by (simp add: eq)
  next
    case False
    moreover have "occupancy_list s \<noteq> 0" using False by (auto simp: u_def)
    ultimately show ?thesis using wf(2) len dr by (simp add: eq delivers_def)
  qed
qed

lemma slot_on_event_delivers:
  assumes "i < length (cmd_slots s)"
  shows "delivers s (snd (slot_on_event F e i s))"
proof (cases "cmd_slots s ! i")
  case None
  then show ?thesis by (simp add: slot_on_event_def)
next
  case (Some a)
  then obtain f t where ft: "cmd_slots s ! i = Some (f, t)" by (cases a) auto
  show ?thesis
  proof (cases "sched_wf s")
    case False
    then show ?thesis by (simp add: delivers_def)
  next
    case True
    then have t: "unat t = i" "i < 128" using assms ft by (auto simp: sched_wf_def)
    define s1 where "s1 = s\<lparr>access_list := access_list s OR 2 ^ i\<rparr>"
    obtain r f' q where r: "fsm_on_event F e t f (shared s) = (r, f', q)" by (metis prod_cases3)
    define s2 where "s2 = s1\<lparr>cmd_slots := (cmd_slots s)[i := Some (f', t)], shared := q\<rparr>"
    have d: "delivers s s2"
    proof -
      have "delivers s s1" unfolding s1_def by (rule delivers_access [OF assms])
      also have "delivers s1 (s1\<lparr>cmd_slots := (cmd_slots s1)[i := Some (f', t)]\<rparr>)"
        using assms ft by (intro delivers_slot) (simp_all add: s1_def)
      also have "delivers (s1\<lparr>cmd_slots := (cmd_slots s1)[i := Some (f', t)]\<rparr>) s2"
        by (simp add: s2_def s1_def del: delivers_shared) (rule delivers_shared)
      finally show ?thesis .
    qed
    have s2: "i < length (cmd_slots s2)" "cmd_slots s2 ! i = Some (f', t)" using assms by (simp_all add: s2_def)
    have "snd (slot_on_event F e i s) = s2 \<or> (\<exists>st. snd (slot_on_event F e i s) = slot_retire F i f' t (2 ^ i) st s2)"
      using ft t r by (auto simp: slot_on_event_def shl_one_def s1_def s2_def Let_def split: outcome.splits)
    then show ?thesis using d delivers_trans [OF d retire_delivers [OF s2]] by auto
  qed
qed

lemma event_delivers:
  "delivers s (snd (impl_on_event F e tag s))" "delivers s (snd (on_cleanup F tag e s))"
  by (simp_all add: impl_on_event_def on_cleanup_def slot_on_event_delivers)

lemma on_ready_delivers: "delivers s (snd (on_ready F tag res s))"
proof (cases "unat tag < length (cmd_slots s)")
  case True
  show ?thesis
  proof (cases "cmd_slots s ! unat tag")
    case None
    then show ?thesis by (simp add: on_ready_def Let_def)
  next
    case (Some a)
    then obtain f t where ft: "cmd_slots s ! unat tag = Some (f, t)" by (cases a) auto
    obtain r f' where r: "fsm_acquire_resource F tag res f = (r, f')" by fastforce
    let ?i = "unat tag"
    let ?s = "s\<lparr>cmd_slots := (cmd_slots s)[?i := Some (f', t)]\<rparr>"
    let ?t = "?s\<lparr>access_list := access_list ?s OR 2 ^ ?i\<rparr>"
    have d: "delivers s ?s" by (rule delivers_slot [OF True ft])
    have "delivers ?s ?t" using True by (intro delivers_access) simp
    moreover have "delivers ?t (snd (slot_on_event F e ?i ?t))" for e using True by (intro slot_on_event_delivers) simp
    ultimately have "delivers s (snd (slot_on_event F e ?i ?t))" for e using d by (blast intro: delivers_trans)
    then show ?thesis
      using True d by (cases r) (auto simp: on_ready_def ft r shl_one_def Let_def)
  qed
qed (simp add: on_ready_def Let_def)

lemma queue_delivers:
  "delivers s (snd (run_cleanups F xs s))" "delivers s (snd (run_ready F ys s))"
proof -
  show "delivers s (snd (run_cleanups F xs s))"
    by (induction xs arbitrary: s) (simp, unfold run_cleanups.simps, blast intro: delivers_then_op event_delivers)
  show "delivers s (snd (run_ready F ys s))"
    by (induction ys arbitrary: s) (simp, unfold run_ready.simps, blast intro: delivers_then_op on_ready_delivers)
qed

lemma sched_on_event_delivers: "delivers s (snd (sched_on_event F e tag s))"
  unfolding sched_on_event_def
  by (rule delivers_then_op, rule event_delivers(1), rule delivers_trans, rule delivers_shared, rule delivers_then_op,
      rule queue_delivers(1), rule delivers_trans, rule delivers_shared, rule queue_delivers(2))

lemma tick_loop_delivers: "delivers s (snd (tick_loop F e w s))"
proof (induction F e w s rule: tick_loop.induct)
  case (1 F e w s)
  show ?case
    using "1.IH" by (subst tick_loop.simps) (auto simp: Let_def intro!: delivers_then_op slot_on_event_delivers)
qed

lemma on_tick_delivers: "delivers s (snd (on_tick F e s))"
  unfolding on_tick_def
  by (rule delivers_then_op [OF tick_loop_delivers]) (simp add: delivers_def sched_wf_def drains_def)

section \<open>Runs\<close>

text \<open>Every sequence of calls, with anything happening to the shared part between them.\<close>

datatype ('f, 'r, 'e, 'w, 'd) sched_call =
    Call_Alloc 'f
  | Call_Alloc_Static 'f
  | Call_Event 'e u16
  | Call_Tick 'e
  | Call_Drain 'd
  | Call_Outside "('r, 'e, 'w) queues"

primrec sched_exec ::
  "('f, 'r, 'e, 'w) cmd_fsm \<Rightarrow> ('f, 'r, 'e, 'w, 'd) sched_call \<Rightarrow> ('f, 'r, 'e, 'w, 'd) scheduler \<Rightarrow>
     ('f, 'r, 'e, 'w, 'd) scheduler" where
  "sched_exec F (Call_Alloc f) s = snd (sched_alloc f s)"
| "sched_exec F (Call_Alloc_Static f) s = snd (alloc_static f s)"
| "sched_exec F (Call_Event e tag) s = snd (sched_on_event F e tag s)"
| "sched_exec F (Call_Tick e) s = snd (on_tick F e s)"
| "sched_exec F (Call_Drain d) s = snd (sched_drain d s)"
| "sched_exec F (Call_Outside q) s = s\<lparr>shared := q\<rparr>"

primrec sched_run ::
  "('f, 'r, 'e, 'w) cmd_fsm \<Rightarrow> ('f, 'r, 'e, 'w, 'd) sched_call list \<Rightarrow> ('f, 'r, 'e, 'w, 'd) scheduler \<Rightarrow>
     ('f, 'r, 'e, 'w, 'd) scheduler" where
  "sched_run F [] s = s"
| "sched_run F (c # cs) s = sched_run F cs (sched_exec F c s)"

text \<open>The drains a run accepts.\<close>

primrec accepted_drains ::
  "('f, 'r, 'e, 'w) cmd_fsm \<Rightarrow> ('f, 'r, 'e, 'w, 'd) sched_call list \<Rightarrow> ('f, 'r, 'e, 'w, 'd) scheduler \<Rightarrow> 'd list" where
  "accepted_drains F [] s = []"
| "accepted_drains F (c # cs) s =
     (case c of Call_Drain d \<Rightarrow> if fst (sched_drain d s) = Ok () then [d] else [] | _ \<Rightarrow> []) @
     accepted_drains F cs (sched_exec F c s)"

lemma last_butlast_facts:
  assumes "xs \<noteq> []" and "distinct xs"
  shows "last xs \<in> set xs" "set (butlast xs) = set xs - {last xs}" "distinct (butlast xs)"
  using assms by (cases xs rule: rev_cases; auto)+

text \<open>The scheduler after \<open>t\<close> was taken from the free tags for \<open>f\<close>.\<close>

abbreviation put_fsm :: "'f \<Rightarrow> u16 \<Rightarrow> ('f, 'r, 'e, 'w, 'd) scheduler \<Rightarrow> ('f, 'r, 'e, 'w, 'd) scheduler" where
  "put_fsm f t s \<equiv> s\<lparr>free_tags := butlast (free_tags s), cmd_slots := (cmd_slots s)[unat t := Some (f, t)]\<rparr>"

lemma wf_occupancy:
  "sched_wf s \<Longrightarrow> (\<And>i. bit w i \<Longrightarrow> i < length (cmd_slots s) \<and> cmd_slots s ! i \<noteq> None) \<Longrightarrow> w \<noteq> 0 \<Longrightarrow>
     sched_wf (s\<lparr>occupancy_list := w\<rparr>)"
  by (simp add: sched_wf_def)

lemma alloc_tag:
  assumes wf: "sched_wf s" and ne: "free_tags s \<noteq> []" and t: "t = last (free_tags s)"
  shows "unat t < length (cmd_slots s)" "cmd_slots s ! unat t = None"
    "sched_alloc f s = (Ok (Some t), (put_fsm f t s)\<lparr>occupancy_list := occupancy_list s OR 2 ^ unat t\<rparr>)"
    "alloc_static f s = (Ok (Some t), put_fsm f t s)"
    "sched_wf (put_fsm f t s)" "sched_wf ((put_fsm f t s)\<lparr>occupancy_list := occupancy_list s OR 2 ^ unat t\<rparr>)"
proof -
  have d: "distinct (free_tags s)" using wf by (simp add: sched_wf_def)
  note lb = last_butlast_facts [OF ne d, folded t]
  show l: "unat t < length (cmd_slots s)" "cmd_slots s ! unat t = None"
    using lb(1) wf by (auto simp: sched_wf_def)
  have "length (cmd_slots s) \<le> 128" using wf by (simp add: sched_wf_def)
  then have "unat t < 128" using l by simp
  then show "sched_alloc f s = (Ok (Some t), (put_fsm f t s)\<lparr>occupancy_list := occupancy_list s OR 2 ^ unat t\<rparr>)"
    using l ne t by (simp add: sched_alloc_def Let_def shl_one_def)
  show "alloc_static f s = (Ok (Some t), put_fsm f t s)" using l ne t by (simp add: alloc_static_def Let_def)
  show wf1: "sched_wf (put_fsm f t s)"
    using wf lb l by (auto simp: sched_wf_def nth_list_update word_unat_eq_iff)
  have b: "bit (occupancy_list s OR 2 ^ unat t) i \<longleftrightarrow> bit (occupancy_list s) i \<or> i = unat t" for i
    using \<open>unat t < 128\<close> by (simp add: bit_or_iff)
  then have "occupancy_list s OR 2 ^ unat t \<noteq> 0" by (metis bit_0_eq bot2E bot_apply bot_bool_def)
  then show "sched_wf ((put_fsm f t s)\<lparr>occupancy_list := occupancy_list s OR 2 ^ unat t\<rparr>)"
    using wf l b by (intro wf_occupancy wf1) (auto simp: nth_list_update sched_wf_def)
qed

lemma alloc_full: "free_tags s = [] \<Longrightarrow> sched_alloc f s = (Ok None, s)" "free_tags s = [] \<Longrightarrow> alloc_static f s = (Ok None, s)"
  by (simp_all add: sched_alloc_def alloc_static_def)

lemma exec_step:
  assumes wf: "sched_wf s"
  shows "sched_wf (sched_exec F c s) \<and> length (cmd_slots (sched_exec F c s)) = length (cmd_slots s) \<and>
    drains (sched_exec F c s) = drains s @ accepted_drains F [c] s \<and>
    (drained (sched_exec F c s) = drained s \<or> occupancy_list (sched_exec F c s) = 0)"
proof (cases c)
  case (Call_Alloc f)
  then show ?thesis
    using wf alloc_tag(3-6) [OF wf _ refl, of f] alloc_full [of s f] by (cases "free_tags s = []") (simp_all add: drains_def)
next
  case (Call_Alloc_Static f)
  then show ?thesis
    using wf alloc_tag(3-6) [OF wf _ refl, of f] alloc_full [of s f] by (cases "free_tags s = []") (simp_all add: drains_def)
next
  case (Call_Event e tag)
  then show ?thesis using wf sched_on_event_delivers [of s F e tag] by (simp add: delivers_def)
next
  case (Call_Tick e)
  then show ?thesis using wf on_tick_delivers [of s F e] by (simp add: delivers_def)
next
  case (Call_Drain d)
  then show ?thesis
    using wf by (cases "fn_drain s") (auto simp: sched_drain_def drains_def sched_wf_def)
next
  case (Call_Outside q)
  then show ?thesis using wf delivers_shared [of s q] by (simp add: delivers_def)
qed

lemma sched_new_wf:
  assumes "n \<le> 128"
  shows "sched_wf (sched_new n w)" "length (cmd_slots (sched_new n w)) = n"
proof -
  have n: "unat (of_nat n :: u16) = n" using assms by (simp add: unat_of_nat)
  have inj: "inj_on (of_nat :: nat \<Rightarrow> u16) {0..<n}"
    using assms by (auto simp: inj_on_def word_of_nat_eq_iff take_bit_nat_eq_self)
  have "(t :: u16) \<in> of_nat ` {0..<n} \<longleftrightarrow> unat t < n" for t
    using assms by (auto simp: unat_of_nat intro: image_eqI [of _ _ "unat t"])
  then show "sched_wf (sched_new n w)" using assms inj by (auto simp: sched_wf_def sched_new_def n distinct_map)
  show "length (cmd_slots (sched_new n w)) = n" by (simp add: sched_new_def n)
qed

lemma drains_new [simp]: "drains (sched_new n w) = []"
  by (simp add: drains_def sched_new_def Let_def)

lemma run_facts:
  assumes "sched_wf s"
  shows "sched_wf (sched_run F cs s) \<and> length (cmd_slots (sched_run F cs s)) = length (cmd_slots s) \<and>
    drains (sched_run F cs s) = drains s @ accepted_drains F cs s"
  using assms
proof (induction cs arbitrary: s)
  case (Cons c cs)
  then show ?case using exec_step [OF Cons.prems, of F c] Cons.IH [of "sched_exec F c s"] by simp
qed simp

text \<open>A state machine that is done after as many events as its state says.\<close>

definition countdown :: "(nat, unit, unit, unit) cmd_fsm" where
  "countdown = \<lparr>fsm_on_event = (\<lambda>e tag f q. (if f \<le> 1 then Ok () else Err Pending, f - 1, q)),
     fsm_acquire_resource = (\<lambda>tag r f. (Ok (), f)), fsm_drop = (\<lambda>f q. q)\<rparr>"

lemma slot_on_event_length: "length (cmd_slots (snd (slot_on_event F e i s))) = length (cmd_slots s)"
  by (auto simp: slot_on_event_def shl_one_def slot_retire_def take_drain_def Let_def split: option.splits outcome.splits prod.splits)

lemma lowest_bit_first:
  assumes "w \<noteq> 0" and "\<And>i. bit w i \<Longrightarrow> i < n"
  shows "filter (bit w) [0..<n] = trailing_zeros w # filter (bit (w AND NOT (2 ^ trailing_zeros w))) [0..<n]"
proof -
  let ?t = "trailing_zeros w" and ?w = "w AND NOT (2 ^ trailing_zeros w)"
  note t = trailing_zeros [OF assms(1)]
  have w: "bit ?w i \<longleftrightarrow> bit w i \<and> i \<noteq> ?t" for i using clear_bits [OF t(1), of w] by auto
  have n: "[0..<n] = [0..<?t] @ ?t # [Suc ?t..<n]"
    using assms(2) [OF t(2)] by (metis le_add_same_cancel1 less_imp_le_nat upt_add_eq_append upt_conv_Cons le0 le_iff_add)
  have "filter (bit ?w) [Suc ?t..<n] = filter (bit w) [Suc ?t..<n]" by (rule filter_cong) (auto simp: w)
  moreover have "filter (bit w) [0..<?t] = []" "filter (bit ?w) [0..<?t] = []" using t(3) by (auto simp: filter_empty_conv w)
  ultimately show ?thesis using t(2) by (simp add: n w)
qed

lemma tick_loop_visits:
  fixes s :: "('f, 'r, 'e, 'w, 'd) scheduler"
  assumes "\<And>i. bit w i \<Longrightarrow> i < length (cmd_slots s)"
  shows "tick_loop F e w s = visit_slots F e (filter (bit w) [0..<length (cmd_slots s)]) s"
  using assms
proof (induction F e w s rule: tick_loop.induct)
  case (1 F e w s)
  show ?case
  proof (cases "w = 0")
    case False
    let ?t = "trailing_zeros w" and ?w = "w AND NOT (2 ^ trailing_zeros w)"
    have t: "?t < length (cmd_slots s)" by (rule "1.prems" [OF trailing_zeros(2) [OF False]])
    have "tick_loop F e ?w t = visit_slots F e (filter (bit ?w) [0..<length (cmd_slots s)]) t"
      if "length (cmd_slots t) = length (cmd_slots s)" for t :: "('f, 'r, 'e, 'w, 'd) scheduler"
      using "1.IH" [OF False refl, of t] t "1.prems" clear_bits [OF trailing_zeros(1) [OF False], of w] that by auto
    note ih = this
    obtain r u where r: "slot_on_event F e ?t s = (r, u)" by fastforce
    then have "length (cmd_slots u) = length (cmd_slots s)" using slot_on_event_length [of F e ?t s] by simp
    then show ?thesis
      using False t lowest_bit_first [OF False "1.prems"] ih [of u] r
      by (subst tick_loop.simps) (cases r; simp add: Let_def)
  qed (simp add: tick_loop.simps filter_empty_conv)
qed

section \<open>Properties\<close>

text \<open>
  C17: Tags are never shared. After any sequence of calls the state machine in a slot carries the
  index of the slot as its tag, the free tags are exactly those of the empty slots, each listed
  once, and commands in flight are in slots. So a new command gets the tag of an empty slot, and is
  turned away only when all slots are taken.
\<close>

theorem tags_exclusive:
  assumes "n \<le> 128" and "s = sched_run F cs (sched_new n w)"
  shows "length (cmd_slots s) = n \<and> distinct (free_tags s) \<and>
    (\<forall>t. t \<in> set (free_tags s) \<longleftrightarrow> unat t < n \<and> cmd_slots s ! unat t = None) \<and>
    (\<forall>i < n. \<forall>f t. cmd_slots s ! i = Some (f, t) \<longrightarrow> unat t = i) \<and>
    (\<forall>i. bit (occupancy_list s) i \<longrightarrow> i < n \<and> cmd_slots s ! i \<noteq> None) \<and>
    (case sched_alloc f s of (r, s') \<Rightarrow>
       if (\<forall>i < n. cmd_slots s ! i \<noteq> None) then r = Ok None \<and> s' = s
       else \<exists>t. r = Ok (Some t) \<and> unat t < n \<and> cmd_slots s ! unat t = None \<and>
         cmd_slots s' = (cmd_slots s)[unat t := Some (f, t)] \<and> bit (occupancy_list s') (unat t))"
proof -
  have wf: "sched_wf s" "length (cmd_slots s) = n"
    using run_facts [OF sched_new_wf(1) [OF assms(1)], where F = F and cs = cs] sched_new_wf(2) [OF assms(1)] assms(2)
    by simp_all
  have tags: "t \<in> set (free_tags s) \<longleftrightarrow> unat t < n \<and> cmd_slots s ! unat t = None" for t
    using wf by (simp add: sched_wf_def)
  have small: "unat (of_nat i :: u16) = i" if "i < n" for i using that assms(1) by (simp add: unat_of_nat)
  have full: "free_tags s = [] \<longleftrightarrow> (\<forall>i < n. cmd_slots s ! i \<noteq> None)"
    using tags small by (metis list.set_intros(1) empty_iff list.exhaust list.set(1))
  have "case sched_alloc f s of (r, s') \<Rightarrow>
       if (\<forall>i < n. cmd_slots s ! i \<noteq> None) then r = Ok None \<and> s' = s
       else \<exists>t. r = Ok (Some t) \<and> unat t < n \<and> cmd_slots s ! unat t = None \<and>
         cmd_slots s' = (cmd_slots s)[unat t := Some (f, t)] \<and> bit (occupancy_list s') (unat t)"
  proof (cases "free_tags s = []")
    case True
    then show ?thesis using alloc_full(1) [of s f] full by simp
  next
    case False
    note a = alloc_tag(1,2) [OF wf(1) False refl] alloc_tag(3) [OF wf(1) False refl, of f]
    have "unat (last (free_tags s)) < 128" using a(1) wf(2) assms(1) by simp
    then show ?thesis using a(1-3) False full wf(2) by (auto simp: bit_or_iff)
  qed
  then show ?thesis using wf tags by (auto simp: sched_wf_def)
qed

theorem tags_exclusive_witness:
  "length (cmd_slots (sched_run countdown [Call_Alloc 1, Call_Event () 33] (sched_new 34 ()))) = 34"
proof -
  have "(34 :: nat) \<le> 128" by simp
  from tags_exclusive [OF this refl, of countdown "[Call_Alloc 1, Call_Event () 33]" "()"] show ?thesis
    by (rule conjunct1)
qed



text \<open>
  C19: A tick ends and visits each quiet slot once. The loop of a tick runs through the slots whose
  bits differ between the two lists, in ascending order and each once, so it ends after at most
  as many rounds as there are slots. A command in flight gets the time-out exactly if it has
  handled no event since the last tick; a static state machine, which is never in the occupancy
  list, gets it exactly if it has.
\<close>

theorem tick_visits_once:
  assumes "sched_wf s"
  defines "visited \<equiv> filter (\<lambda>i. bit (occupancy_list s) i \<noteq> bit (access_list s) i) [0..<length (cmd_slots s)]"
  shows "on_tick F e s = then_op (visit_slots F e visited) (\<lambda>_ s. (Ok (), s\<lparr>access_list := 0\<rparr>)) s \<and>
    sorted visited \<and> distinct visited \<and> length visited \<le> length (cmd_slots s)"
proof -
  have lim: "i < length (cmd_slots s)" if "bit (occupancy_list s XOR access_list s) i" for i
    using assms(1) that by (auto simp: sched_wf_def bit_xor_iff)
  have "visited = filter (bit (occupancy_list s XOR access_list s)) [0..<length (cmd_slots s)]"
    by (auto simp: visited_def bit_xor_iff intro!: filter_cong)
  then show ?thesis
    using tick_loop_visits [where w = "occupancy_list s XOR access_list s", OF lim] length_filter_le [of _ "[0..<length (cmd_slots s)]"]
    by (simp add: on_tick_def then_op_def sorted_wrt_filter)
qed

theorem tick_visits_once_witness:
  "let s = sched_run countdown [Call_Alloc 3, Call_Alloc 2] (sched_new 2 ()) :: (nat, unit, unit, unit, unit) scheduler
   in on_tick countdown () s = then_op (visit_slots countdown () [0, 1]) (\<lambda>_ s. (Ok (), s\<lparr>access_list := 0\<rparr>)) s"
proof -
  let ?s = "sched_run countdown [Call_Alloc 3, Call_Alloc (2 :: nat)] (sched_new 2 ()) :: (nat, unit, unit, unit, unit) scheduler"
  have "(2 :: nat) \<le> 128" by simp
  then have "sched_wf ?s" using run_facts [OF sched_new_wf(1)] by meson
  have two: "[0..<2] = [0, 1 :: nat]" by (simp add: numeral_2_eq_2)
  have "occupancy_list ?s = 3" "access_list ?s = 0" "length (cmd_slots ?s) = 2"
    by (simp_all add: sched_new_def sched_alloc_def shl_one_def two Let_def)
  with \<open>sched_wf ?s\<close> show ?thesis
    using tick_visits_once [of ?s countdown "()"] by (simp add: two Let_def del: sched_run.simps)
qed

end
