(* ===== verification/Cmd_Resource.thy ===== *)
theory Cmd_Resource
  imports Cmd_Scheduler
begin

text \<open>
  Resources that commands wait for (\<^verbatim>\<open>hsm/src/cmd_scheduler/resource.rs\<close>): the big-number
  engines and the channels to the other cores (\<^verbatim>\<open>hsm/src/resource\<close>), the queue of waiting tags,
  and the state machine that wipes an engine before it is used again
  (\<^verbatim>\<open>hsm/src/fsm/res_cleanup_fsm.rs\<close>). The contract \<open>resource_pool\<close> says what an implementation of
  the trait \<^verbatim>\<open>CmdResourceInfo\<close> promises; the engines and the channels meet it, and under it no
  instance is ever held twice.
\<close>

section \<open>Events and resources\<close>

datatype res_id = Res_Pka | Res_FpIpcChannel | Res_HspIpcChannel | Res_HsmToAdminIpcChannel

datatype (plugins only: code size) fsm_event =
    RxReady | TxComplete | DmaComplete | StartCmd | Flr | AdminToHsmIpcRequest | FpToHsmIpcResponse
  | HspToHsmIpcResponse | AdminToHsmIpcResponse | PkaDone nat | PkaError nat | ResourceReady res_id
  | TimerElapsed | CheckAlive | SoftAesResp | SelfTestRequest | ResourceCleanup res_id nat
  | InitPartition bytes | FpToHsmIpcRequest | UnknownEvent

text \<open>The trait \<^verbatim>\<open>CmdResourceInfo\<close>; a default that is not implemented panics.\<close>

record ('i, 'c) resource_info =
  ri_id :: res_id
  ri_count :: "'i \<Rightarrow> nat"
  ri_set :: "'c \<Rightarrow> 'i \<Rightarrow> nat option hsm_result \<times> 'i"
  ri_clear :: "nat \<Rightarrow> 'i \<Rightarrow> unit hsm_result \<times> 'i"
  ri_find_ctx :: "('c \<Rightarrow> bool) \<Rightarrow> 'i \<Rightarrow> 'c option"
  ri_cleanup_event :: "nat \<Rightarrow> fsm_event hsm_result"
  ri_cleanup_ctx :: "nat \<Rightarrow> 'i \<Rightarrow> unit hsm_result \<times> 'i"

record 'i cmd_resource =
  res_info :: 'i
  waiters :: "u16 list"
  cleanup_fsm :: "u16 option"

definition res_new :: "'i \<Rightarrow> 'i cmd_resource" where
  "res_new i = \<lparr>res_info = i, waiters = [], cleanup_fsm = None\<rparr>"

definition set_cleanup_fsm :: "u16 \<Rightarrow> 'i cmd_resource \<Rightarrow> 'i cmd_resource" where
  "set_cleanup_fsm tag r = r\<lparr>cleanup_fsm := Some tag\<rparr>"

definition res_acquire ::
  "('i, 'c) resource_info \<Rightarrow> u16 \<Rightarrow> 'c \<Rightarrow> (res_id, 'e, 'w) queues \<Rightarrow> 'i cmd_resource \<Rightarrow>
     nat option hsm_result \<times> 'i cmd_resource" where
  "res_acquire R tag ctx q r =
     (let transferred = rsrc_ownership_transferred (ri_id R) q; count = ri_count R (res_info r) in
      if count > 1 \<or> (count = 1 \<and> \<not> transferred)
      then (case ri_set R ctx (res_info r) of (x, i) \<Rightarrow> (x, r\<lparr>res_info := i\<rparr>))
      else (Ok None, r\<lparr>waiters := waiters r @ [tag]\<rparr>))"

definition res_wakeup ::
  "('i, 'c) resource_info \<Rightarrow> nat \<Rightarrow> 'i cmd_resource \<times> (res_id, 'e, 'w) queues \<Rightarrow>
     unit hsm_result \<times> 'i cmd_resource \<times> (res_id, 'e, 'w) queues" where
  "res_wakeup R instance_id = (\<lambda>(r, q).
     case ri_clear R instance_id (res_info r) of (x, i) \<Rightarrow>
     let r = r\<lparr>res_info := i\<rparr> in
     try_in x (r, q) (\<lambda>_.
       case waiters r of
         [] \<Rightarrow> (Ok (), r, q)
       | tag # rest \<Rightarrow> (Ok (), r\<lparr>waiters := rest\<rparr>, sched_wakeup tag (ri_id R) q)))"

text \<open>Dropping a reference to an instance.\<close>

definition res_cleanup ::
  "('i, 'c) resource_info \<Rightarrow> nat \<Rightarrow> 'i cmd_resource \<times> (res_id, fsm_event, 'w) queues \<Rightarrow>
     unit hsm_result \<times> 'i cmd_resource \<times> (res_id, fsm_event, 'w) queues" where
  "res_cleanup R instance_id = (\<lambda>(r, q).
     case cleanup_fsm r of
       Some tag \<Rightarrow>
         (case ri_cleanup_ctx R instance_id (res_info r) of (x, i) \<Rightarrow>
          let r = r\<lparr>res_info := i\<rparr> in
          try_in x (r, q) (\<lambda>_.
          try_in (ri_cleanup_event R instance_id) (r, q) (\<lambda>event. (Ok (), r, sched_cleanup event tag q))))
     | None \<Rightarrow> res_wakeup R instance_id (r, q))"

definition res_find_ctx :: "('i, 'c) resource_info \<Rightarrow> ('c \<Rightarrow> bool) \<Rightarrow> 'i cmd_resource \<Rightarrow> 'c option" where
  "res_find_ctx R predicate r = ri_find_ctx R predicate (res_info r)"

section \<open>Engines\<close>

text \<open>
  \<^verbatim>\<open>PkaResource\<close>. The context of an engine is the key it works with. A self test is a closure,
  which is opaque here; \<open>tests_run\<close> lists the tests that were run, with their engines.
\<close>

record 't pka_resource =
  pka_engines :: nat
  free_list :: "nat list"
  ctx_list :: "u16 option list"
  pending_self_test :: "bool list"
  fn_test :: "'t option"
  tests_run :: "('t \<times> nat) list"

definition pka_new :: "nat \<Rightarrow> 't pka_resource" where
  "pka_new n = \<lparr>pka_engines = n, free_list = [0..<n], ctx_list = replicate n None,
     pending_self_test = replicate n False, fn_test = None, tests_run = []\<rparr>"

definition pka_set :: "u16 option \<Rightarrow> 't pka_resource \<Rightarrow> nat option hsm_result \<times> 't pka_resource" where
  "pka_set ctx p =
     (if free_list p = [] then (Ok None, p)
      else let index = last (free_list p); p = p\<lparr>free_list := butlast (free_list p)\<rparr>
        in if index < length (ctx_list p) then (Ok (Some index), p\<lparr>ctx_list := (ctx_list p)[index := ctx]\<rparr>)
           else (Panic, p))"

definition pka_clear :: "nat \<Rightarrow> 't pka_resource \<Rightarrow> unit hsm_result \<times> 't pka_resource" where
  "pka_clear instance_id p =
     (if length (pending_self_test p) \<le> instance_id then (Panic, p)
      else let p = (if pending_self_test p ! instance_id
                    then p\<lparr>tests_run := (case fn_test p of Some t \<Rightarrow> tests_run p @ [(t, instance_id)] | None \<Rightarrow> tests_run p),
                           fn_test := None, pending_self_test := (pending_self_test p)[instance_id := False]\<rparr>
                    else p)
        in (Ok (), p\<lparr>free_list := free_list p @ [instance_id]\<rparr>))"

definition pka_self_test :: "nat \<Rightarrow> 't \<Rightarrow> 't pka_resource \<Rightarrow> unit hsm_result \<times> 't pka_resource" where
  "pka_self_test instance_id test p =
     (if instance_id \<in> set (free_list p) then (Ok (), p\<lparr>tests_run := tests_run p @ [(test, instance_id)]\<rparr>)
      else if length (pending_self_test p) \<le> instance_id then (Panic, p)
      else (Ok (), p\<lparr>pending_self_test := (pending_self_test p)[instance_id := True], fn_test := Some test\<rparr>))"

definition pka_cleanup_ctx :: "nat \<Rightarrow> 't pka_resource \<Rightarrow> unit hsm_result \<times> 't pka_resource" where
  "pka_cleanup_ctx instance_id p =
     (if instance_id < length (ctx_list p) then (Ok (), p\<lparr>ctx_list := (ctx_list p)[instance_id := None]\<rparr>) else (Panic, p))"

definition pka_info :: "('t pka_resource, u16 option) resource_info" where
  "pka_info = \<lparr>ri_id = Res_Pka, ri_count = (\<lambda>p. length (free_list p)), ri_set = pka_set, ri_clear = pka_clear,
     ri_find_ctx = (\<lambda>predicate p. List.find predicate (ctx_list p)),
     ri_cleanup_event = (\<lambda>k. Ok (ResourceCleanup Res_Pka k)), ri_cleanup_ctx = pka_cleanup_ctx\<rparr>"

section \<open>Channels\<close>

text \<open>\<^verbatim>\<open>FpIpcChannelResource\<close>, \<^verbatim>\<open>HspIpcChannelResource\<close> and \<^verbatim>\<open>HsmToAdminIpcChannelResource\<close>: one instance.\<close>

definition ipc_new :: nat where "ipc_new = 1"

definition ipc_set :: "unit \<Rightarrow> nat \<Rightarrow> nat option hsm_result \<times> nat" where
  "ipc_set ctx count = (if count = 0 then (Panic, count) else (Ok (Some 0), count - 1))"

definition ipc_clear :: "nat \<Rightarrow> nat \<Rightarrow> unit hsm_result \<times> nat" where
  "ipc_clear idx count = (Ok (), count + 1)"

definition ipc_info :: "res_id \<Rightarrow> (nat, unit) resource_info" where
  "ipc_info i = \<lparr>ri_id = i, ri_count = (\<lambda>count. count), ri_set = ipc_set, ri_clear = ipc_clear,
     ri_find_ctx = (\<lambda>_ _. None), ri_cleanup_event = (\<lambda>_. Panic), ri_cleanup_ctx = (\<lambda>_ i. (Panic, i))\<rparr>"

section \<open>Contract\<close>

text \<open>
  The instances of a resource are numbered below \<open>limit\<close>, and \<open>free\<close> are the ones nobody holds.
\<close>

locale resource_pool =
  fixes R :: "('i, 'c) resource_info"
    and wf :: "'i \<Rightarrow> bool"
    and free :: "'i \<Rightarrow> nat set"
    and limit :: "'i \<Rightarrow> nat"
  assumes free_limit: "wf i \<Longrightarrow> free i \<subseteq> {..<limit i}"
    and count_free: "wf i \<Longrightarrow> ri_count R i = card (free i)"
    and set_free: "wf i \<Longrightarrow> free i \<noteq> {} \<Longrightarrow> ri_set R c i = (x, i') \<Longrightarrow>
      wf i' \<and> limit i' = limit i \<and> (\<exists>k. x = Ok (Some k) \<and> k \<in> free i \<and> free i' = free i - {k})"
    and clear_free: "wf i \<Longrightarrow> k < limit i \<Longrightarrow> k \<notin> free i \<Longrightarrow> ri_clear R k i = (y, i') \<Longrightarrow>
      wf i' \<and> limit i' = limit i \<and> y = Ok () \<and> free i' = insert k (free i)"
    and ctx_free: "wf i \<Longrightarrow> k < limit i \<Longrightarrow> ri_cleanup_ctx R k i = (y, i') \<Longrightarrow>
      wf i' \<and> limit i' = limit i \<and> free i' = free i"

text \<open>
  A pool at work: the resource, the queues, the instances commands hold, and the ones that are
  being wiped. A command that got an instance holds it until it drops it, then the instance is
  free or being wiped, and after the wipe it is free.
\<close>

record ('i, 'w) pool =
  pl_res :: "'i cmd_resource"
  pl_queues :: "(res_id, fsm_event, 'w) queues"
  pl_held :: "nat list"
  pl_wiping :: "nat list"

inductive pool_step :: "('i, 'c) resource_info \<Rightarrow> ('i, 'w) pool \<Rightarrow> ('i, 'w) pool \<Rightarrow> bool" for R where
  pool_acquired:
    "res_acquire R tag ctx (pl_queues s) (pl_res s) = (Ok (Some k), r) \<Longrightarrow>
     pool_step R s (s\<lparr>pl_res := r, pl_held := k # pl_held s\<rparr>)"
| pool_waits:
    "res_acquire R tag ctx (pl_queues s) (pl_res s) = (Ok None, r) \<Longrightarrow> pool_step R s (s\<lparr>pl_res := r\<rparr>)"
| pool_dropped:
    "k \<in> set (pl_held s) \<Longrightarrow> cleanup_fsm (pl_res s) = None \<Longrightarrow>
     res_cleanup R k (pl_res s, pl_queues s) = (Ok (), r, q) \<Longrightarrow>
     pool_step R s (s\<lparr>pl_res := r, pl_queues := q, pl_held := remove1 k (pl_held s)\<rparr>)"
| pool_wiping:
    "k \<in> set (pl_held s) \<Longrightarrow> cleanup_fsm (pl_res s) = Some tag \<Longrightarrow>
     res_cleanup R k (pl_res s, pl_queues s) = (Ok (), r, q) \<Longrightarrow>
     pool_step R s (s\<lparr>pl_res := r, pl_queues := q, pl_held := remove1 k (pl_held s), pl_wiping := k # pl_wiping s\<rparr>)"
| pool_wiped:
    "k \<in> set (pl_wiping s) \<Longrightarrow> res_wakeup R k (pl_res s, pl_queues s) = (Ok (), r, q) \<Longrightarrow>
     pool_step R s (s\<lparr>pl_res := r, pl_queues := q, pl_wiping := remove1 k (pl_wiping s)\<rparr>)"
| pool_queues: "pool_step R s (s\<lparr>pl_queues := q\<rparr>)"
| pool_cleanup_fsm: "pool_step R s (s\<lparr>pl_res := set_cleanup_fsm tag (pl_res s)\<rparr>)"

inductive pool_run :: "('i, 'c) resource_info \<Rightarrow> ('i, 'w) pool \<Rightarrow> ('i, 'w) pool \<Rightarrow> bool" for R where
  pool_run_nil: "pool_run R s s"
| pool_run_step: "pool_run R s t \<Longrightarrow> pool_step R t u \<Longrightarrow> pool_run R s u"

context resource_pool
begin

text \<open>Every instance is free, held or being wiped, and only one of them, and held once.\<close>

definition accounted :: "('i, 'w) pool \<Rightarrow> bool" where
  "accounted s \<longleftrightarrow> wf (res_info (pl_res s)) \<and> distinct (pl_held s @ pl_wiping s) \<and>
     set (pl_held s @ pl_wiping s) \<inter> free (res_info (pl_res s)) = {} \<and>
     set (pl_held s @ pl_wiping s) \<union> free (res_info (pl_res s)) = {..<limit (res_info (pl_res s))}"

lemma acquire_cases:
  assumes "wf (res_info r)"
  obtains k i where "res_acquire R tag ctx q r = (Ok (Some k), r\<lparr>res_info := i\<rparr>)" "wf i" "k \<in> free (res_info r)"
      "free i = free (res_info r) - {k}" "limit i = limit (res_info r)"
  | "res_acquire R tag ctx q r = (Ok None, r\<lparr>waiters := waiters r @ [tag]\<rparr>)"
      "free (res_info r) = {} \<or> card (free (res_info r)) = 1 \<and> rsrc_ownership_transferred (ri_id R) q"
proof -
  have fin: "finite (free (res_info r))" using free_limit [OF assms] finite_subset by blast
  show thesis
  proof (cases "card (free (res_info r)) > 1 \<or> card (free (res_info r)) = 1 \<and> \<not> rsrc_ownership_transferred (ri_id R) q")
    case True
    then have ne: "free (res_info r) \<noteq> {}" by auto
    obtain x i where x: "ri_set R ctx (res_info r) = (x, i)" by fastforce
    then show thesis
      using that(1) set_free [OF assms ne x] True by (auto simp: res_acquire_def count_free [OF assms] Let_def)
  next
    case False
    then have "res_acquire R tag ctx q r = (Ok None, r\<lparr>waiters := waiters r @ [tag]\<rparr>)"
      by (auto simp: res_acquire_def count_free [OF assms] Let_def)
    moreover have "free (res_info r) = {} \<or> card (free (res_info r)) = 1 \<and> rsrc_ownership_transferred (ri_id R) q"
      using False fin by (cases "card (free (res_info r))") auto
    ultimately show thesis by (rule that(2))
  qed
qed

lemma wakeup_free:
  assumes "wf (res_info r)" and "k < limit (res_info r)" and "k \<notin> free (res_info r)"
    and "res_wakeup R k (r, q) = (x, r', q')"
  shows "x = Ok () \<and> wf (res_info r') \<and> limit (res_info r') = limit (res_info r) \<and>
    free (res_info r') = insert k (free (res_info r))"
proof -
  obtain y i where y: "ri_clear R k (res_info r) = (y, i)" by fastforce
  have c: "wf i" "limit i = limit (res_info r)" "y = Ok ()" "free i = insert k (free (res_info r))"
    using clear_free [OF assms(1-3) y] by simp_all
  have "res_info r' = i" "x = Ok ()"
    using assms(4) by (cases "waiters r"; auto simp: res_wakeup_def y c(3))+
  then show ?thesis using c by simp
qed

lemma cleanup_wiping:
  assumes "wf (res_info r)" and "k < limit (res_info r)" and "cleanup_fsm r = Some tag"
    and "res_cleanup R k (r, q) = (Ok (), r', q')"
  shows "wf (res_info r') \<and> limit (res_info r') = limit (res_info r) \<and> free (res_info r') = free (res_info r)"
proof -
  obtain y i where y: "ri_cleanup_ctx R k (res_info r) = (y, i)" by fastforce
  have "res_info r' = i" using assms(3,4) by (auto simp: res_cleanup_def y res_simps Let_def)
  then show ?thesis using ctx_free [OF assms(1,2) y] by simp
qed

lemma accounted_take:
  assumes "accounted s" and "wf (res_info r)" and "k \<in> free (res_info (pl_res s))"
    and "free (res_info r) = free (res_info (pl_res s)) - {k}" and "limit (res_info r) = limit (res_info (pl_res s))"
  shows "accounted (s\<lparr>pl_res := r, pl_held := k # pl_held s\<rparr>)"
  using assms by (simp add: accounted_def) blast

lemma accounted_release:
  assumes "accounted s" and "wf (res_info r)" and "k \<in> set (pl_held s @ pl_wiping s)"
    and "free (res_info r) = insert k (free (res_info (pl_res s)))" and "limit (res_info r) = limit (res_info (pl_res s))"
  shows "k \<in> set (pl_held s) \<Longrightarrow> accounted (s\<lparr>pl_res := r, pl_queues := q, pl_held := remove1 k (pl_held s)\<rparr>)"
    "k \<in> set (pl_wiping s) \<Longrightarrow> accounted (s\<lparr>pl_res := r, pl_queues := q, pl_wiping := remove1 k (pl_wiping s)\<rparr>)"
  using assms by (simp_all add: accounted_def) blast+

lemma accounted_wipe:
  assumes "accounted s" and "k \<in> set (pl_held s)" and "wf (res_info r)"
    and "free (res_info r) = free (res_info (pl_res s))" and "limit (res_info r) = limit (res_info (pl_res s))"
  shows "accounted (s\<lparr>pl_res := r, pl_queues := q, pl_held := remove1 k (pl_held s), pl_wiping := k # pl_wiping s\<rparr>)"
  using assms by (auto simp: accounted_def)

lemma step_accounted:
  assumes "pool_step R s t" and acc: "accounted s"
  shows "accounted t \<and> limit (res_info (pl_res t)) = limit (res_info (pl_res s))"
proof -
  let ?i = "res_info (pl_res s)"
  have wf: "wf ?i" and held: "k \<in> set (pl_held s @ pl_wiping s) \<Longrightarrow> k < limit ?i \<and> k \<notin> free ?i" for k
    using acc unfolding accounted_def by blast+
  show ?thesis
    using assms(1)
  proof cases
    case (pool_acquired tag ctx k r)
    then obtain i where "r = pl_res s\<lparr>res_info := i\<rparr>" "wf i" "k \<in> free ?i" "free i = free ?i - {k}" "limit i = limit ?i"
      by (cases rule: acquire_cases [OF wf, of tag ctx "pl_queues s"]) auto
    then show ?thesis using accounted_take [OF acc, of r k] pool_acquired(1) by simp
  next
    case (pool_waits tag ctx r)
    then have "res_info r = ?i" by (cases rule: acquire_cases [OF wf, of tag ctx "pl_queues s"]) auto
    then show ?thesis using acc pool_waits(1) by (simp add: accounted_def)
  next
    case (pool_dropped k r q)
    then have "res_wakeup R k (pl_res s, pl_queues s) = (Ok (), r, q)" by (simp add: res_cleanup_def)
    from wakeup_free [OF wf _ _ this] held [of k] pool_dropped(2)
    have "wf (res_info r)" "limit (res_info r) = limit ?i" "free (res_info r) = insert k (free ?i)" by simp_all
    then show ?thesis using accounted_release(1) [OF acc] pool_dropped(1,2) by simp
  next
    case (pool_wiping k tag r q)
    from cleanup_wiping [OF wf _ pool_wiping(3,4)] held [of k] pool_wiping(2)
    have "wf (res_info r)" "limit (res_info r) = limit ?i" "free (res_info r) = free ?i" by simp_all
    then show ?thesis using accounted_wipe [OF acc pool_wiping(2)] pool_wiping(1) by simp
  next
    case (pool_wiped k r q)
    from wakeup_free [OF wf _ _ pool_wiped(3)] held [of k] pool_wiped(2)
    have "wf (res_info r)" "limit (res_info r) = limit ?i" "free (res_info r) = insert k (free ?i)" by simp_all
    then show ?thesis using accounted_release(2) [OF acc] pool_wiped(1,2) by simp
  next
    case (pool_queues q)
    then show ?thesis using acc by (simp add: accounted_def)
  next
    case (pool_cleanup_fsm tag)
    then show ?thesis using acc by (simp add: accounted_def set_cleanup_fsm_def)
  qed
qed

lemma run_accounted:
  "pool_run R s t \<Longrightarrow> accounted s \<Longrightarrow> accounted t \<and> limit (res_info (pl_res t)) = limit (res_info (pl_res s))"
  by (induction rule: pool_run.induct) (simp, metis step_accounted)

end

section \<open>The engines and the channels meet the contract\<close>

definition pka_wf :: "'t pka_resource \<Rightarrow> bool" where
  "pka_wf p \<longleftrightarrow> distinct (free_list p) \<and> set (free_list p) \<subseteq> {..<pka_engines p} \<and>
     length (ctx_list p) = pka_engines p \<and> length (pending_self_test p) = pka_engines p"

lemma pka_set_free:
  assumes "pka_wf p" and "set (free_list p) \<noteq> {}" and "pka_set c p = (x, p')"
  shows "pka_wf p' \<and> pka_engines p' = pka_engines p \<and>
    (\<exists>k. x = Ok (Some k) \<and> k \<in> set (free_list p) \<and> set (free_list p') = set (free_list p) - {k})"
proof -
  have ne: "free_list p \<noteq> []" and d: "distinct (free_list p)" using assms(1,2) by (auto simp: pka_wf_def)
  note lb = last_butlast_facts [OF ne d]
  have "last (free_list p) < length (ctx_list p)" using lb(1) assms(1) by (auto simp: pka_wf_def)
  then show ?thesis using assms ne lb by (auto simp: pka_set_def pka_wf_def Let_def)
qed

lemma pka_clear_free:
  assumes "pka_wf p" and "k < pka_engines p" and "k \<notin> set (free_list p)" and "pka_clear k p = (x, p')"
  shows "pka_wf p' \<and> pka_engines p' = pka_engines p \<and> x = Ok () \<and> set (free_list p') = insert k (set (free_list p))"
  using assms by (cases "pending_self_test p ! k") (auto simp: pka_clear_def pka_wf_def Let_def)

lemma pka_ctx_free:
  assumes "pka_wf p" and "pka_cleanup_ctx k p = (x, p')"
  shows "pka_wf p' \<and> pka_engines p' = pka_engines p \<and> set (free_list p') = set (free_list p)"
  using assms by (cases "k < length (ctx_list p)") (auto simp: pka_cleanup_ctx_def pka_wf_def)

lemma pka_info_sel [simp]:
  "ri_id pka_info = Res_Pka" "ri_count pka_info p = length (free_list p)" "ri_set pka_info = pka_set"
  "ri_clear pka_info = pka_clear" "ri_cleanup_ctx pka_info = pka_cleanup_ctx"
  by (simp_all add: pka_info_def)

interpretation pka: resource_pool pka_info pka_wf "\<lambda>p. set (free_list p)" pka_engines
  by unfold_locales
     (simp add: pka_wf_def, simp add: pka_wf_def distinct_card, unfold pka_info_sel, erule (2) pka_set_free,
      erule (3) pka_clear_free, erule (1) pka_ctx_free)

interpretation ipc: resource_pool "ipc_info i" "\<lambda>n. n \<le> 1" "\<lambda>n. {..<n}" "\<lambda>n. 1"
  by unfold_locales (auto simp: ipc_info_def ipc_set_def ipc_clear_def)

lemma acquire_ctx:
  "res_acquire pka_info tag ctx q r = (Ok (Some k), r') \<Longrightarrow> ctx_list (res_info r') ! k = ctx"
  by (auto simp: res_acquire_def pka_set_def Let_def split: if_splits)



section \<open>Wiping an engine\<close>

text \<open>
  \<^verbatim>\<open>HsmResCleanupFsm\<close>. The bit methods of the bitfield crate on sixteen bits and whether the hardware
  starts and ends a wipe are arguments. The engines are a field of the world.
\<close>

record bit_trait16 =
  bit_get16 :: "u16 \<Rightarrow> nat \<Rightarrow> bool"
  bit_set16 :: "u16 \<Rightarrow> nat \<Rightarrow> bool \<Rightarrow> u16"

definition plain_bits16 :: bit_trait16 where
  "plain_bits16 = \<lparr>bit_get16 = bit, bit_set16 = (\<lambda>m i x. if x then Bit_Operations.set_bit i m else unset_bit i m)\<rparr>"

record 't hsm_world =
  w_pka :: "'t pka_resource cmd_resource"

record 'w wipe_hw =
  begin_memory_wipe :: "nat \<Rightarrow> 'w \<Rightarrow> bool"
  end_memory_wipe :: "nat \<Rightarrow> 'w \<Rightarrow> bool"

record res_cleanup_fsm =
  pka_state :: u16

type_synonym ('t, 'm) hsm_queues = "(res_id, fsm_event, ('t, 'm) hsm_world_scheme) queues"

text \<open>\<^verbatim>\<open>pka_engine().wakeup(id)\<close> on the engines of the world.\<close>

definition pka_wakeup :: "nat \<Rightarrow> ('t, 'm) hsm_queues \<Rightarrow> unit hsm_result \<times> ('t, 'm) hsm_queues" where
  "pka_wakeup k q =
     (case res_wakeup pka_info k (w_pka (world q), q) of (x, r, q) \<Rightarrow> (x, q\<lparr>world := (world q)\<lparr>w_pka := r\<rparr>\<rparr>))"

definition on_pka_cleanup ::
  "bit_trait16 \<Rightarrow> ('t, 'm) hsm_world_scheme wipe_hw \<Rightarrow> nat \<Rightarrow> res_cleanup_fsm \<Rightarrow> ('t, 'm) hsm_queues \<Rightarrow>
     unit hsm_result \<times> res_cleanup_fsm \<times> ('t, 'm) hsm_queues" where
  "on_pka_cleanup B hw k f q =
     (if pka_engines (res_info (w_pka (world q))) \<le> k then (Panic, f, q)
      else if \<not> begin_memory_wipe hw k (world q) then (Err PkaMemoryWipeFailed, f, q)
      else (Err Pending, f\<lparr>pka_state := bit_set16 B (pka_state f) k True\<rparr>, q))"

definition on_pka_cleanup_done ::
  "bit_trait16 \<Rightarrow> ('t, 'm) hsm_world_scheme wipe_hw \<Rightarrow> nat \<Rightarrow> res_cleanup_fsm \<Rightarrow> ('t, 'm) hsm_queues \<Rightarrow>
     unit hsm_result \<times> res_cleanup_fsm \<times> ('t, 'm) hsm_queues" where
  "on_pka_cleanup_done B hw k f q =
     (let f = f\<lparr>pka_state := bit_set16 B (pka_state f) k False\<rparr> in
      if pka_engines (res_info (w_pka (world q))) \<le> k then (Panic, f, q)
      else if \<not> end_memory_wipe hw k (world q) then (Err PkaMemoryWipeFailed, f, q)
      else case pka_wakeup k q of (x, q) \<Rightarrow> (and_then x (\<lambda>_. Err DrainReady), f, q))"

definition cleanup_on_event ::
  "bit_trait16 \<Rightarrow> ('t, 'm) hsm_world_scheme wipe_hw \<Rightarrow> fsm_event \<Rightarrow> u16 \<Rightarrow> res_cleanup_fsm \<Rightarrow> ('t, 'm) hsm_queues \<Rightarrow>
     unit hsm_result \<times> res_cleanup_fsm \<times> ('t, 'm) hsm_queues" where
  "cleanup_on_event B hw event tag f q =
     (case event of
        ResourceCleanup res k \<Rightarrow>
          if res = Res_Pka \<and> \<not> bit_get16 B (pka_state f) k then on_pka_cleanup B hw k f q else (Err Pending, f, q)
      | PkaDone k \<Rightarrow> if bit_get16 B (pka_state f) k then on_pka_cleanup_done B hw k f q else (Err Pending, f, q)
      | PkaError k \<Rightarrow> if bit_get16 B (pka_state f) k then (Panic, f, q) else (Err Pending, f, q)
      | _ \<Rightarrow> (Err Pending, f, q))"

text \<open>
  \<^verbatim>\<open>ComboFsm\<close>: a request, the clean-up, or the initialization of a partition, each with its own
  functions. The clean-up has no \<^verbatim>\<open>acquire_resource\<close> and no destructor.
\<close>

datatype ('h, 'p) combo_fsm = Combo_Hsm 'h | Combo_Cleanup res_cleanup_fsm | Combo_PartInit 'p

definition combo_on_event ::
  "('h, res_id, fsm_event, ('t, 'm) hsm_world_scheme) cmd_fsm \<Rightarrow> ('p, res_id, fsm_event, ('t, 'm) hsm_world_scheme) cmd_fsm \<Rightarrow>
     bit_trait16 \<Rightarrow> ('t, 'm) hsm_world_scheme wipe_hw \<Rightarrow> fsm_event \<Rightarrow> u16 \<Rightarrow> ('h, 'p) combo_fsm \<Rightarrow> ('t, 'm) hsm_queues \<Rightarrow>
     unit hsm_result \<times> ('h, 'p) combo_fsm \<times> ('t, 'm) hsm_queues" where
  "combo_on_event H P B hw event tag f q =
     (case f of
        Combo_Hsm h \<Rightarrow> (case fsm_on_event H event tag h q of (r, h, q) \<Rightarrow> (r, Combo_Hsm h, q))
      | Combo_Cleanup c \<Rightarrow> (case cleanup_on_event B hw event tag c q of (r, c, q) \<Rightarrow> (r, Combo_Cleanup c, q))
      | Combo_PartInit p \<Rightarrow> (case fsm_on_event P event tag p q of (r, p, q) \<Rightarrow> (r, Combo_PartInit p, q)))"

definition combo_acquire_resource ::
  "('h, res_id, fsm_event, 'w) cmd_fsm \<Rightarrow> ('p, res_id, fsm_event, 'w) cmd_fsm \<Rightarrow> u16 \<Rightarrow> res_id \<Rightarrow> ('h, 'p) combo_fsm \<Rightarrow>
     fsm_event hsm_result \<times> ('h, 'p) combo_fsm" where
  "combo_acquire_resource H P tag res f =
     (case f of
        Combo_Hsm h \<Rightarrow> (case fsm_acquire_resource H tag res h of (e, h) \<Rightarrow> (e, Combo_Hsm h))
      | Combo_Cleanup c \<Rightarrow> (Panic, f)
      | Combo_PartInit p \<Rightarrow> (case fsm_acquire_resource P tag res p of (e, p) \<Rightarrow> (e, Combo_PartInit p)))"

definition combo ::
  "('h, res_id, fsm_event, ('t, 'm) hsm_world_scheme) cmd_fsm \<Rightarrow> ('p, res_id, fsm_event, ('t, 'm) hsm_world_scheme) cmd_fsm \<Rightarrow>
     bit_trait16 \<Rightarrow> ('t, 'm) hsm_world_scheme wipe_hw \<Rightarrow>
     (('h, 'p) combo_fsm, res_id, fsm_event, ('t, 'm) hsm_world_scheme) cmd_fsm" where
  "combo H P B hw = \<lparr>fsm_on_event = combo_on_event H P B hw, fsm_acquire_resource = combo_acquire_resource H P,
     fsm_drop = (\<lambda>f. case f of Combo_Hsm h \<Rightarrow> fsm_drop H h | Combo_Cleanup c \<Rightarrow> (\<lambda>q. q) | Combo_PartInit p \<Rightarrow> fsm_drop P p)\<rparr>"

end
