(* ===== verification/Hsm_Status.thy ===== *)
theory Hsm_Status
  imports Hsm_Prelude
begin

text \<open>
  How an error reaches the host (\<^verbatim>\<open>hsm/src/error.rs\<close>): as the status of a response
  (\<^verbatim>\<open>DdiStatus\<close>, whose values are in \<^verbatim>\<open>serde/ddi/types/src/lib.rs\<close>), and as the status field of a
  completion (\<^verbatim>\<open>HostStatusCode\<close>). The tables have the errors of \<open>hsm_err\<close>.
\<close>

definition status_success :: u32 where
  "status_success = 0"

primrec ddi_status_of_err :: "hsm_err \<Rightarrow> u32" where
  "ddi_status_of_err InvalidArgument = 134217731"
| "ddi_status_of_err NotEnoughSpace = 141557805"
| "ddi_status_of_err DefragNeeded = 141557890"
| "ddi_status_of_err InvalidKeyIndex = 141557774"
| "ddi_status_of_err CannotDeleteKeyInUse = 141557807"
| "ddi_status_of_err CannotDeleteSomeKeysInUse = 141557808"
| "ddi_status_of_err KeyNotFound = 141557774"
| "ddi_status_of_err KeyTagAlreadyExists = 141557793"
| "ddi_status_of_err InvalidPermissions = 141557794"
| "ddi_status_of_err InvalidKeyType = 141557775"
| "ddi_status_of_err InvalidKeyLength = 141557956"
| "ddi_status_of_err SessionNotFound = 141557764"
| "ddi_status_of_err SessionLimitReached = 141557761"
| "ddi_status_of_err SessionNeedsRenegotiation = 141557959"
| "ddi_status_of_err InvalidState = 141557895"
| "ddi_status_of_err InvalidUserCredential = 141557767"
| "ddi_status_of_err LoginFailed = 141557855"
| "ddi_status_of_err DmaAllocFailure = 141557868"
| "ddi_status_of_err DdiEncodeFailed = 141033473"
| "ddi_status_of_err DdiDecodeFailed = 141033474"
| "ddi_status_of_err NonceMismatch = 141557851"
| "ddi_status_of_err AppLimitReached = 141557804"
| "ddi_status_of_err CredentialsNotEstablished = 141557969"
| "ddi_status_of_err PartitionNotProvisioned = 141557973"
| "ddi_status_of_err FunctionNotEnabled = 141557799"
| "ddi_status_of_err SessionNotExpected = 141557762"
| "ddi_status_of_err SessionExpected = 141557763"
| "ddi_status_of_err UnsupportedRevision = 141557802"
| "ddi_status_of_err UnsupportedCmd = 134217737"
| "ddi_status_of_err SqeInvalidPsdt = 141557869"
| "ddi_status_of_err SqeUnknownOp = 141557862"
| "ddi_status_of_err SqeInvalidSrcLen = 141557863"
| "ddi_status_of_err SqeInvalidDstLen = 141557864"
| "ddi_status_of_err SqeInvalidSrcPrpAlgin = 141557880"
| "ddi_status_of_err SqeInvalidDstPrpAlgin = 141557881"
| "ddi_status_of_err InvalidSessionControlOpcode = 141557891"
| "ddi_status_of_err EcdhComputeFailed = 141557905"
| "ddi_status_of_err PartitionCertTooLarge = 141557949"
| "ddi_status_of_err ReachedMaxAesBulkKeys = 141557848"
| "ddi_status_of_err InvalidKeyTableIndex = 141557774"
| "ddi_status_of_err Pending = 141557858"
| "ddi_status_of_err IpcSendFailure = 141557908"
| "ddi_status_of_err IpcResponseError = 141557909"
| "ddi_status_of_err PinDecryptionFailed = 141557847"
| "ddi_status_of_err AesDecryptFailed = 141557798"
| "ddi_status_of_err MaskingBkBootFailed = 141557963"
| "ddi_status_of_err CannotDeleteInternalKeys = 141557844"
| "ddi_status_of_err DrainBusy = 141557915"
| "ddi_status_of_err DrainReady = 141557921"
| "ddi_status_of_err PkaMemoryWipeFailed = 141557920"
| "ddi_status_of_err IoTimeOut = 141557914"
| "ddi_status_of_err InvalidEvent = 141557894"
| "ddi_status_of_err CmdError = 141557882"
| "ddi_status_of_err ExpectedIoQueue = 141557873"
| "ddi_status_of_err ExpectedIoq = 141557906"
| "ddi_status_of_err ExpectedPcieFn = 141557874"
| "ddi_status_of_err ExpectedDmaBuf = 141557877"
| "ddi_status_of_err ExpectedCmdFsm = 141557879"
| "ddi_status_of_err DmaStartError = 141557875"
| "ddi_status_of_err DmaEndErr = 141557871"
| "ddi_status_of_err DmaTagMismatch = 141557872"
| "ddi_status_of_err DmaCompletionEmpty = 141557870"
| "ddi_status_of_err IoChannelRecvNone = 141557859"
| "ddi_status_of_err IoChannelRecvErr = 141557860"
| "ddi_status_of_err IoChannelSendError = 141557876"
| "ddi_status_of_err IoChannelSendCompleteError = 141557889"
| "ddi_status_of_err IoChannelSendCompleteNone = 141557887"
| "ddi_status_of_err PartitionNotEnabled = 141557865"
| "ddi_status_of_err QueueNotEnabled = 141557866"
| "ddi_status_of_err DeferredQueueDeleteNotifyErr = 141557916"
| "ddi_status_of_err InsufficientBuffer = 141557955"
| "ddi_status_of_err PartitionAlreadyProvisioned = 141557967"
| "ddi_status_of_err EccDerKeyShorterThanCurve = 141557936"
| "ddi_status_of_err EccPublicKeyValidationFailed = 141557935"
| "ddi_status_of_err EccMontgomeryConstCalcFailed = 141557898"
| "ddi_status_of_err BeginEccPointValidationFailed = 141557932"
| "ddi_status_of_err EndEccPointValidationFailed = 141557933"
| "ddi_status_of_err EccPointValidationFailed = 141557934"
| "ddi_status_of_err SessionEncryptionKeyGenerateFailed = 141557913"
| "ddi_status_of_err KeyStructuralValidationFailed = 141557857"

definition host_success :: u16 where
  "host_success = 0"

definition host_internal_error :: u16 where
  "host_internal_error = 7"

definition host_status_of_err :: "hsm_err \<Rightarrow> u16" where
  "host_status_of_err e =
     (case map_of
        [(SqeUnknownOp, 1),
         (SqeInvalidSrcLen, 193),
         (SqeInvalidDstLen, 194),
         (SqeInvalidPsdt, 192),
         (DmaEndErr, 198),
         (DmaStartError, 201),
         (DmaCompletionEmpty, 197),
         (DmaTagMismatch, 199),
         (SqeInvalidSrcPrpAlgin, 195),
         (SqeInvalidDstPrpAlgin, 196)] e of
        Some c \<Rightarrow> c
      | None \<Rightarrow> host_internal_error)"

text \<open>No error is reported as a success.\<close>

lemma error_not_success [simp]:
  "ddi_status_of_err e \<noteq> status_success" "host_status_of_err e \<noteq> host_success"
  by (cases e; simp add: status_success_def)
     (simp add: host_status_of_err_def host_internal_error_def host_success_def split: option.split)

end
