(* ===== verification/Hsm_Fsm.thy ===== *)
theory Hsm_Fsm
  imports Cmd_Resource Hsm_Status Ddi_Messages Partition_Props
begin

text \<open>
  A request of the host from its submission queue entry to its completion
  (\<^verbatim>\<open>hsm/src/fsm/hsm_fsm.rs\<close>, with the layouts of \<^verbatim>\<open>hsm/src/fsm/mod.rs\<close>): the entry is checked, the
  request is copied in, its header is checked against the entry and the partition, the state machine
  of the command is created and driven, and the response is copied out and completed.

  The state machines of the commands (trait \<^verbatim>\<open>HsmCmdTrait\<close>), the I/O channel, the DMA channel and the
  supply of buffers are arguments: what they answer during one event is a record \<open>io_answers\<close>. Buffers are lists
  of bytes. Neither the header of a request nor an error response has padded byte arrays, so that
  their encoding does not depend on the address of the buffer.
\<close>

section \<open>Entries of the queues\<close>

record mem_addr =
  ma_lo :: u32
  ma_hi :: u32

record sqe_dma_desc =
  dd_len :: u32
  dd_prp1 :: mem_addr
  dd_prp2 :: mem_addr

datatype sqe_opcode = Sqe_Generic | Sqe_Flush | Sqe_Unknown

definition sqe_opcode_of :: "u32 \<Rightarrow> sqe_opcode" where
  "sqe_opcode_of x = (if x = 0 then Sqe_Generic else if x = 1 then Sqe_Flush else Sqe_Unknown)"

datatype session_ctrl = Ctrl_NoSession | Ctrl_Open | Ctrl_Close | Ctrl_InSession

primrec ctrl_code :: "session_ctrl \<Rightarrow> u8" where
  "ctrl_code Ctrl_NoSession = 0"
| "ctrl_code Ctrl_Open = 1"
| "ctrl_code Ctrl_Close = 2"
| "ctrl_code Ctrl_InSession = 3"

definition ctrl_of_code :: "u8 \<Rightarrow> session_ctrl" where
  "ctrl_of_code k =
     (if k = 0 then Ctrl_NoSession else if k = 1 then Ctrl_Open else if k = 2 then Ctrl_Close else Ctrl_InSession)"

definition ctrl_of_op :: "ddi_op \<Rightarrow> session_ctrl" where
  "ctrl_of_op op =
     (if op \<in> {Op_GetApiRev, Op_GetDeviceInfo, Op_GetEstablishCredEncryptionKey, Op_EstablishCredential,
               Op_GetSessionEncryptionKey, Op_InitBk3, Op_GetSealedBk3, Op_SetSealedBk3, Op_GetCertChainInfo,
               Op_GetCertificate} then Ctrl_NoSession
      else if op = Op_OpenSession then Ctrl_Open
      else if op \<in> {Op_CloseSession, Op_ResetFunction} then Ctrl_Close
      else Ctrl_InSession)"

record session_flags =
  sf_ctrl :: session_ctrl
  sf_id_valid :: bool
  sf_app_vault_id_is_valid :: bool
  sf_session_closed :: bool

definition flags_of_byte :: "u8 \<Rightarrow> session_flags" where
  "flags_of_byte x = \<lparr>sf_ctrl = ctrl_of_code (x AND 3), sf_id_valid = bit x 2,
     sf_app_vault_id_is_valid = bit x 3, sf_session_closed = bit x 4\<rparr>"

definition byte_of_flags :: "session_flags \<Rightarrow> u8" where
  "byte_of_flags f = ctrl_code (sf_ctrl f) OR push_bit 2 (of_bool (sf_id_valid f)) OR
     push_bit 3 (of_bool (sf_app_vault_id_is_valid f)) OR push_bit 4 (of_bool (sf_session_closed f))"

record hsm_sqe =
  sqe_op :: sqe_opcode
  sqe_set :: u32
  sqe_psdt :: u32
  sqe_id :: u16
  sqe_src :: sqe_dma_desc
  sqe_dst :: sqe_dma_desc
  sqe_flags :: session_flags
  sqe_session_id :: u16

definition addr_at :: "nat \<Rightarrow> bytes \<Rightarrow> mem_addr" where
  "addr_at i b = \<lparr>ma_lo = le_word (slice i 4 b), ma_hi = le_word (slice (i + 4) 4 b)\<rparr>"

definition dma_desc_at :: "nat \<Rightarrow> bytes \<Rightarrow> sqe_dma_desc" where
  "dma_desc_at i b = \<lparr>dd_len = le_word (slice i 4 b), dd_prp1 = addr_at (i + 4) b, dd_prp2 = addr_at (i + 12) b\<rparr>"

definition sqe_of_entry :: "bytes \<Rightarrow> hsm_sqe" where
  "sqe_of_entry b =
     (let cmd = le_word (slice 0 4 b) :: u32 in
      \<lparr>sqe_op = sqe_opcode_of (cmd AND 0x3FF), sqe_set = drop_bit 10 cmd AND 0xF,
       sqe_psdt = drop_bit 14 cmd AND 3, sqe_id = ucast (drop_bit 16 cmd),
       sqe_src = dma_desc_at 4 b, sqe_dst = dma_desc_at 24 b,
       sqe_flags = flags_of_byte (b ! 44), sqe_session_id = le_word (slice 48 2 b)\<rparr>)"

record hsm_cqe =
  cqe_dst_len :: u16
  cqe_flags :: session_flags
  cqe_session_id :: u16
  cqe_app_vault_id :: u8
  cqe_sq_id :: u16
  cqe_cmd_id :: u16
  cqe_status :: u16

definition entry_of_cqe :: "hsm_cqe \<Rightarrow> bytes" where
  "entry_of_cqe c = le_bytes 2 (cqe_dst_len c) @ [byte_of_flags (cqe_flags c), 0] @ le_bytes 2 (cqe_session_id c) @
     [cqe_app_vault_id c, 0] @ le_bytes 2 (0 :: u16) @ le_bytes 2 (cqe_sq_id c) @ le_bytes 2 (cqe_cmd_id c) @
     le_bytes 2 (push_bit 1 (cqe_status c AND 0x7FF))"

section \<open>State\<close>

datatype (plugins only: code size) hsm_fsm_state = St_Init | St_DmaIn | St_Cmd | St_DmaOut | St_DmaOutErr | St_Completion

record io_queue =
  ioq_sq_id :: u8
  ioq_cq_id :: u8

record req_hdr =
  rh_rev :: "api_rev option"
  rh_op :: ddi_op
  rh_sess_id :: "u16 option"

text \<open>
  What leaves the state machine: the transfers it starts, the completions it sends, the entries it
  gives back, and the calls of the command's rollback.
\<close>

datatype (plugins only: code size) io_log =
    Log_Dma_In u8 mem_addr nat u16
  | Log_Dma_Out u8 mem_addr bytes u16
  | Log_Cqe u8 u8 hsm_cqe u16
  | Log_End_Recv u32 u8
  | Log_Rollback

record 'c hsm_fsm =
  fs_state :: hsm_fsm_state
  fs_ioq :: "io_queue option"
  fs_pfn :: "u8 option"
  fs_sqe :: hsm_sqe
  fs_sqe_addr :: u32
  fs_dma_buf :: "bytes option"
  fs_cmd :: "'c option"
  fs_session_id :: "u16 option"
  fs_session_flags :: session_flags
  fs_app_vault_id :: "u8 option"
  fs_req_hdr :: req_hdr
  fs_err :: "hsm_err option"
  fs_log :: "io_log list"

record io_rx_desc =
  rx_sq_id :: u8
  rx_addr :: u32
  rx_entry :: bytes
  rx_pfn :: u8
  rx_status :: bool

record io_answers =
  io_recv :: "io_rx_desc option"
  io_alloc :: bool
  io_begin_txn :: bool
  io_end_txn :: "(bool \<times> u16) option"
  io_data :: bytes
  io_begin_send :: bool
  io_end_send :: "bool option"

text \<open>
  The commands: the arguments their constructors get, and the methods of the trait. \<open>'q\<close> is the state
  of the device outside of the request; the partitions and their queues are parts of it.
\<close>

datatype (plugins only: code size) cmd_request =
    Req_Plain ddi_op bytes
  | Req_InSession ddi_op bytes "api_rev \<times> u16"
  | Req_Attest bytes u16
  | Req_Flush u16
  | Req_Unsupported

record ('c, 'q) hsm_env =
  en_part :: "u8 \<Rightarrow> 'q \<Rightarrow> partition"
  en_set_part :: "u8 \<Rightarrow> partition \<Rightarrow> 'q \<Rightarrow> 'q"
  en_io_queue :: "u8 \<Rightarrow> u8 \<Rightarrow> 'q \<Rightarrow> io_queue option"
  cmd_new :: "u8 \<Rightarrow> cmd_request \<Rightarrow> 'c"
  cmd_on_event :: "fsm_event \<Rightarrow> u16 \<Rightarrow> 'c \<Rightarrow> 'q \<Rightarrow> unit hsm_result \<times> 'c \<times> 'q"
  cmd_rollback :: "u16 \<Rightarrow> 'c \<Rightarrow> 'q \<Rightarrow> unit hsm_result \<times> 'c \<times> 'q"
  cmd_take_response :: "'c \<Rightarrow> bytes option \<times> 'c"
  cmd_session_id :: "'c \<Rightarrow> u16 option"
  cmd_app_vault_id :: "'c \<Rightarrow> u8 option"
  cmd_retry :: "'c \<Rightarrow> bool"
  cmd_requires_resource :: "u16 \<Rightarrow> res_id \<Rightarrow> 'c \<Rightarrow> bool"
  cmd_acquire_resource :: "u16 \<Rightarrow> res_id \<Rightarrow> 'c \<Rightarrow> fsm_event hsm_result \<times> 'c"
  cmd_drop :: "'c \<Rightarrow> 'q \<Rightarrow> 'q"

type_synonym ('c, 'q, 'a) fsm_op = "'c hsm_fsm \<times> 'q \<Rightarrow> 'a hsm_result \<times> 'c hsm_fsm \<times> 'q"

definition hsm_fsm_new :: "'c hsm_fsm" where
  "hsm_fsm_new = \<lparr>fs_state = St_Init, fs_ioq = None, fs_pfn = None, fs_sqe = sqe_of_entry (replicate 64 0), fs_sqe_addr = 0,
     fs_dma_buf = None, fs_cmd = None, fs_session_id = None, fs_session_flags = flags_of_byte 0, fs_app_vault_id = None,
     fs_req_hdr = \<lparr>rh_rev = None, rh_op = Op_Invalid, rh_sess_id = None\<rparr>, fs_err = None, fs_log = []\<rparr>"

section \<open>Checks of a request\<close>

definition PAGE_SIZE :: nat where "PAGE_SIZE = 4096"

definition page_offset :: "mem_addr \<Rightarrow> u32" where
  "page_offset a = ma_lo a AND of_nat (PAGE_SIZE - 1)"

definition validate_sqe_with_generic_opcode :: "hsm_sqe \<Rightarrow> unit hsm_result" where
  "validate_sqe_with_generic_opcode sqe =
     (let src_len = unat (dd_len (sqe_src sqe)); dst_len = unat (dd_len (sqe_dst sqe)) in
      if src_len < 1 \<or> src_len > PAGE_SIZE then Err SqeInvalidSrcLen
      else if dst_len < 1 \<or> dst_len > 2 * PAGE_SIZE then Err SqeInvalidDstLen
      else if page_offset (dd_prp1 (sqe_src sqe)) OR page_offset (dd_prp2 (sqe_src sqe)) \<noteq> 0 then Err SqeInvalidSrcPrpAlgin
      else if page_offset (dd_prp1 (sqe_dst sqe)) OR page_offset (dd_prp2 (sqe_dst sqe)) \<noteq> 0 then Err SqeInvalidDstPrpAlgin
      else Ok ())"

definition validate_sqe_with_flush_opcode :: "hsm_sqe \<Rightarrow> unit hsm_result" where
  "validate_sqe_with_flush_opcode sqe =
     (if sf_ctrl (sqe_flags sqe) \<noteq> Ctrl_Close then Err InvalidSessionControlOpcode
      else if \<not> sf_id_valid (sqe_flags sqe) then Err SessionExpected
      else Ok ())"

definition validate_sqe :: "hsm_sqe \<Rightarrow> unit hsm_result" where
  "validate_sqe sqe =
     (if sqe_psdt sqe \<noteq> 0 then Err SqeInvalidPsdt
      else case sqe_op sqe of
        Sqe_Generic \<Rightarrow> validate_sqe_with_generic_opcode sqe
      | Sqe_Flush \<Rightarrow> validate_sqe_with_flush_opcode sqe
      | Sqe_Unknown \<Rightarrow> Err SqeUnknownOp)"

definition validate_session_hijack_protection :: "hsm_sqe \<Rightarrow> req_hdr \<Rightarrow> unit hsm_result" where
  "validate_session_hijack_protection sqe hdr =
     (if sf_ctrl (sqe_flags sqe) \<noteq> ctrl_of_op (rh_op hdr) then Err InvalidArgument
      else and_then
        (case (sf_ctrl (sqe_flags sqe), sf_id_valid (sqe_flags sqe)) of
           (Ctrl_NoSession, True) \<Rightarrow> Err InvalidArgument
         | (Ctrl_Open, True) \<Rightarrow> Err SessionNotExpected
         | (Ctrl_Close, False) \<Rightarrow> Err InvalidArgument
         | (Ctrl_InSession, False) \<Rightarrow> Err InvalidArgument
         | _ \<Rightarrow> Ok ()) (\<lambda>_.
        if sf_id_valid (sqe_flags sqe)
        then (case rh_sess_id hdr of
                Some session_id \<Rightarrow> if sqe_session_id sqe \<noteq> session_id then Err InvalidArgument else Ok ()
              | None \<Rightarrow> Err InvalidArgument)
        else if rh_sess_id hdr \<noteq> None then Err InvalidArgument
        else Ok ()))"

definition rev_less :: "api_rev \<Rightarrow> api_rev \<Rightarrow> bool" where
  "rev_less a b = (if rev_major a = rev_major b then rev_minor a < rev_minor b else rev_major a < rev_major b)"

definition MIN_API_REV :: api_rev where "MIN_API_REV = \<lparr>rev_major = 1, rev_minor = 0\<rparr>"
definition MAX_API_REV :: api_rev where "MAX_API_REV = \<lparr>rev_major = 1, rev_minor = 0\<rparr>"

definition req_session_id :: "req_hdr \<Rightarrow> u16 hsm_result" where
  "req_session_id hdr = ok_or (rh_sess_id hdr) SessionExpected"

definition validate_req_hdr :: "bit_trait \<Rightarrow> hsm_sqe \<Rightarrow> req_hdr \<Rightarrow> partition \<Rightarrow> unit hsm_result" where
  "validate_req_hdr B sqe hdr p =
     (if \<not> pt_enabled p then Err FunctionNotEnabled
      else and_then (validate_session_hijack_protection sqe hdr) (\<lambda>_.
        case session_kind_of_op (rh_op hdr) of
          SK_User \<Rightarrow>
            and_then (req_session_id hdr) (\<lambda>sess_id.
            if pt_needs_renegotiation B sess_id p \<and> (rh_op hdr = Op_ReopenSession \<or> rh_op hdr = Op_CloseSession) then Ok ()
            else and_then (user_session B sess_id True p) (\<lambda>session.
              and_then (ok_or (rh_rev hdr) UnsupportedRevision) (\<lambda>hdr_rev.
                if hdr_rev \<noteq> fst session then Err UnsupportedRevision else Ok ())))
        | SK_None \<Rightarrow>
            if rh_op hdr \<noteq> Op_GetApiRev
            then and_then (ok_or (rh_rev hdr) UnsupportedRevision) (\<lambda>hdr_rev.
              if rev_less hdr_rev MIN_API_REV \<or> rev_less MAX_API_REV hdr_rev then Err UnsupportedRevision else Ok ())
            else if rh_rev hdr \<noteq> None then Err UnsupportedRevision
            else Ok ()))"

text \<open>The session of a request, and the arguments of the constructor of its command.\<close>

definition hf_user_session :: "bit_trait \<Rightarrow> req_hdr \<Rightarrow> partition \<Rightarrow> (api_rev \<times> u16) hsm_result" where
  "hf_user_session B hdr p = and_then (req_session_id hdr) (\<lambda>i. user_session B i False p)"

definition session_ops :: "ddi_op list" where
  "session_ops = [Op_OpenKey, Op_DeleteKey, Op_AesGenerateKey, Op_AesEncryptDecrypt, Op_EccGenerateKeyPair, Op_EccSign,
     Op_EcdhKeyExchange, Op_HkdfDerive, Op_KbkdfCounterHmacDerive, Op_RsaModExp, Op_GetUnwrappingKey, Op_RsaUnwrap,
     Op_ChangePin, Op_Hmac, Op_UnmaskKey]"

definition plain_ops :: "ddi_op list" where
  "plain_ops = [Op_GetApiRev, Op_GetDeviceInfo, Op_GetCertChainInfo, Op_GetCertificate, Op_GetEstablishCredEncryptionKey,
     Op_EstablishCredential, Op_GetSessionEncryptionKey, Op_OpenSession, Op_ReopenSession, Op_CloseSession, Op_InitBk3,
     Op_SetSealedBk3, Op_GetSealedBk3]"

definition cmd_request_of :: "bit_trait \<Rightarrow> req_hdr \<Rightarrow> bytes \<Rightarrow> partition \<Rightarrow> cmd_request hsm_result" where
  "cmd_request_of B hdr buf p =
     (if rh_op hdr \<in> set session_ops then map_ok (Req_InSession (rh_op hdr) buf) (hf_user_session B hdr p)
      else if rh_op hdr = Op_AttestKey then map_ok (Req_Attest buf) (req_session_id hdr)
      else if rh_op hdr \<in> set plain_ops then Ok (Req_Plain (rh_op hdr) buf)
      else Ok Req_Unsupported)"

section \<open>Responses and completions\<close>

definition u32_of_value :: "mbor_value option \<Rightarrow> u32" where
  "u32_of_value v = (case v of Some (VU32 x) \<Rightarrow> x | _ \<Rightarrow> 0)"

definition u16_of_value :: "mbor_value option \<Rightarrow> u16" where
  "u16_of_value v = (case v of Some (VU16 x) \<Rightarrow> x | _ \<Rightarrow> 0)"

definition fields_of_value :: "mbor_value option \<Rightarrow> mbor_value option list" where
  "fields_of_value v = (case v of Some (VStruct vs) \<Rightarrow> vs | _ \<Rightarrow> [])"

definition rev_of_value :: "mbor_value option \<Rightarrow> api_rev" where
  "rev_of_value v = \<lparr>rev_major = u32_of_value (fields_of_value v ! 0), rev_minor = u32_of_value (fields_of_value v ! 1)\<rparr>"

text \<open>The struct of a decoded header. The fields of a decoded value have the types of the description.\<close>

definition req_hdr_of_value :: "mbor_value \<Rightarrow> req_hdr" where
  "req_hdr_of_value v =
     (let vs = fields_of_value (Some v) in
      \<lparr>rh_rev = map_option (\<lambda>r. rev_of_value (Some r)) (vs ! 0), rh_op = ddi_op_of_code (u32_of_value (vs ! 1)),
       rh_sess_id = map_option (\<lambda>x. u16_of_value (Some x)) (vs ! 2)\<rparr>)"

definition value_of_rev :: "api_rev \<Rightarrow> mbor_value" where
  "value_of_rev r = VStruct [Some (VU32 (rev_major r)), Some (VU32 (rev_minor r))]"

definition err_resp :: "req_hdr \<Rightarrow> u16 option \<Rightarrow> u32 \<Rightarrow> ddi_op \<Rightarrow> mbor_value" where
  "err_resp hdr session_id status op =
     VStruct [Some (VStruct [map_option value_of_rev (rh_rev hdr), Some (VU32 (ddi_op_code op)), map_option VU16 session_id,
                             Some (VU32 status), Some (VBool False)]),
              Some (VStruct [])]"

text \<open>\<^verbatim>\<open>encode_buf\<close>: a buffer of the length that was computed, filled by the encoder, and the value moved into it.\<close>

definition encode_resp :: "io_answers \<Rightarrow> mbor_type \<Rightarrow> mbor_value \<Rightarrow> (bytes \<times> mbor_value) hsm_result" where
  "encode_resp io t v =
     (let len = len_value t v 0 in
      if \<not> io_alloc io then Err DmaAllocFailure
      else case encode_value t v (encoder_new (replicate len 0) 0 len) of
        (Ok v', e) \<Rightarrow> Ok (enc_mem e, v')
      | (Err _, _) \<Rightarrow> Err DdiEncodeFailed
      | (Panic, _) \<Rightarrow> Panic)"

definition encode_err_resp :: "io_answers \<Rightarrow> req_hdr \<Rightarrow> u16 option \<Rightarrow> u32 \<Rightarrow> ddi_op \<Rightarrow> bytes hsm_result" where
  "encode_err_resp io hdr session_id status op =
     map_ok fst (encode_resp io (ddi_cmd_resp DdiErrResp) (err_resp hdr session_id status op))"

text \<open>An entry of the completion queue; the three kinds differ in length, status and flags.\<close>

definition log_io :: "io_log \<Rightarrow> 'c hsm_fsm \<Rightarrow> 'c hsm_fsm" where
  "log_io l f = f\<lparr>fs_log := fs_log f @ [l]\<rparr>"

definition cqe_session_flags :: "'c hsm_fsm \<Rightarrow> session_flags" where
  "cqe_session_flags f = (fs_session_flags f)\<lparr>sf_id_valid := fs_session_id f \<noteq> None,
     sf_app_vault_id_is_valid := fs_app_vault_id f \<noteq> None\<rparr>"

definition option_or :: "'a \<Rightarrow> 'a option \<Rightarrow> 'a" where
  "option_or d x = (case x of Some y \<Rightarrow> y | None \<Rightarrow> d)"

definition begin_send :: "io_answers \<Rightarrow> (io_queue \<Rightarrow> hsm_cqe) \<Rightarrow> u16 \<Rightarrow> ('c, 'q, unit) fsm_op" where
  "begin_send io cqe tag = (\<lambda>(f, q).
     case fs_ioq f of
       None \<Rightarrow> (Err ExpectedIoQueue, f, q)
     | Some ioq \<Rightarrow>
         if \<not> io_begin_send io then (Err IoChannelSendError, f, q)
         else (Ok (), log_io (Log_Cqe (ioq_cq_id ioq) (ioq_sq_id ioq) (cqe ioq) tag) (f\<lparr>fs_state := St_Completion\<rparr>), q))"

definition send_err_cqe :: "io_answers \<Rightarrow> hsm_err \<Rightarrow> u16 \<Rightarrow> ('c, 'q, 'a) fsm_op" where
  "send_err_cqe io err tag = (\<lambda>(f, q).
     then_op (begin_send io (\<lambda>ioq. \<lparr>cqe_dst_len = 0, cqe_flags = cqe_session_flags f,
       cqe_session_id = option_or 0 (fs_session_id f), cqe_app_vault_id = option_or 0 (fs_app_vault_id f),
       cqe_sq_id = ucast (ioq_sq_id ioq), cqe_cmd_id = sqe_id (fs_sqe f), cqe_status = host_status_of_err err\<rparr>) tag)
     (\<lambda>_ s. (Err hsm_err.Pending, s)) (f, q))"

text \<open>A full queue of the channel leaves the buffer of the response taken.\<close>

definition send_cqe :: "io_answers \<Rightarrow> u16 \<Rightarrow> ('c, 'q, unit) fsm_op" where
  "send_cqe io tag = (\<lambda>(f, q).
     try_in (ok_or (fs_ioq f) ExpectedIoQueue) (f, q) (\<lambda>_.
     let dst_len = (case fs_dma_buf f of Some b \<Rightarrow> of_nat (length b) | None \<Rightarrow> 0); f = f\<lparr>fs_dma_buf := None\<rparr> in
     then_op (begin_send io (\<lambda>ioq. \<lparr>cqe_dst_len = dst_len, cqe_flags = cqe_session_flags f,
       cqe_session_id = option_or 0 (fs_session_id f), cqe_app_vault_id = option_or 0 (fs_app_vault_id f),
       cqe_sq_id = ucast (ioq_sq_id ioq), cqe_cmd_id = sqe_id (fs_sqe f), cqe_status = host_success\<rparr>) tag)
     (\<lambda>_ s. (Err hsm_err.Pending, s)) (f, q)))"

definition send_flush_cqe :: "io_answers \<Rightarrow> u16 \<Rightarrow> session_flags \<Rightarrow> u16 \<Rightarrow> ('c, 'q, unit) fsm_op" where
  "send_flush_cqe io session_id session_flags tag = (\<lambda>(f, q).
     begin_send io (\<lambda>ioq. \<lparr>cqe_dst_len = 0, cqe_flags = session_flags, cqe_session_id = session_id, cqe_app_vault_id = 0,
       cqe_sq_id = ucast (ioq_sq_id ioq), cqe_cmd_id = sqe_id (fs_sqe f), cqe_status = host_success\<rparr>) tag (f, q))"

section \<open>Transfers\<close>

definition begin_in_dma :: "io_answers \<Rightarrow> u16 \<Rightarrow> ('c, 'q, unit) fsm_op" where
  "begin_in_dma io tag = (\<lambda>(f, q).
     try_in (ok_or (fs_pfn f) ExpectedPcieFn) (f, q) (\<lambda>pfn.
     try_in (ok_or (fs_dma_buf f) ExpectedDmaBuf) (f, q) (\<lambda>buf.
     if \<not> io_begin_txn io then (Err DmaStartError, f, q)
     else (Ok (), log_io (Log_Dma_In pfn (dd_prp1 (sqe_src (fs_sqe f))) (length buf) tag) (f\<lparr>fs_state := St_DmaIn\<rparr>), q))))"

definition begin_out_dma :: "io_answers \<Rightarrow> u16 \<Rightarrow> ('c, 'q, unit) fsm_op" where
  "begin_out_dma io tag = (\<lambda>(f, q).
     try_in (ok_or (fs_pfn f) ExpectedPcieFn) (f, q) (\<lambda>pfn.
     try_in (ok_or (fs_dma_buf f) ExpectedDmaBuf) (f, q) (\<lambda>buf.
     if \<not> io_begin_txn io then (Err DmaStartError, f, q)
     else (Ok (), log_io (Log_Dma_Out pfn (dd_prp1 (sqe_dst (fs_sqe f))) buf tag) (f\<lparr>fs_state := St_DmaOut\<rparr>), q))))"

definition end_dma :: "io_answers \<Rightarrow> u16 \<Rightarrow> unit hsm_result" where
  "end_dma io tag =
     (case io_end_txn io of
        Some (success, t) \<Rightarrow> if \<not> success then Err DmaEndErr else if t \<noteq> tag then Err DmaTagMismatch else Ok ()
      | None \<Rightarrow> Err DmaCompletionEmpty)"

section \<open>Commands\<close>

definition issue_command_rollback :: "('c, 'q) hsm_env \<Rightarrow> u16 \<Rightarrow> ('c, 'q, unit) fsm_op" where
  "issue_command_rollback E tag = (\<lambda>(f, q).
     case fs_cmd f of
       None \<Rightarrow> (Err ExpectedCmdFsm, f, q)
     | Some c \<Rightarrow> (case cmd_rollback E tag c q of (r, c, q) \<Rightarrow> (r, log_io Log_Rollback (f\<lparr>fs_cmd := Some c\<rparr>), q)))"

definition cmd_err_resp :: "io_answers \<Rightarrow> u16 \<Rightarrow> hsm_err \<Rightarrow> ('c, 'q, bytes option \<times> u16 option \<times> u8 option) fsm_op" where
  "cmd_err_resp io tag err = (\<lambda>(f, q).
     case encode_err_resp io (fs_req_hdr f) (rh_sess_id (fs_req_hdr f)) (ddi_status_of_err err) (rh_op (fs_req_hdr f)) of
       Ok buf \<Rightarrow> (Ok (Some buf, rh_sess_id (fs_req_hdr f), None), f, q)
     | Err e \<Rightarrow> send_err_cqe io e tag (f, q)
     | Panic \<Rightarrow> (Panic, f, q))"

text \<open>
  What the command answered to an event: nothing yet, its response, or its error. The first error is
  kept and rolls the command back; the error response may have to wait for the rollback.
\<close>

definition cmd_answer ::
  "('c, 'q) hsm_env \<Rightarrow> io_answers \<Rightarrow> u16 \<Rightarrow> unit hsm_result \<Rightarrow> 'c \<Rightarrow> ('c, 'q, bytes option \<times> u16 option \<times> u8 option) fsm_op" where
  "cmd_answer E io tag resp c = (\<lambda>(f, q).
     case resp of
       Panic \<Rightarrow> (Panic, f, q)
     | Err e \<Rightarrow>
         if e = hsm_err.Pending then (Ok (None, None, None), f, q)
         else (case fs_err f of
           Some err \<Rightarrow> cmd_err_resp io tag err (f, q)
         | None \<Rightarrow> (case issue_command_rollback E tag (f\<lparr>fs_err := Some e\<rparr>, q) of (r, s) \<Rightarrow>
             if r = Panic then (Panic, s)
             else if r = Err hsm_err.Pending then (Ok (None, None, None), s)
             else cmd_err_resp io tag e s))
     | Ok _ \<Rightarrow> (case fs_err f of
           Some err \<Rightarrow> cmd_err_resp io tag err (f, q)
         | None \<Rightarrow> (case cmd_take_response E c of (b, c) \<Rightarrow>
             (Ok (b, cmd_session_id E c, cmd_app_vault_id E c), f\<lparr>fs_cmd := Some c\<rparr>, q))))"

text \<open>A failure of the transfer of the response rolls the command back, unless it had failed before.\<close>

definition response_failed :: "('c, 'q) hsm_env \<Rightarrow> io_answers \<Rightarrow> u16 \<Rightarrow> hsm_err \<Rightarrow> ('c, 'q, unit) fsm_op" where
  "response_failed E io tag err = (\<lambda>(f, q).
     if fs_err f = None
     then (case issue_command_rollback E tag (f\<lparr>fs_err := Some err, fs_state := St_DmaOutErr\<rparr>, q) of (r, s) \<Rightarrow>
       if r = Panic then (Panic, s)
       else if r = Err hsm_err.Pending then (Err hsm_err.Pending, s)
       else send_err_cqe io err tag s)
     else send_err_cqe io err tag (f, q))"

definition start_response :: "('c, 'q) hsm_env \<Rightarrow> io_answers \<Rightarrow> u16 \<Rightarrow> ('c, 'q, unit) fsm_op" where
  "start_response E io tag = (\<lambda>(f, q).
     try_in (if sf_ctrl (fs_session_flags f) = Ctrl_Close
             then map_ok (\<lambda>c. (fs_session_flags f)\<lparr>sf_session_closed := \<not> cmd_retry E c\<rparr>) (ok_or (fs_cmd f) ExpectedCmdFsm)
             else Ok (fs_session_flags f)) (f, q) (\<lambda>fl.
     case begin_out_dma io tag (f\<lparr>fs_session_flags := fl\<rparr>, q) of
       (Ok _, s) \<Rightarrow> (Err hsm_err.Pending, s)
     | (Err err, s) \<Rightarrow> response_failed E io tag err s
     | (Panic, s) \<Rightarrow> (Panic, s)))"

definition process_cmd_event :: "('c, 'q) hsm_env \<Rightarrow> io_answers \<Rightarrow> fsm_event \<Rightarrow> u16 \<Rightarrow> ('c, 'q, unit) fsm_op" where
  "process_cmd_event E io event tag = (\<lambda>(f, q).
     try_in (ok_or (fs_cmd f) ExpectedCmdFsm) (f, q) (\<lambda>c.
     case cmd_on_event E event tag c q of (resp, c, q) \<Rightarrow>
     let f = f\<lparr>fs_cmd := Some c\<rparr> in
     if resp = Panic then (Panic, f, q)
     else if sqe_op (fs_sqe f) = Sqe_Flush \<and> event = FpToHsmIpcResponse
     then let fl = (fs_session_flags f)\<lparr>sf_session_closed := \<not> cmd_retry E c\<rparr> in
       then_op (send_flush_cqe io (sqe_session_id (fs_sqe f)) fl tag) (\<lambda>_ s. (Err hsm_err.Pending, s))
         (f\<lparr>fs_session_flags := fl\<rparr>, q)
     else then_op (cmd_answer E io tag resp c) (\<lambda>(buf, session_id, app_vault_id) (f, q).
       let f = f\<lparr>fs_dma_buf := buf, fs_session_id := session_id, fs_app_vault_id := app_vault_id\<rparr> in
       if buf \<noteq> None then start_response E io tag (f, q) else (Err hsm_err.Pending, f, q)) (f, q)))"

text \<open>\<^verbatim>\<open>on_err\<close>: a request that is refused before its command exists is answered with an error response.\<close>

definition fsm_on_err :: "io_answers \<Rightarrow> u16 option \<Rightarrow> u32 \<Rightarrow> ddi_op \<Rightarrow> ('c, 'q, unit) fsm_op" where
  "fsm_on_err io session_id status op = (\<lambda>(f, q).
     case encode_err_resp io (fs_req_hdr f) session_id status op of
       Ok buf \<Rightarrow> (Err CmdError, f\<lparr>fs_dma_buf := Some buf\<rparr>, q)
     | Err _ \<Rightarrow> (Err CmdError, f, q)
     | Panic \<Rightarrow> (Panic, f, q))"

definition start_cmd :: "bit_trait \<Rightarrow> ('c, 'q) hsm_env \<Rightarrow> io_answers \<Rightarrow> bytes \<Rightarrow> ('c, 'q, unit) fsm_op" where
  "start_cmd B E io buf = (\<lambda>(f, q).
     try_in (ok_or (fs_pfn f) ExpectedPcieFn) (f, q) (\<lambda>pfn.
     let hdr = fs_req_hdr f; ctrl = ctrl_of_op (rh_op hdr); p = en_part E pfn q;
         f = f\<lparr>fs_session_flags := (fs_session_flags f)\<lparr>sf_ctrl := ctrl\<rparr>\<rparr> in
     case validate_req_hdr B (fs_sqe f) hdr p of
       Panic \<Rightarrow> (Panic, f, q)
     | Err err \<Rightarrow> fsm_on_err io (rh_sess_id hdr) (ddi_status_of_err err) (rh_op hdr) (f, q)
     | Ok _ \<Rightarrow>
         if ctrl = Ctrl_InSession \<and> \<not> is_partition_provisioned p
         then fsm_on_err io None (ddi_status_of_err PartitionNotProvisioned) (rh_op hdr) (f, q)
         else try_in (cmd_request_of B hdr buf p) (f, q) (\<lambda>req.
           (Ok (), f\<lparr>fs_cmd := Some (cmd_new E pfn req), fs_state := St_Cmd\<rparr>, q))))"

definition init_cmd :: "bit_trait \<Rightarrow> ('c, 'q) hsm_env \<Rightarrow> io_answers \<Rightarrow> ('c, 'q, unit) fsm_op" where
  "init_cmd B E io = (\<lambda>(f, q).
     try_in (ok_or (fs_dma_buf f) ExpectedDmaBuf) (f, q) (\<lambda>buf.
     let f = f\<lparr>fs_dma_buf := None\<rparr> in
     case fst (decode_hdr DdiReqHdr (decoder_new buf 0 (length buf))) of
       Panic \<Rightarrow> (Panic, f, q)
     | Err _ \<Rightarrow> fsm_on_err io None (ddi_status_of_err DdiDecodeFailed) Op_Invalid (f, q)
     | Ok v \<Rightarrow> start_cmd B E io buf (f\<lparr>fs_req_hdr := req_hdr_of_value v\<rparr>, q)))"

section \<open>Events\<close>

definition hf_flush_session :: "bit_trait \<Rightarrow> ('c, 'q) hsm_env \<Rightarrow> io_answers \<Rightarrow> u16 \<Rightarrow> ('c, 'q, unit) fsm_op" where
  "hf_flush_session B E io tag = (\<lambda>(f, q).
     try_in (ok_or (fs_pfn f) ExpectedPcieFn) (f, q) (\<lambda>pfn.
     let session_id = sqe_session_id (fs_sqe f); part = en_part E pfn q in
     if is_ok (user_session B session_id True part)
     then process_cmd_event E io StartCmd tag
       (f\<lparr>fs_session_flags := (fs_session_flags f)\<lparr>sf_id_valid := True, sf_ctrl := Ctrl_Close\<rparr>,
          fs_cmd := Some (cmd_new E pfn (Req_Flush session_id)), fs_state := St_Cmd\<rparr>, q)
     else then_op (send_flush_cqe io session_id (fs_session_flags f) tag) (\<lambda>_ s. (Err hsm_err.Pending, s))
       (f, en_set_part E pfn (flush_session B session_id part) q)))"

definition process_rx_entry :: "bit_trait \<Rightarrow> ('c, 'q) hsm_env \<Rightarrow> io_answers \<Rightarrow> u16 \<Rightarrow> ('c, 'q, unit) fsm_op" where
  "process_rx_entry B E io tag = (\<lambda>(f, q).
     case validate_sqe (fs_sqe f) of
       Panic \<Rightarrow> (Panic, f, q)
     | Err err \<Rightarrow> send_err_cqe io err tag (f, q)
     | Ok _ \<Rightarrow>
         then_op (if sqe_op (fs_sqe f) = Sqe_Flush then hf_flush_session B E io tag else Pair (Ok ())) (\<lambda>_ (f, q).
           if \<not> io_alloc io then send_err_cqe io DmaAllocFailure tag (f, q)
           else case begin_in_dma io tag (f\<lparr>fs_dma_buf := Some (replicate (unat (dd_len (sqe_src (fs_sqe f)))) 0)\<rparr>, q) of
             (Ok _, s) \<Rightarrow> (Err hsm_err.Pending, s)
           | (Err err, s) \<Rightarrow> send_err_cqe io err tag s
           | (Panic, s) \<Rightarrow> (Panic, s)) (f, q))"

definition begin_recv_sqe :: "io_answers \<Rightarrow> io_rx_desc hsm_result" where
  "begin_recv_sqe io =
     and_then (ok_or (io_recv io) IoChannelRecvNone) (\<lambda>desc. if \<not> rx_status desc then Err IoChannelRecvErr else Ok desc)"

definition hf_ioq :: "('c, 'q) hsm_env \<Rightarrow> io_rx_desc \<Rightarrow> 'q \<Rightarrow> io_queue hsm_result" where
  "hf_ioq E desc q =
     (if \<not> pt_enabled (en_part E (rx_pfn desc) q) then Err PartitionNotEnabled
      else ok_or (en_io_queue E (rx_pfn desc) (rx_sq_id desc) q) QueueNotEnabled)"

definition on_rx_ready :: "bit_trait \<Rightarrow> ('c, 'q) hsm_env \<Rightarrow> io_answers \<Rightarrow> u16 \<Rightarrow> ('c, 'q, unit) fsm_op" where
  "on_rx_ready B E io tag = (\<lambda>(f, q).
     try_in (begin_recv_sqe io) (f, q) (\<lambda>desc.
     let f = f\<lparr>fs_pfn := Some (rx_pfn desc)\<rparr> in
     case hf_ioq E desc q of
       Ok ioq \<Rightarrow> process_rx_entry B E io tag
         (f\<lparr>fs_ioq := Some ioq, fs_sqe := sqe_of_entry (rx_entry desc), fs_sqe_addr := rx_addr desc\<rparr>, q)
     | Err err \<Rightarrow> (Err err, log_io (Log_End_Recv (rx_addr desc) (rx_sq_id desc)) f, q)
     | Panic \<Rightarrow> (Panic, f, q)))"

text \<open>The transfer has filled the buffer by the time its end is reported.\<close>

definition dma_in_done :: "io_answers \<Rightarrow> 'c hsm_fsm \<Rightarrow> 'c hsm_fsm" where
  "dma_in_done io f = f\<lparr>fs_dma_buf := map_option (\<lambda>b. take (length b) (io_data io @ b)) (fs_dma_buf f)\<rparr>"

definition process_in_dma_complete :: "bit_trait \<Rightarrow> ('c, 'q) hsm_env \<Rightarrow> io_answers \<Rightarrow> u16 \<Rightarrow> ('c, 'q, unit) fsm_op" where
  "process_in_dma_complete B E io tag = (\<lambda>(f, q).
     case end_dma io tag of
       Panic \<Rightarrow> (Panic, f, q)
     | Err err \<Rightarrow> send_err_cqe io err tag (f, q)
     | Ok _ \<Rightarrow> (case init_cmd B E io (dma_in_done io f, q) of
         (Ok _, s) \<Rightarrow> process_cmd_event E io StartCmd tag s
       | (Panic, s) \<Rightarrow> (Panic, s)
       | (Err err, s) \<Rightarrow>
           if err = CmdError
           then (case begin_out_dma io tag s of
                   (Ok _, s) \<Rightarrow> (Err hsm_err.Pending, s)
                 | (Err err, s) \<Rightarrow> send_err_cqe io err tag s
                 | (Panic, s) \<Rightarrow> (Panic, s))
           else send_err_cqe io err tag s))"

definition process_out_dma_complete :: "('c, 'q) hsm_env \<Rightarrow> io_answers \<Rightarrow> u16 \<Rightarrow> ('c, 'q, unit) fsm_op" where
  "process_out_dma_complete E io tag s =
     (case end_dma io tag of
        Ok _ \<Rightarrow> send_cqe io tag s
      | Err err \<Rightarrow> response_failed E io tag err s
      | Panic \<Rightarrow> (Panic, s))"

definition end_recv_sqe :: "io_answers \<Rightarrow> unit hsm_result" where
  "end_recv_sqe io =
     (case io_end_send io of
        Some success \<Rightarrow> if \<not> success then Err IoChannelSendCompleteError else Ok ()
      | None \<Rightarrow> Err IoChannelSendCompleteNone)"

definition on_dma_out_err :: "('c, 'q) hsm_env \<Rightarrow> io_answers \<Rightarrow> fsm_event \<Rightarrow> u16 \<Rightarrow> ('c, 'q, unit) fsm_op" where
  "on_dma_out_err E io event tag = (\<lambda>(f, q).
     try_in (ok_or (fs_cmd f) ExpectedCmdFsm) (f, q) (\<lambda>c.
     case cmd_on_event E event tag c q of (r, c, q) \<Rightarrow>
     let f = f\<lparr>fs_cmd := Some c\<rparr> in
     if r = Panic then (Panic, f, q)
     else if r = Err hsm_err.Pending then (Err hsm_err.Pending, f, q)
     else send_err_cqe io (option_or DmaStartError (fs_err f)) tag (f, q)))"

definition hsm_on_event :: "bit_trait \<Rightarrow> ('c, 'q) hsm_env \<Rightarrow> io_answers \<Rightarrow> fsm_event \<Rightarrow> u16 \<Rightarrow> ('c, 'q, unit) fsm_op" where
  "hsm_on_event B E io event tag = (\<lambda>(f, q).
     if fs_state f = St_Init \<and> event = RxReady then on_rx_ready B E io tag (f, q)
     else if fs_state f = St_DmaIn \<and> event = DmaComplete then process_in_dma_complete B E io tag (f, q)
     else if fs_state f = St_Cmd then process_cmd_event E io event tag (f, q)
     else if event = CheckAlive then (Err IoTimeOut, f, q)
     else if fs_state f = St_DmaOut \<and> event = DmaComplete then process_out_dma_complete E io tag (f, q)
     else if fs_state f = St_DmaOutErr then on_dma_out_err E io event tag (f, q)
     else if fs_state f = St_Completion \<and> event = TxComplete then (end_recv_sqe io, f, q)
     else (Err hsm_err.Pending, f, q))"

definition hsm_acquire_resource :: "('c, 'q) hsm_env \<Rightarrow> u16 \<Rightarrow> res_id \<Rightarrow> 'c hsm_fsm \<Rightarrow> fsm_event hsm_result \<times> 'c hsm_fsm" where
  "hsm_acquire_resource E tag res f =
     (case fs_cmd f of
        None \<Rightarrow> (Panic, f)
      | Some c \<Rightarrow>
          if \<not> cmd_requires_resource E tag res c then (Panic, f)
          else (case cmd_acquire_resource E tag res c of (e, c) \<Rightarrow> (e, f\<lparr>fs_cmd := Some c\<rparr>)))"

text \<open>
  The request as the state machine in a slot of the scheduler. What the hardware answers depends on
  the event and the state of the device; retiring the entry of the queue is an argument. The
  command is dropped with its request.
\<close>

definition hsm_cmd_fsm ::
  "bit_trait \<Rightarrow> ('c, (res_id, fsm_event, 'w) queues) hsm_env \<Rightarrow> (fsm_event \<Rightarrow> u16 \<Rightarrow> (res_id, fsm_event, 'w) queues \<Rightarrow> io_answers) \<Rightarrow>
     (io_queue option \<Rightarrow> u32 \<Rightarrow> (res_id, fsm_event, 'w) queues \<Rightarrow> (res_id, fsm_event, 'w) queues) \<Rightarrow>
     ('c hsm_fsm, res_id, fsm_event, 'w) cmd_fsm" where
  "hsm_cmd_fsm B E hw retire = \<lparr>fsm_on_event = (\<lambda>event tag f q. hsm_on_event B E (hw event tag q) event tag (f, q)),
     fsm_acquire_resource = hsm_acquire_resource E, fsm_drop = (\<lambda>f q.
     let q = retire (fs_ioq f) (fs_sqe_addr f) q in case fs_cmd f of Some c \<Rightarrow> cmd_drop E c q | None \<Rightarrow> q)\<rparr>"

end
