(* ===== verification/Session_Cmds.thy ===== *)
theory Session_Cmds
  imports Hsm_Fsm Range_Check
begin

text \<open>
  The commands that open, close and flush a session (\<^verbatim>\<open>open_session.rs\<close>, \<^verbatim>\<open>close_session.rs\<close>, \<^verbatim>\<open>flush_session.rs\<close>
  and \<^verbatim>\<open>unsupported.rs\<close> of \<^verbatim>\<open>hsm/src/fsm\<close>) as state machines over the partition, the public-key engines and
  the channel to the fast path, with the first two steps of opening from
  \<^verbatim>\<open>hsm/src/partition/part.rs\<close>. What the engines and the fast path answer during one event is a record
  \<open>cmd_answers\<close>. The other commands are an argument.
\<close>

section \<open>Device\<close>

record 't core_world = "'t hsm_world" +
  w_fp_ipc :: "nat cmd_resource"
  w_part :: "u8 \<Rightarrow> partition"

type_synonym 't core = "(res_id, fsm_event, 't core_world) queues"

definition set_part :: "u8 \<Rightarrow> partition \<Rightarrow> 't core \<Rightarrow> 't core" where
  "set_part pfn p q = q\<lparr>world := (world q)\<lparr>w_part := (w_part (world q))(pfn := p)\<rparr>\<rparr>"

definition on_part :: "u8 \<Rightarrow> (partition \<Rightarrow> 'a hsm_result \<times> partition) \<Rightarrow> 't core \<Rightarrow> 'a hsm_result \<times> 't core" where
  "on_part pfn op q = (case op (w_part (world q) pfn) of (r, p) \<Rightarrow> (r, set_part pfn p q))"

definition pka_acquire :: "u16 \<Rightarrow> u16 option \<Rightarrow> 't core \<Rightarrow> nat option hsm_result \<times> 't core" where
  "pka_acquire tag ctx q =
     (case res_acquire pka_info tag ctx q (w_pka (world q)) of (x, r) \<Rightarrow> (x, q\<lparr>world := (world q)\<lparr>w_pka := r\<rparr>\<rparr>))"

definition pka_drop :: "nat \<Rightarrow> 't core \<Rightarrow> unit hsm_result \<times> 't core" where
  "pka_drop k q =
     (case res_cleanup pka_info k (w_pka (world q), q) of (x, r, q) \<Rightarrow> (x, q\<lparr>world := (world q)\<lparr>w_pka := r\<rparr>\<rparr>))"

definition fp_acquire :: "u16 \<Rightarrow> 't core \<Rightarrow> nat option hsm_result \<times> 't core" where
  "fp_acquire tag q =
     (case res_acquire (ipc_info Res_FpIpcChannel) tag () q (w_fp_ipc (world q)) of
        (x, r) \<Rightarrow> (x, q\<lparr>world := (world q)\<lparr>w_fp_ipc := r\<rparr>\<rparr>))"

definition fp_drop :: "nat \<Rightarrow> 't core \<Rightarrow> unit hsm_result \<times> 't core" where
  "fp_drop k q =
     (case res_cleanup (ipc_info Res_FpIpcChannel) k (w_fp_ipc (world q), q) of
        (x, r, q) \<Rightarrow> (x, q\<lparr>world := (world q)\<lparr>w_fp_ipc := r\<rparr>\<rparr>))"

text \<open>A function that returns drops the reference it owns; a panic of the destructor wins.\<close>

definition then_drop :: "'a hsm_result \<Rightarrow> ('t core \<Rightarrow> unit hsm_result \<times> 't core) \<Rightarrow> 't core \<Rightarrow> 'a hsm_result \<times> 't core" where
  "then_drop r d q = (case d q of (x, q) \<Rightarrow> (if x = Panic then Panic else r, q))"

record cmd_answers =
  ca_crypto :: part_crypto
  ca_bks :: bks_table
  ca_rng :: bytes
  ca_now :: u64
  ca_later :: u64
  ca_begin :: bool
  ca_end :: bool
  ca_point_valid :: bool
  ca_secret :: "bytes option"
  ca_alloc :: "bool \<times> bool"
  ca_bmk_len :: "nat hsm_result"
  ca_bmk :: "bytes hsm_result"
  ca_fips :: bool
  ca_sent :: bool
  ca_message :: "u32 option option"
  ca_busy :: "u16 \<Rightarrow> bool"
  ca_sess_busy :: "u16 \<Rightarrow> bool"
  ca_io :: io_answers

section \<open>Opening a session\<close>

definition MAX_RESOURCE_WAIT_TIME :: u8 where "MAX_RESOURCE_WAIT_TIME = 16"

datatype cmd_state = CS_Init | CS_WaitForEngine | CS_WaitForCmd | CS_Final

datatype open_stage = MontgomeryConstCalc | PublicKeyValidation | EcdhCompute

record open_ctx =
  oc_engine :: nat
  oc_stage :: open_stage

record common_field =
  cf_rev :: "api_rev option"
  cf_sess_id :: "u16 option"
  cf_cred :: session_cred
  cf_pub_key :: bytes
  cf_bmk_session :: "bytes option"

record open_session_cmd =
  os_state :: cmd_state
  os_pfn :: u8
  os_req :: bytes
  os_resp :: "bytes option"
  os_sess_id :: "u16 option"
  os_app_vault_id :: "u8 option"
  os_ctx :: "open_ctx option"
  os_api_rev :: "api_rev option"
  os_common :: "common_field option"
  os_is_reopen :: bool
  os_check_alive_cnt :: u8

definition open_cmd_new :: "bytes \<Rightarrow> u8 \<Rightarrow> bool \<Rightarrow> open_session_cmd" where
  "open_cmd_new req pfn is_reopen = \<lparr>os_state = CS_Init, os_pfn = pfn, os_req = req, os_resp = None, os_sess_id = None,
     os_app_vault_id = None, os_ctx = None, os_api_rev = None, os_common = None, os_is_reopen = is_reopen, os_check_alive_cnt = 0\<rparr>"

text \<open>The prime of P-384 in the format of the engine, and the check of a public key.\<close>

definition PRIME384 :: bytes where
  "PRIME384 = replicate 4 0xFF @ replicate 8 0 @ replicate 4 0xFF @ 0xFE # replicate 31 0xFF"

definition validate_public_key :: "bytes \<Rightarrow> bytes \<Rightarrow> bytes \<Rightarrow> bool hsm_result" where
  "validate_public_key p x y =
     and_then (is_in_valid_range x p) (\<lambda>x_ok. if x_ok then is_in_valid_range y p else Ok False)"

definition begin_open_user_session :: "cmd_answers \<Rightarrow> u16 \<Rightarrow> u8 \<Rightarrow> bytes \<Rightarrow> 't core \<Rightarrow> open_ctx hsm_result \<times> 't core" where
  "begin_open_user_session a tag pfn pub_key =
     then_op (pka_acquire tag None) (\<lambda>k q.
       case k of
         None \<Rightarrow> (Err hsm_err.Pending, q)
       | Some k \<Rightarrow>
           (case if \<not> can_login (ca_now a) (pst_pin_policy (pt_store (w_part (world q) pfn))) then Err LoginFailed
                 else if length pub_key < 2 * ecc_len P384 then Err EccDerKeyShorterThanCurve
                 else and_then (validate_public_key PRIME384 (take (ecc_len P384) pub_key) (drop (ecc_len P384) pub_key)) (\<lambda>valid.
                   if \<not> valid then Err EccPublicKeyValidationFailed
                   else if \<not> ca_begin a then Err EccMontgomeryConstCalcFailed
                   else Ok ()) of
              Ok _ \<Rightarrow> (Ok \<lparr>oc_engine = k, oc_stage = MontgomeryConstCalc\<rparr>, q)
            | Err e \<Rightarrow> then_drop (Err e) (pka_drop k) q
            | Panic \<Rightarrow> (Panic, q)))"

definition session_private_key :: "partition \<Rightarrow> bytes hsm_result" where
  "session_private_key p =
     and_then (ok_or (pt_session_encryption_key_id p) SessionEncryptionKeyGenerateFailed) (\<lambda>key_id.
     and_then (open_session_encryption_key (vault p) APP_VAULT_ID_FOR_INTERNAL_KEYS key_id) (\<lambda>key.
     and_then (vk_blob (vault p) key) (slice_get 96 48)))"

definition continue_open_user_session :: "cmd_answers \<Rightarrow> u8 \<Rightarrow> open_ctx \<Rightarrow> 't core \<Rightarrow> open_ctx hsm_result \<times> 't core" where
  "continue_open_user_session a pfn ctx q =
     (case (case oc_stage ctx of
              MontgomeryConstCalc \<Rightarrow>
                if \<not> ca_end a then Err EccMontgomeryConstCalcFailed
                else if \<not> ca_begin a then Err BeginEccPointValidationFailed
                else Ok PublicKeyValidation
            | PublicKeyValidation \<Rightarrow>
                if \<not> ca_end a then Err EndEccPointValidationFailed
                else if \<not> ca_point_valid a then Err EccPointValidationFailed
                else and_then (session_private_key (w_part (world q) pfn)) (\<lambda>_.
                  if \<not> ca_begin a then Err EcdhComputeFailed else Ok EcdhCompute)
            | EcdhCompute \<Rightarrow> Err InvalidState) of
        Ok stage \<Rightarrow> (Ok (ctx\<lparr>oc_stage := stage\<rparr>), q)
      | Err e \<Rightarrow> then_drop (Err e) (pka_drop (oc_engine ctx)) q
      | Panic \<Rightarrow> (Panic, q))"

text \<open>The request, decoded: the lengths of its credential are checked before anything is computed.\<close>

definition bytes_of_value :: "bytes \<Rightarrow> mbor_value option \<Rightarrow> bytes" where
  "bytes_of_value req v = (case v of Some (VBytes a) \<Rightarrow> ba_slice req a | Some (VArray b) \<Rightarrow> b | _ \<Rightarrow> [])"

definition session_cred_of_value :: "bytes \<Rightarrow> mbor_value option \<Rightarrow> session_cred" where
  "session_cred_of_value req v =
     (let vs = fields_of_value v in
      \<lparr>ec_id = bytes_of_value req (vs ! 0), ec_pin = bytes_of_value req (vs ! 1), ec_iv = bytes_of_value req (vs ! 3),
       ec_nonce = bytes_of_value req (vs ! 4), ec_tag = bytes_of_value req (vs ! 5), ec_seed = bytes_of_value req (vs ! 2)\<rparr>)"

definition decode_req :: "mbor_type \<Rightarrow> bytes \<Rightarrow> mbor_value hsm_result" where
  "decode_req t req =
     (case fst (decode_value t (decoder_new req 0 (length req))) of
        Ok v \<Rightarrow> Ok v | Err _ \<Rightarrow> Err DdiDecodeFailed | Panic \<Rightarrow> Panic)"

definition validate_session_cred :: "session_cred \<Rightarrow> unit hsm_result" where
  "validate_session_cred c =
     (if length (ec_id c) \<noteq> 16 \<or> length (ec_pin c) \<noteq> 16 \<or> length (ec_seed c) \<noteq> 48 \<or> length (ec_iv c) \<noteq> 16
      then Err InvalidArgument else Ok ())"

definition hdr_of_req :: "mbor_value \<Rightarrow> req_hdr" where
  "hdr_of_req v = (case fields_of_value (Some v) ! 0 of Some h \<Rightarrow> req_hdr_of_value h | None \<Rightarrow> \<lparr>rh_rev = None, rh_op = Op_Invalid, rh_sess_id = None\<rparr>)"

definition decode_open_req :: "bool \<Rightarrow> bytes \<Rightarrow> common_field hsm_result" where
  "decode_open_req is_reopen req =
     and_then (decode_req (ddi_cmd_req (if is_reopen then DdiReopenSessionReq else DdiOpenSessionReq)) req) (\<lambda>v.
       let hdr = hdr_of_req v; data = fields_of_value (fields_of_value (Some v) ! 1);
           cred = session_cred_of_value req (data ! 0); bmk = (if is_reopen then Some (bytes_of_value req (data ! 2)) else None) in
       if bmk = Some [] then Err InvalidState
       else and_then (validate_session_cred cred) (\<lambda>_.
         Ok \<lparr>cf_rev = rh_rev hdr, cf_sess_id = rh_sess_id hdr, cf_cred = cred,
             cf_pub_key = bytes_of_value req (fields_of_value (data ! 1) ! 0), cf_bmk_session = bmk\<rparr>))"

type_synonym ('c, 't) cmd_op = "'c \<times> 't core \<Rightarrow> unit hsm_result \<times> 'c \<times> 't core"

definition begin_open_session :: "cmd_answers \<Rightarrow> u16 \<Rightarrow> (open_session_cmd, 't) cmd_op" where
  "begin_open_session a tag = (\<lambda>(c, q).
     try_in (ok_or (os_common c) InvalidState) (c, q) (\<lambda>common.
     case begin_open_user_session a tag (os_pfn c) (cf_pub_key common) q of
       (Ok ctx, q) \<Rightarrow> (Err hsm_err.Pending, c\<lparr>os_ctx := Some ctx, os_state := CS_WaitForCmd\<rparr>, q)
     | (Panic, q) \<Rightarrow> (Panic, c, q)
     | (Err err, q) \<Rightarrow>
         if err = hsm_err.Pending \<and> os_state c = CS_WaitForEngine then (Err InvalidState, c\<lparr>os_state := CS_Final\<rparr>, q)
         else if err = hsm_err.Pending then (Err err, c\<lparr>os_state := CS_WaitForEngine\<rparr>, q)
         else (Err err, c\<lparr>os_state := CS_Final\<rparr>, q)))"

definition open_on_start :: "cmd_answers \<Rightarrow> u16 \<Rightarrow> (open_session_cmd, 't) cmd_op" where
  "open_on_start a tag = (\<lambda>(c, q).
     try_in (verify_cred_is_set (w_part (world q) (os_pfn c))) (c, q) (\<lambda>_.
     try_in (decode_open_req (os_is_reopen c) (os_req c)) (c, q) (\<lambda>common.
     let c = c\<lparr>os_common := Some common\<rparr> in
     try_in (ok_or (cf_rev common) UnsupportedRevision) (c, q) (\<lambda>rev.
     begin_open_session a tag (c\<lparr>os_api_rev := Some rev\<rparr>, q)))))"

definition open_check_alive :: "(open_session_cmd, 't) cmd_op" where
  "open_check_alive = (\<lambda>(c, q).
     if os_state c \<noteq> CS_WaitForEngine \<and> os_state c \<noteq> CS_WaitForCmd then (Err hsm_err.Pending, c, q)
     else if os_check_alive_cnt c < MAX_RESOURCE_WAIT_TIME
     then (Err hsm_err.Pending, c\<lparr>os_check_alive_cnt := os_check_alive_cnt c + 1\<rparr>, q)
     else (Err IoTimeOut, c\<lparr>os_check_alive_cnt := 0, os_state := CS_Final\<rparr>, q))"

definition open_on_continue :: "cmd_answers \<Rightarrow> open_ctx \<Rightarrow> (open_session_cmd, 't) cmd_op" where
  "open_on_continue a ctx = (\<lambda>(c, q).
     if os_common c = None
     then (case then_drop (Err InvalidState) (pka_drop (oc_engine ctx)) q of (r, q) \<Rightarrow> (r, c, q))
     else (case continue_open_user_session a (os_pfn c) ctx q of
       (Ok ctx, q) \<Rightarrow> (Err hsm_err.Pending, c\<lparr>os_ctx := Some ctx, os_state := CS_WaitForCmd\<rparr>, q)
     | (Panic, q) \<Rightarrow> (Panic, c, q)
     | (Err err, q) \<Rightarrow> (Err (if err = hsm_err.Pending then InvalidState else err), c\<lparr>os_state := CS_Final\<rparr>, q)))"

text \<open>
  The response of an opened session. \<open>ca_bmk_len\<close> is the length of the masked session key, which is
  asked for first; \<open>ca_bmk\<close> is the key, written into the encoded response.
\<close>

definition resp_hdr :: "cmd_answers \<Rightarrow> api_rev option \<Rightarrow> ddi_op \<Rightarrow> u16 option \<Rightarrow> mbor_value" where
  "resp_hdr a r op sess_id =
     VStruct [map_option value_of_rev r, Some (VU32 (ddi_op_code op)), map_option VU16 sess_id, Some (VU32 status_success), Some (VBool (ca_fips a))]"

definition generate_bmk_and_send_response :: "cmd_answers \<Rightarrow> api_rev \<Rightarrow> u16 \<Rightarrow> u8 \<Rightarrow> open_session_cmd \<Rightarrow> unit hsm_result \<times> open_session_cmd" where
  "generate_bmk_and_send_response a r sess_id short_app_id c =
     try_in (ca_bmk_len a) c (\<lambda>n.
     let op = (if os_is_reopen c then Op_ReopenSession else Op_OpenSession);
         t = ddi_cmd_resp (if os_is_reopen c then DdiReopenSessionResp else DdiOpenSessionResp);
         v = VStruct [Some (resp_hdr a (Some r) op (Some sess_id)),
                      Some (VStruct [Some (VU16 sess_id), Some (VU8 short_app_id), Some (VBytes \<lparr>ba_ptr = 0, ba_len = n\<rparr>)])] in
     try_in (encode_resp (ca_io a) t v) c (\<lambda>(buf, v').
     let c = c\<lparr>os_resp := Some buf\<rparr>; place = fields_of_value (fields_of_value (Some v') ! 1) ! 2 in
     try_in (ca_bmk a) c (\<lambda>bmk.
     case place of
       Some (VBytes arr) \<Rightarrow> (Ok (), c\<lparr>os_resp := Some (mem_write (ba_ptr arr) bmk buf)\<rparr>)
     | _ \<Rightarrow> (Ok (), c))))"

definition open_on_end :: "bit_trait \<Rightarrow> cmd_answers \<Rightarrow> open_ctx \<Rightarrow> (open_session_cmd, 't) cmd_op" where
  "open_on_end B a ctx = (\<lambda>(c, q).
     let fail = (\<lambda>e. case then_drop (Err e) (pka_drop (oc_engine ctx)) q of (r, q) \<Rightarrow> (r, c, q)) in
     case (os_api_rev c, os_common c) of
       (None, _) \<Rightarrow> fail InvalidState
     | (Some r, None) \<Rightarrow> fail InvalidState
     | (Some r, Some common) \<Rightarrow>
         if \<not> fst (ca_alloc a) \<or> \<not> snd (ca_alloc a) then fail DmaAllocFailure
         else (case on_part (os_pfn c) (end_open_user_session B (ca_crypto a) (ca_bks a)
                    (case ca_secret a of Some s \<Rightarrow> Ok s | None \<Rightarrow> Err EcdhComputeFailed) (ca_rng a) (ca_now a) (ca_later a) r
                    (cf_cred common) (if os_is_reopen c then cf_sess_id common else None) (cf_bmk_session common)) q of
           (opened, q) \<Rightarrow>
           (case then_drop opened (pka_drop (oc_engine ctx)) q of
              (Ok (_, sess_id), q) \<Rightarrow>
                (let short_app_id = get_user_vault_id (pt_cred_mgr (w_part (world q) (os_pfn c)));
                     c = c\<lparr>os_sess_id := Some sess_id, os_app_vault_id := Some short_app_id\<rparr> in
                 case generate_bmk_and_send_response a r sess_id short_app_id c of (x, c) \<Rightarrow> (x, c, q))
            | (Err err, q) \<Rightarrow> (Err (if err = hsm_err.Pending then InvalidState else err), c\<lparr>os_state := CS_Final\<rparr>, q)
            | (Panic, q) \<Rightarrow> (Panic, c, q))))"

definition open_on_cmd_complete :: "bit_trait \<Rightarrow> cmd_answers \<Rightarrow> (open_session_cmd, 't) cmd_op" where
  "open_on_cmd_complete B a = (\<lambda>(c, q).
     try_in (ok_or (os_ctx c) InvalidState) (c, q) (\<lambda>ctx.
     let c = c\<lparr>os_ctx := None\<rparr> in
     case oc_stage ctx of
       EcdhCompute \<Rightarrow> open_on_end B a ctx (c, q)
     | _ \<Rightarrow> open_on_continue a ctx (c, q)))"

definition open_on_event :: "bit_trait \<Rightarrow> cmd_answers \<Rightarrow> fsm_event \<Rightarrow> u16 \<Rightarrow> (open_session_cmd, 't) cmd_op" where
  "open_on_event B a event tag = (\<lambda>(c, q).
     if os_state c = CS_Init \<and> event = StartCmd then open_on_start a tag (c, q)
     else if os_state c = CS_WaitForEngine \<and> event = ResourceReady Res_Pka then begin_open_session a tag (c, q)
     else if os_state c = CS_WaitForCmd \<and> (\<exists>k. event = PkaDone k \<or> event = PkaError k) then open_on_cmd_complete B a (c, q)
     else if event = CheckAlive then open_check_alive (c, q)
     else if os_state c = CS_Final then (Err InvalidState, c, q)
     else (Err InvalidEvent, c, q))"

definition open_rollback :: "bit_trait \<Rightarrow> cmd_answers \<Rightarrow> (open_session_cmd, 't) cmd_op" where
  "open_rollback B a = (\<lambda>(c, q).
     case os_sess_id c of
       Some sess_id \<Rightarrow> (case on_part (os_pfn c) (rollback_open_session B (ca_busy a) sess_id (os_is_reopen c)) q of (r, q) \<Rightarrow> (r, c, q))
     | None \<Rightarrow> (Ok (), c, q))"

definition open_take_response :: "open_session_cmd \<Rightarrow> bytes option \<times> open_session_cmd" where
  "open_take_response c = (os_resp c, c\<lparr>os_resp := None\<rparr>)"

text \<open>Dropping the command drops the engine it holds.\<close>

definition open_drop :: "open_session_cmd \<Rightarrow> 't core \<Rightarrow> 't core" where
  "open_drop c q = (case os_ctx c of Some ctx \<Rightarrow> snd (pka_drop (oc_engine ctx) q) | None \<Rightarrow> q)"

section \<open>Closing and flushing a session\<close>

text \<open>
  Both commands lock the session, ask the fast path to delete its bulk keys and close it when the fast
  path answers. The channel to the fast path is acquired after the session is locked, is held by the
  command while it waits and is given back when the message cannot be sent.
\<close>

datatype close_state = CL_Init | CL_WaitForResource | CL_WaitForCmd | CL_Final

record close_app_session =
  ca_id :: u16
  ca_channel :: nat

definition begin_close :: "bit_trait \<Rightarrow> cmd_answers \<Rightarrow> u16 \<Rightarrow> u8 \<Rightarrow> u16 \<Rightarrow> 't core \<Rightarrow> close_app_session hsm_result \<times> 't core" where
  "begin_close B a tag pfn i q =
     (let p = w_part (world q) pfn in
      try_in (user_session B i True p) q (\<lambda>_.
      then_op (fp_acquire tag) (\<lambda>k q.
        case k of
          None \<Rightarrow> (Err hsm_err.Pending, q)
        | Some k \<Rightarrow>
            if \<not> ca_sent a then then_drop (Err IpcSendFailure) (fp_drop k) q
            else (Ok \<lparr>ca_id = i, ca_channel = k\<rparr>, q)) (set_part pfn (invalidate B i p) q)))"

definition end_close :: "bit_trait \<Rightarrow> cmd_answers \<Rightarrow> u8 \<Rightarrow> close_app_session \<Rightarrow> 't core \<Rightarrow> unit hsm_result \<times> 't core" where
  "end_close B a pfn op =
     on_part pfn (end_close_user_session B (ca_sess_busy a) (ca_busy a) (ca_message a) (ca_id op))"

record close_session_cmd =
  cl_state :: close_state
  cl_pfn :: u8
  cl_req :: bytes
  cl_decoded :: "req_hdr option"
  cl_resp :: "bytes option"
  cl_committed :: bool
  cl_op :: "close_app_session option"
  cl_sess_id :: "u16 option"

definition close_cmd_new :: "bytes \<Rightarrow> u8 \<Rightarrow> close_session_cmd" where
  "close_cmd_new req pfn = \<lparr>cl_state = CL_Init, cl_pfn = pfn, cl_req = req, cl_decoded = None, cl_resp = None,
     cl_committed = False, cl_op = None, cl_sess_id = None\<rparr>"

definition close_resp :: "cmd_answers \<Rightarrow> req_hdr \<Rightarrow> bytes hsm_result" where
  "close_resp a hdr =
     map_ok fst (encode_resp (ca_io a) (ddi_cmd_resp DdiCloseSessionResp)
       (VStruct [Some (resp_hdr a (rh_rev hdr) Op_CloseSession (rh_sess_id hdr)), Some (VStruct [])]))"

definition close_on_start :: "bit_trait \<Rightarrow> cmd_answers \<Rightarrow> u16 \<Rightarrow> (close_session_cmd, 't) cmd_op" where
  "close_on_start B a tag = (\<lambda>(c, q).
     try_in (decode_req (ddi_cmd_req DdiCloseSessionReq) (cl_req c)) (c, q) (\<lambda>v.
     let hdr = hdr_of_req v; c = c\<lparr>cl_decoded := Some hdr\<rparr> in
     case rh_sess_id hdr of
       None \<Rightarrow> (Err SessionExpected, c, q)
     | Some sess_id \<Rightarrow>
         let c = c\<lparr>cl_sess_id := Some sess_id\<rparr>; p = w_part (world q) (cl_pfn c) in
         if pt_needs_renegotiation B sess_id p
         then (let q = set_part (cl_pfn c) (flush_session B sess_id p) q; c = c\<lparr>cl_committed := True\<rparr> in
               try_in (close_resp a hdr) (c, q) (\<lambda>buf. (Ok (), c\<lparr>cl_resp := Some buf, cl_state := CL_Final\<rparr>, q)))
         else (case begin_close B a tag (cl_pfn c) sess_id q of
             (Ok op, q) \<Rightarrow> (Err hsm_err.Pending, c\<lparr>cl_op := Some op, cl_state := CL_WaitForCmd\<rparr>, q)
           | (Err err, q) \<Rightarrow> (Err err, c\<lparr>cl_state := (if err = hsm_err.Pending then CL_WaitForResource else CL_Final)\<rparr>, q)
           | (Panic, q) \<Rightarrow> (Panic, c, q))))"

definition close_on_engine_ready :: "bit_trait \<Rightarrow> cmd_answers \<Rightarrow> u16 \<Rightarrow> (close_session_cmd, 't) cmd_op" where
  "close_on_engine_ready B a tag = (\<lambda>(c, q).
     try_in (ok_or (cl_sess_id c) InvalidState) (c, q) (\<lambda>sess_id.
     case begin_close B a tag (cl_pfn c) sess_id q of
       (Ok op, q) \<Rightarrow> (Err hsm_err.Pending, c\<lparr>cl_op := Some op, cl_state := CL_WaitForCmd\<rparr>, q)
     | (Err err, q) \<Rightarrow> (Err (if err = hsm_err.Pending then InvalidState else err), c\<lparr>cl_state := CL_Final\<rparr>, q)
     | (Panic, q) \<Rightarrow> (Panic, c, q)))"

definition close_on_cmd_complete :: "bit_trait \<Rightarrow> cmd_answers \<Rightarrow> (close_session_cmd, 't) cmd_op" where
  "close_on_cmd_complete B a = (\<lambda>(c, q).
     try_in (ok_or (cl_decoded c) InvalidState) (c, q) (\<lambda>hdr.
     try_in (ok_or (cl_op c) InvalidState) (c, q) (\<lambda>op.
     case end_close B a (cl_pfn c) op q of (x, q) \<Rightarrow>
     try_in x (c, q) (\<lambda>_.
     let c = c\<lparr>cl_committed := True\<rparr> in
     try_in (close_resp a hdr) (c, q) (\<lambda>buf. (Ok (), c\<lparr>cl_resp := Some buf, cl_state := CL_Final\<rparr>, q))))))"

definition is_resource_ready :: "fsm_event \<Rightarrow> bool" where
  "is_resource_ready event = (case event of ResourceReady _ \<Rightarrow> True | _ \<Rightarrow> False)"

definition close_on_event :: "bit_trait \<Rightarrow> cmd_answers \<Rightarrow> fsm_event \<Rightarrow> u16 \<Rightarrow> (close_session_cmd, 't) cmd_op" where
  "close_on_event B a event tag = (\<lambda>(c, q).
     if cl_state c = CL_Init \<and> event = StartCmd then close_on_start B a tag (c, q)
     else if cl_state c = CL_WaitForResource \<and> is_resource_ready event then close_on_engine_ready B a tag (c, q)
     else if cl_state c = CL_WaitForCmd \<and> event = FpToHsmIpcResponse then close_on_cmd_complete B a (c, q)
     else if event = CheckAlive then (Err hsm_err.Pending, c, q)
     else if cl_state c = CL_Final then (Err InvalidState, c, q)
     else (Err InvalidEvent, c, q))"

definition drop_channel :: "close_app_session option \<Rightarrow> 't core \<Rightarrow> 't core" where
  "drop_channel x q = (case x of Some op \<Rightarrow> snd (fp_drop (ca_channel op) q) | None \<Rightarrow> q)"

record flush_session_cmd =
  fl_state :: close_state
  fl_pfn :: u8
  fl_committed :: bool
  fl_op :: "close_app_session option"
  fl_sess_id :: u16

definition flush_cmd_new :: "u16 \<Rightarrow> u8 \<Rightarrow> flush_session_cmd" where
  "flush_cmd_new sess_id pfn = \<lparr>fl_state = CL_Init, fl_pfn = pfn, fl_committed = False, fl_op = None, fl_sess_id = sess_id\<rparr>"

definition flush_on_start :: "bit_trait \<Rightarrow> cmd_answers \<Rightarrow> u16 \<Rightarrow> (flush_session_cmd, 't) cmd_op" where
  "flush_on_start B a tag = (\<lambda>(c, q).
     case begin_close B a tag (fl_pfn c) (fl_sess_id c) q of
       (Ok op, q) \<Rightarrow> (Err hsm_err.Pending, c\<lparr>fl_op := Some op, fl_state := CL_WaitForCmd\<rparr>, q)
     | (Err err, q) \<Rightarrow> (Err err, c\<lparr>fl_state := (if err = hsm_err.Pending then CL_WaitForResource else CL_Final)\<rparr>, q)
     | (Panic, q) \<Rightarrow> (Panic, c, q))"

definition flush_on_engine_ready :: "bit_trait \<Rightarrow> cmd_answers \<Rightarrow> u16 \<Rightarrow> (flush_session_cmd, 't) cmd_op" where
  "flush_on_engine_ready B a tag = (\<lambda>(c, q).
     case begin_close B a tag (fl_pfn c) (fl_sess_id c) q of
       (Ok op, q) \<Rightarrow> (Err hsm_err.Pending, c\<lparr>fl_op := Some op, fl_state := CL_WaitForCmd\<rparr>, q)
     | (Err err, q) \<Rightarrow> (Err (if err = hsm_err.Pending then InvalidState else err), c\<lparr>fl_state := CL_Final\<rparr>, q)
     | (Panic, q) \<Rightarrow> (Panic, c, q))"

definition flush_on_cmd_complete :: "bit_trait \<Rightarrow> cmd_answers \<Rightarrow> (flush_session_cmd, 't) cmd_op" where
  "flush_on_cmd_complete B a = (\<lambda>(c, q).
     try_in (ok_or (fl_op c) InvalidState) (c, q) (\<lambda>op.
     case end_close B a (fl_pfn c) op q of (x, q) \<Rightarrow>
     try_in x (c, q) (\<lambda>_. (Ok (), c\<lparr>fl_committed := True, fl_state := CL_Final\<rparr>, q))))"

definition flush_on_event :: "bit_trait \<Rightarrow> cmd_answers \<Rightarrow> fsm_event \<Rightarrow> u16 \<Rightarrow> (flush_session_cmd, 't) cmd_op" where
  "flush_on_event B a event tag = (\<lambda>(c, q).
     if fl_state c = CL_Init \<and> event = StartCmd then flush_on_start B a tag (c, q)
     else if fl_state c = CL_WaitForResource \<and> is_resource_ready event then flush_on_engine_ready B a tag (c, q)
     else if fl_state c = CL_WaitForCmd \<and> event = FpToHsmIpcResponse then flush_on_cmd_complete B a (c, q)
     else if event = CheckAlive then (Err hsm_err.Pending, c, q)
     else if fl_state c = CL_Final then (Err InvalidState, c, q)
     else (Err InvalidEvent, c, q))"

section \<open>Commands of a request\<close>

text \<open>
  The commands as the state machine of a request calls them. The commands that are not modelled are
  those of another environment \<open>V\<close>.
\<close>

datatype (plugins only: code size) 'o session_cmd =
    Cmd_Open open_session_cmd
  | Cmd_Close close_session_cmd
  | Cmd_Flush flush_session_cmd
  | Cmd_Unsupported
  | Cmd_Other 'o

definition session_cmd_new :: "('o, 't core) hsm_env \<Rightarrow> u8 \<Rightarrow> cmd_request \<Rightarrow> 'o session_cmd" where
  "session_cmd_new V pfn req = (case req of
     Req_Plain op buf \<Rightarrow>
       if op = Op_OpenSession then Cmd_Open (open_cmd_new buf pfn False)
       else if op = Op_ReopenSession then Cmd_Open (open_cmd_new buf pfn True)
       else if op = Op_CloseSession then Cmd_Close (close_cmd_new buf pfn)
       else Cmd_Other (cmd_new V pfn req)
   | Req_Flush sess_id \<Rightarrow> Cmd_Flush (flush_cmd_new sess_id pfn)
   | Req_Unsupported \<Rightarrow> Cmd_Unsupported
   | _ \<Rightarrow> Cmd_Other (cmd_new V pfn req))"

definition session_cmd_on_event :: "bit_trait \<Rightarrow> cmd_answers \<Rightarrow> ('o, 't core) hsm_env \<Rightarrow> fsm_event \<Rightarrow> u16 \<Rightarrow> 'o session_cmd \<Rightarrow> 't core \<Rightarrow>
    unit hsm_result \<times> 'o session_cmd \<times> 't core" where
  "session_cmd_on_event B a V event tag c q = (case c of
     Cmd_Open c \<Rightarrow> (case open_on_event B a event tag (c, q) of (r, c, q) \<Rightarrow> (r, Cmd_Open c, q))
   | Cmd_Close c \<Rightarrow> (case close_on_event B a event tag (c, q) of (r, c, q) \<Rightarrow> (r, Cmd_Close c, q))
   | Cmd_Flush c \<Rightarrow> (case flush_on_event B a event tag (c, q) of (r, c, q) \<Rightarrow> (r, Cmd_Flush c, q))
   | Cmd_Unsupported \<Rightarrow> (Err UnsupportedCmd, Cmd_Unsupported, q)
   | Cmd_Other c \<Rightarrow> (case cmd_on_event V event tag c q of (r, c, q) \<Rightarrow> (r, Cmd_Other c, q)))"

definition session_cmd_rollback :: "bit_trait \<Rightarrow> cmd_answers \<Rightarrow> ('o, 't core) hsm_env \<Rightarrow> u16 \<Rightarrow> 'o session_cmd \<Rightarrow> 't core \<Rightarrow>
    unit hsm_result \<times> 'o session_cmd \<times> 't core" where
  "session_cmd_rollback B a V tag c q = (case c of
     Cmd_Open c \<Rightarrow> (case open_rollback B a (c, q) of (r, c, q) \<Rightarrow> (r, Cmd_Open c, q))
   | Cmd_Other c \<Rightarrow> (case cmd_rollback V tag c q of (r, c, q) \<Rightarrow> (r, Cmd_Other c, q))
   | _ \<Rightarrow> (Ok (), c, q))"

definition session_cmd_take_response :: "('o, 't core) hsm_env \<Rightarrow> 'o session_cmd \<Rightarrow> bytes option \<times> 'o session_cmd" where
  "session_cmd_take_response V c = (case c of
     Cmd_Open c \<Rightarrow> (case open_take_response c of (b, c) \<Rightarrow> (b, Cmd_Open c))
   | Cmd_Close c \<Rightarrow> (cl_resp c, Cmd_Close (c\<lparr>cl_resp := None\<rparr>))
   | Cmd_Flush _ \<Rightarrow> (None, c)
   | Cmd_Unsupported \<Rightarrow> (None, c)
   | Cmd_Other c \<Rightarrow> (case cmd_take_response V c of (b, c) \<Rightarrow> (b, Cmd_Other c)))"

definition session_cmd_session_id :: "('o, 't core) hsm_env \<Rightarrow> 'o session_cmd \<Rightarrow> u16 option" where
  "session_cmd_session_id V c = (case c of
     Cmd_Open c \<Rightarrow> os_sess_id c | Cmd_Close c \<Rightarrow> cl_sess_id c | Cmd_Flush c \<Rightarrow> Some (fl_sess_id c)
   | Cmd_Unsupported \<Rightarrow> None | Cmd_Other c \<Rightarrow> cmd_session_id V c)"

definition session_cmd_retry :: "('o, 't core) hsm_env \<Rightarrow> 'o session_cmd \<Rightarrow> bool" where
  "session_cmd_retry V c = (case c of
     Cmd_Close c \<Rightarrow> \<not> cl_committed c | Cmd_Flush c \<Rightarrow> \<not> fl_committed c | Cmd_Other c \<Rightarrow> cmd_retry V c | _ \<Rightarrow> False)"

definition session_cmd_acquire :: "('o, 't core) hsm_env \<Rightarrow> u16 \<Rightarrow> res_id \<Rightarrow> 'o session_cmd \<Rightarrow> fsm_event hsm_result \<times> 'o session_cmd" where
  "session_cmd_acquire V tag res_id c = (case c of
     Cmd_Open _ \<Rightarrow> (Ok (ResourceReady Res_Pka), c)
   | Cmd_Close _ \<Rightarrow> (Ok (ResourceReady Res_FpIpcChannel), c)
   | Cmd_Flush _ \<Rightarrow> (if res_id = Res_FpIpcChannel then Ok (ResourceReady Res_FpIpcChannel) else Panic, c)
   | Cmd_Unsupported \<Rightarrow> (Panic, c)
   | Cmd_Other c \<Rightarrow> (case cmd_acquire_resource V tag res_id c of (e, c) \<Rightarrow> (e, Cmd_Other c)))"

definition session_env :: "bit_trait \<Rightarrow> cmd_answers \<Rightarrow> ('o, 't core) hsm_env \<Rightarrow> ('o session_cmd, 't core) hsm_env" where
  "session_env B a V =
     \<lparr>en_part = (\<lambda>pfn q. w_part (world q) pfn), en_set_part = set_part, en_io_queue = en_io_queue V,
      cmd_new = session_cmd_new V, cmd_on_event = session_cmd_on_event B a V, cmd_rollback = session_cmd_rollback B a V,
      cmd_take_response = session_cmd_take_response V, cmd_session_id = session_cmd_session_id V,
      cmd_app_vault_id = (\<lambda>c. case c of Cmd_Open c \<Rightarrow> os_app_vault_id c | Cmd_Other c \<Rightarrow> cmd_app_vault_id V c | _ \<Rightarrow> None),
      cmd_retry = session_cmd_retry V,
      cmd_requires_resource = (\<lambda>tag res_id c. case c of Cmd_Unsupported \<Rightarrow> False | Cmd_Other c \<Rightarrow> cmd_requires_resource V tag res_id c | _ \<Rightarrow> True),
      cmd_acquire_resource = session_cmd_acquire V,
      cmd_drop = (\<lambda>c q. case c of
          Cmd_Open c \<Rightarrow> open_drop c q | Cmd_Close c \<Rightarrow> drop_channel (cl_op c) q | Cmd_Flush c \<Rightarrow> drop_channel (fl_op c) q
        | Cmd_Unsupported \<Rightarrow> q | Cmd_Other c \<Rightarrow> cmd_drop V c q)\<rparr>"

end
