(* ===== verification/Hsm_Fsm_Props.thy ===== *)
theory Hsm_Fsm_Props
  imports Hsm_Fsm
begin

text \<open>
  What the state machine of a request guarantees whatever the host, the hardware and the commands
  do: it never misses a part of its own state, it completes a request once, writes to the host at
  most once and rolls a command back at most once; and a command only starts for a request whose
  header agrees with its queue entry and with the session it claims.
\<close>

section \<open>Invariant\<close>

primrec is_cqe :: "io_log \<Rightarrow> bool" where
  "is_cqe (Log_Dma_In p a n t) = False"
| "is_cqe (Log_Dma_Out p a b t) = False"
| "is_cqe (Log_Cqe c s x t) = True"
| "is_cqe (Log_End_Recv a s) = False"
| "is_cqe Log_Rollback = False"

primrec is_dma_out :: "io_log \<Rightarrow> bool" where
  "is_dma_out (Log_Dma_In p a n t) = False"
| "is_dma_out (Log_Dma_Out p a b t) = True"
| "is_dma_out (Log_Cqe c s x t) = False"
| "is_dma_out (Log_End_Recv a s) = False"
| "is_dma_out Log_Rollback = False"

definition completions :: "'c hsm_fsm \<Rightarrow> nat" where
  "completions f = length (filter is_cqe (fs_log f))"

definition responses :: "'c hsm_fsm \<Rightarrow> nat" where
  "responses f = length (filter is_dma_out (fs_log f))"

definition rollbacks :: "'c hsm_fsm \<Rightarrow> nat" where
  "rollbacks f = length (filter (\<lambda>l. l = Log_Rollback) (fs_log f))"

lemma counts_log [simp]:
  "completions (log_io l f) = completions f + of_bool (is_cqe l)"
  "responses (log_io l f) = responses f + of_bool (is_dma_out l)"
  "rollbacks (log_io l f) = rollbacks f + of_bool (l = Log_Rollback)"
  by (simp_all add: completions_def responses_def rollbacks_def log_io_def)

lemma counts_update [simp]:
  "completions (f\<lparr>fs_state := a\<rparr>) = completions f" "responses (f\<lparr>fs_state := a\<rparr>) = responses f" "rollbacks (f\<lparr>fs_state := a\<rparr>) = rollbacks f"
  "completions (f\<lparr>fs_dma_buf := b\<rparr>) = completions f" "responses (f\<lparr>fs_dma_buf := b\<rparr>) = responses f" "rollbacks (f\<lparr>fs_dma_buf := b\<rparr>) = rollbacks f"
  "completions (f\<lparr>fs_cmd := c\<rparr>) = completions f" "responses (f\<lparr>fs_cmd := c\<rparr>) = responses f" "rollbacks (f\<lparr>fs_cmd := c\<rparr>) = rollbacks f"
  "completions (f\<lparr>fs_err := e\<rparr>) = completions f" "responses (f\<lparr>fs_err := e\<rparr>) = responses f" "rollbacks (f\<lparr>fs_err := e\<rparr>) = rollbacks f"
  "completions (f\<lparr>fs_session_flags := x\<rparr>) = completions f" "responses (f\<lparr>fs_session_flags := x\<rparr>) = responses f"
  "rollbacks (f\<lparr>fs_session_flags := x\<rparr>) = rollbacks f"
  "completions (f\<lparr>fs_session_id := y\<rparr>) = completions f" "responses (f\<lparr>fs_session_id := y\<rparr>) = responses f"
  "rollbacks (f\<lparr>fs_session_id := y\<rparr>) = rollbacks f"
  "completions (f\<lparr>fs_app_vault_id := z\<rparr>) = completions f" "responses (f\<lparr>fs_app_vault_id := z\<rparr>) = responses f"
  "rollbacks (f\<lparr>fs_app_vault_id := z\<rparr>) = rollbacks f"
  "completions (f\<lparr>fs_req_hdr := h\<rparr>) = completions f" "responses (f\<lparr>fs_req_hdr := h\<rparr>) = responses f"
  "rollbacks (f\<lparr>fs_req_hdr := h\<rparr>) = rollbacks f"
  "completions (f\<lparr>fs_pfn := p\<rparr>) = completions f" "responses (f\<lparr>fs_pfn := p\<rparr>) = responses f" "rollbacks (f\<lparr>fs_pfn := p\<rparr>) = rollbacks f"
  "completions (f\<lparr>fs_ioq := i\<rparr>) = completions f" "responses (f\<lparr>fs_ioq := i\<rparr>) = responses f" "rollbacks (f\<lparr>fs_ioq := i\<rparr>) = rollbacks f"
  "completions (f\<lparr>fs_sqe := s\<rparr>) = completions f" "responses (f\<lparr>fs_sqe := s\<rparr>) = responses f" "rollbacks (f\<lparr>fs_sqe := s\<rparr>) = rollbacks f"
  "completions (f\<lparr>fs_sqe_addr := w\<rparr>) = completions f" "responses (f\<lparr>fs_sqe_addr := w\<rparr>) = responses f"
  "rollbacks (f\<lparr>fs_sqe_addr := w\<rparr>) = rollbacks f"
  by (simp_all add: completions_def responses_def rollbacks_def)

lemma log_io_sel [simp]:
  "fs_state (log_io l f) = fs_state f" "fs_ioq (log_io l f) = fs_ioq f" "fs_pfn (log_io l f) = fs_pfn f"
  "fs_sqe (log_io l f) = fs_sqe f" "fs_dma_buf (log_io l f) = fs_dma_buf f" "fs_cmd (log_io l f) = fs_cmd f"
  "fs_req_hdr (log_io l f) = fs_req_hdr f" "fs_err (log_io l f) = fs_err f" "fs_log (log_io l f) = fs_log f @ [l]"
  by (simp_all add: log_io_def)

text \<open>
  A request that has its queue and function and is not completed; \<open>n\<close> bounds its responses. Only a
  request with an error has rolled its command back.
\<close>

definition live :: "nat \<Rightarrow> 'c hsm_fsm \<Rightarrow> bool" where
  "live n f \<longleftrightarrow> fs_ioq f \<noteq> None \<and> fs_pfn f \<noteq> None \<and> completions f = 0 \<and> responses f \<le> n \<and>
     rollbacks f \<le> 1 \<and> (fs_err f = None \<longrightarrow> rollbacks f = 0)"

definition fsm_wf :: "'c hsm_fsm \<Rightarrow> bool" where
  "fsm_wf f \<longleftrightarrow> (case fs_state f of
       St_Init \<Rightarrow> fs_log f = []
     | St_DmaIn \<Rightarrow> live 0 f \<and> fs_dma_buf f \<noteq> None
     | St_Cmd \<Rightarrow> live 0 f \<and> fs_cmd f \<noteq> None
     | St_DmaOut \<Rightarrow> live 1 f \<and> fs_dma_buf f \<noteq> None
     | St_DmaOutErr \<Rightarrow> live 1 f \<and> fs_cmd f \<noteq> None \<and> fs_err f \<noteq> None
     | St_Completion \<Rightarrow> fs_ioq f \<noteq> None \<and> completions f = 1 \<and> responses f \<le> 1 \<and> rollbacks f \<le> 1)"

definition final_errors :: "hsm_err set" where
  "final_errors = {IoChannelRecvNone, IoChannelRecvErr, PartitionNotEnabled, QueueNotEnabled, IoTimeOut, IoChannelSendError,
     IoChannelSendCompleteError, IoChannelSendCompleteNone}"

definition good :: "unit hsm_result \<Rightarrow> 'c hsm_fsm \<Rightarrow> bool" where
  "good r f \<longleftrightarrow> completions f \<le> 1 \<and> responses f \<le> 1 \<and> rollbacks f \<le> 1 \<and>
     (case r of Ok _ \<Rightarrow> completions f = 1 | Err e \<Rightarrow> (if e = hsm_err.Pending then fsm_wf f else e \<in> final_errors) | Panic \<Rightarrow> True)"

lemma live_mono: "live n f \<Longrightarrow> n \<le> m \<Longrightarrow> live m f"
  by (simp add: live_def)

lemma live_counts: "live 1 f \<Longrightarrow> completions f \<le> 1 \<and> responses f \<le> 1 \<and> rollbacks f \<le> 1"
  by (simp add: live_def)

section \<open>The operations keep it\<close>

lemma begin_send_cases:
  assumes "live 1 f" and "begin_send io cqe tag (f, q) = (r, f', q')"
  shows "r = Ok () \<and> good (Err hsm_err.Pending) f' \<or> r = Err IoChannelSendError \<and> good r f'"
  using assms by (auto simp: begin_send_def good_def fsm_wf_def live_def final_errors_def split: if_splits)

lemma sends_good:
  "live 1 f \<Longrightarrow> send_err_cqe io e tag (f, q) = (r, f', q') \<Longrightarrow> good r f'"
  "live 1 f \<Longrightarrow> send_cqe io tag (f, q) = (r, f', q') \<Longrightarrow> good r f'"
  "live 1 f \<Longrightarrow> then_op (send_flush_cqe io i fl tag) (\<lambda>_ s. (Err hsm_err.Pending, s)) (f, q) = (r, f', q') \<Longrightarrow> good r f'"
proof -
  have send: "good r f'"
    if "live 1 f" "then_op (begin_send io cqe tag) (\<lambda>_ s. (Err hsm_err.Pending, s)) (f, q) = (r, f', q')" for cqe r and f f' :: "'c hsm_fsm" and q q' :: 'd
  proof -
    obtain x g q'' where x: "begin_send io cqe tag (f, q) = (x, g, q'')" by (cases "begin_send io cqe tag (f, q)") auto
    show ?thesis using begin_send_cases [OF that(1) x] that(2) x by (auto simp: then_op_def)
  qed
  show "live 1 f \<Longrightarrow> send_err_cqe io e tag (f, q) = (r, f', q') \<Longrightarrow> good r f'"
    unfolding send_err_cqe_def prod.case by (rule send)
  show "live 1 f \<Longrightarrow> then_op (send_flush_cqe io i fl tag) (\<lambda>_ s. (Err hsm_err.Pending, s)) (f, q) = (r, f', q') \<Longrightarrow> good r f'"
    by (rule send) (simp_all add: send_flush_cqe_def then_op_def)
  have "live 1 (f\<lparr>fs_dma_buf := None\<rparr>)" if "live 1 f" using that by (simp add: live_def)
  moreover have "fs_ioq f \<noteq> None" if "live 1 f" using that by (simp add: live_def)
  ultimately show "live 1 f \<Longrightarrow> send_cqe io tag (f, q) = (r, f', q') \<Longrightarrow> good r f'"
    using send [of "f\<lparr>fs_dma_buf := None\<rparr>"] by (auto simp: send_cqe_def Let_def)
qed

lemma send_err_any:
  assumes "live 1 f" and "send_err_cqe io e tag (f, q) = (r, f', q')"
  shows "\<exists>e'. r = Err e' \<and> good (Err e') f'"
proof -
  obtain x where x: "r = Err x" "(send_err_cqe io e tag (f, q) :: unit hsm_result \<times> _) = (Err x, f', q')"
    using assms by (auto simp: send_err_cqe_def then_op_def begin_send_def split: option.splits if_splits)
  then show ?thesis using sends_good(1) [OF assms(1) x(2)] by blast
qed

text \<open>The start of the transfer of a response, with the state it leaves.\<close>

lemma begin_out_dma_cases:
  assumes "live 0 f" and "fs_dma_buf f \<noteq> None"
  obtains (started) f' where "begin_out_dma io tag (f, q) = (Ok (), f', q)" "good (Err hsm_err.Pending) f'"
  | (failed) "begin_out_dma io tag (f, q) = (Err DmaStartError, f, q)"
  using assms by (cases "io_begin_txn io") (auto simp: begin_out_dma_def live_def good_def fsm_wf_def)

lemma rollback_cases:
  assumes "live n f" and "fs_err f \<noteq> None" and "rollbacks f = 0" and "issue_command_rollback E tag (f, q) = (r, g, q')"
  shows "live n g" "fs_err g = fs_err f" "fs_state g = fs_state f" "fs_cmd g = None \<longleftrightarrow> fs_cmd f = None"
    "fs_cmd f = None \<Longrightarrow> r = Err ExpectedCmdFsm" "fs_dma_buf g = fs_dma_buf f" "fs_req_hdr g = fs_req_hdr f" "fs_sqe g = fs_sqe f"
  using assms by (auto simp: issue_command_rollback_def live_def split: option.splits prod.splits)

lemma response_failed_good:
  assumes "live 1 f" and "response_failed E io tag err (f, q) = (r, f', q')"
  shows "good r f'"
proof (cases "fs_err f")
  case None
  let ?f = "f\<lparr>fs_err := Some err, fs_state := St_DmaOutErr\<rparr>"
  obtain x g q'' where x: "issue_command_rollback E tag (?f, q) = (x, g, q'')" by (cases "issue_command_rollback E tag (?f, q)") auto
  have "live 1 ?f" "rollbacks ?f = 0" using assms(1) None by (auto simp: live_def)
  note g = rollback_cases [OF this(1) _ this(2) x]
  consider "x = Panic" "r = Panic" "f' = g" | "x = Err hsm_err.Pending" "r = Err hsm_err.Pending" "f' = g"
    | "send_err_cqe io err tag (g, q'') = (r, f', q')"
    using assms(2) None x by (auto simp: response_failed_def split: if_splits)
  then show ?thesis
  proof cases
    case 2
    then show ?thesis using g live_counts [OF g(1)] by (auto simp: good_def fsm_wf_def)
  next
    case 3
    then show ?thesis using sends_good(1) [OF g(1)] by simp
  qed (use live_counts [OF g(1)] in \<open>simp add: good_def\<close>)
next
  case (Some e)
  then show ?thesis using assms sends_good(1) by (auto simp: response_failed_def)
qed

lemma start_response_good:
  assumes "live 0 f" and "fs_cmd f \<noteq> None" and "fs_dma_buf f \<noteq> None" and "start_response E io tag (f, q) = (r, f', q')"
  shows "good r f'"
proof -
  define fl where "fl = (if sf_ctrl (fs_session_flags f) = Ctrl_Close
    then (fs_session_flags f)\<lparr>sf_session_closed := \<not> cmd_retry E (the (fs_cmd f))\<rparr> else fs_session_flags f)"
  have fl: "start_response E io tag (f, q) =
      (case begin_out_dma io tag (f\<lparr>fs_session_flags := fl\<rparr>, q) of
         (Ok _, s) \<Rightarrow> (Err hsm_err.Pending, s) | (Err err, s) \<Rightarrow> response_failed E io tag err s | (Panic, s) \<Rightarrow> (Panic, s))"
    using assms(2) by (auto simp: start_response_def fl_def)
  have live: "live 0 (f\<lparr>fs_session_flags := fl\<rparr>)" using assms(1) by (simp add: live_def)
  show ?thesis
  proof (cases rule: begin_out_dma_cases [OF live, of io tag q])
    case 1 then show ?case using assms(3) by simp
  next
    case (2 g) then show ?thesis using fl assms(4) by simp
  next
    case 3 then show ?thesis using fl assms(4) response_failed_good [OF live_mono [OF live], where r = r and f' = f' and q' = q'] by simp
  qed
qed

text \<open>The answer of a command: one that is taken over, or the end of the event.\<close>

lemma cmd_err_resp_cases:
  assumes "live 0 f" and "cmd_err_resp io tag e (f, q) = (r, f', q')"
  shows "(\<exists>b i. r = Ok (Some b, i, None)) \<and> f' = f \<or> r = Panic \<and> f' = f \<or> (\<exists>e'. r = Err e' \<and> good (Err e') f')"
proof (cases "encode_err_resp io (fs_req_hdr f) (rh_sess_id (fs_req_hdr f)) (ddi_status_of_err e) (rh_op (fs_req_hdr f))")
  case (Err x)
  then have "send_err_cqe io x tag (f, q) = (r, f', q')" using assms(2) by (simp add: cmd_err_resp_def)
  from send_err_any [OF live_mono [OF assms(1)] this] show ?thesis by simp
qed (use assms(2) in \<open>auto simp: cmd_err_resp_def\<close>)

lemma cmd_answer_cases:
  assumes "live 0 f" and "fs_cmd f \<noteq> None" and "cmd_answer E io tag resp c (f, q) = (r, f', q')"
  shows "is_ok r \<and> live 0 f' \<and> fs_cmd f' \<noteq> None \<and> fs_state f' = fs_state f \<or>
    r = Panic \<and> good Panic f' \<or> (\<exists>e. r = Err e \<and> good (Err e) f')"
proof -
  have never: "good Panic g" if "live 0 g" for g :: "'a hsm_fsm" using live_counts [OF live_mono [OF that]] by (simp add: good_def)
  consider (pending) "resp = Err hsm_err.Pending" | (panic) "resp = Panic"
    | (again) e where "fs_err f = Some e" "resp \<noteq> Err hsm_err.Pending" "resp \<noteq> Panic"
    | (first) e where "fs_err f = None" "resp = Err e" "e \<noteq> hsm_err.Pending" | (ok) "fs_err f = None" "resp = Ok ()"
    by (cases resp; cases "fs_err f") auto
  then show ?thesis
  proof cases
    case pending
    then show ?thesis using assms by (auto simp: cmd_answer_def)
  next
    case panic
    then show ?thesis using assms never [OF assms(1)] by (simp add: cmd_answer_def)
  next
    case (again e)
    then have e: "cmd_err_resp io tag e (f, q) = (r, f', q')" using assms(3) by (cases resp) (simp_all add: cmd_answer_def)
    show ?thesis using cmd_err_resp_cases [OF assms(1) e] never [OF assms(1)] assms(1,2) by auto
  next
    case ok
    then show ?thesis using assms by (cases "cmd_take_response E c") (auto simp: cmd_answer_def live_def)
  next
    case (first e)
    let ?f = "f\<lparr>fs_err := Some e\<rparr>"
    obtain x g q'' where x: "issue_command_rollback E tag (?f, q) = (x, g, q'')" by (cases "issue_command_rollback E tag (?f, q)") auto
    have "live 0 ?f" "rollbacks ?f = 0" using assms(1) first by (auto simp: live_def)
    note g = rollback_cases [OF this(1) _ this(2) x]
    then have "live 0 g" "fs_cmd g \<noteq> None" "fs_state g = fs_state f" using assms(2) by simp_all
    note live = this
    consider "r = Panic" "f' = g" | y where "r = Ok y" "f' = g" | "cmd_err_resp io tag e (g, q'') = (r, f', q')"
      using assms(3) first x by (auto simp: cmd_answer_def split: if_splits)
    then show ?thesis
    proof cases
      case 3
      show ?thesis using cmd_err_resp_cases [OF live(1) 3] never [OF live(1)] live by auto
    qed (use live never [OF live(1)] in simp_all)
  qed
qed

lemma process_cmd_event_good:
  assumes "live 0 f" and "fs_cmd f \<noteq> None" and "fs_state f = St_Cmd" and "process_cmd_event E io event tag (f, q) = (r, f', q')"
  shows "good r f'"
proof -
  obtain c0 resp c q1 where c: "fs_cmd f = Some c0" "cmd_on_event E event tag c0 q = (resp, c, q1)"
    using assms(2) by (metis option.exhaust prod_cases3)
  let ?f = "f\<lparr>fs_cmd := Some c\<rparr>"
  have live: "live 0 ?f" using assms(1) by (simp add: live_def)
  then have flags: "live 1 (?f\<lparr>fs_session_flags := fl\<rparr>)" for fl by (simp add: live_def)
  obtain x g q2 where x: "cmd_answer E io tag resp c (?f, q1) = (x, g, q2)" by (cases "cmd_answer E io tag resp c (?f, q1)") auto
  note a = cmd_answer_cases [OF live _ x]
  consider (panic) "r = Panic" "f' = ?f"
    | (flush) fl where "then_op (send_flush_cqe io (sqe_session_id (fs_sqe f)) fl tag) (\<lambda>_ s. (Err hsm_err.Pending, s))
        (?f\<lparr>fs_session_flags := fl\<rparr>, q1) = (r, f', q')"
    | (answer) "try_in x (g, q2) (\<lambda>y. let g = g\<lparr>fs_dma_buf := fst y, fs_session_id := fst (snd y), fs_app_vault_id := snd (snd y)\<rparr> in
        if fst y \<noteq> None then start_response E io tag (g, q2) else (Err hsm_err.Pending, g, q2)) = (r, f', q')"
    using assms(4) c x by (cases x) (auto simp: process_cmd_event_def Let_def then_op_def case_prod_beta split: if_splits)
  then show ?thesis
  proof cases
    case panic
    then show ?thesis using live_counts [OF live_mono [OF live]] by (simp add: good_def)
  next
    case (flush fl)
    show ?thesis by (rule sends_good(3) [OF flags flush])
  next
    case answer
    show ?thesis
    proof (cases x)
      case (Ok y)
      let ?g = "g\<lparr>fs_dma_buf := fst y, fs_session_id := fst (snd y), fs_app_vault_id := snd (snd y)\<rparr>"
      have g: "live 0 ?g" "fs_cmd ?g \<noteq> None" "fs_state ?g = St_Cmd" using a Ok assms(3) by (auto simp: live_def)
      show ?thesis
      proof (cases "fst y")
        case None
        then show ?thesis using answer Ok g live_counts [OF live_mono [OF g(1)]] by (auto simp: good_def fsm_wf_def Let_def)
      next
        case (Some b)
        then show ?thesis using answer Ok start_response_good [OF g(1,2), where r = r and f' = f' and q' = q'] by (simp add: Let_def)
      qed
    qed (use answer a in auto)
  qed
qed

text \<open>Creating the command: it exists afterwards, or the request is answered with an error.\<close>

definition refused :: "unit hsm_result \<Rightarrow> 'c hsm_fsm \<Rightarrow> bool" where
  "refused r f \<longleftrightarrow> live 0 f \<and> (r = Panic \<or> (\<exists>e. r = Err e))"

lemma on_err_refused: "live 0 f \<Longrightarrow> fsm_on_err io i st op (f, q) = (r, f', q') \<Longrightarrow> refused r f'"
  by (auto simp: fsm_on_err_def refused_def live_def split: outcome.splits)

lemma start_cmd_cases:
  assumes "live 0 f" and "start_cmd B E io buf (f, q) = (r, f', q')"
  shows "r = Ok () \<and> live 0 f' \<and> fs_cmd f' \<noteq> None \<and> fs_state f' = St_Cmd \<or> refused r f'"
proof -
  obtain pfn where pfn: "fs_pfn f = Some pfn" using assms(1) by (auto simp: live_def)
  let ?f = "f\<lparr>fs_session_flags := (fs_session_flags f)\<lparr>sf_ctrl := ctrl_of_op (rh_op (fs_req_hdr f))\<rparr>\<rparr>"
  have live: "live 0 ?f" using assms(1) by (simp add: live_def)
  have refuse: "refused Panic ?f" "refused (Err e) ?f" for e using live by (simp_all add: refused_def)
  have cmd: "live 0 (?f\<lparr>fs_cmd := c, fs_state := s\<rparr>)" for c s using live by (simp add: live_def)
  show ?thesis
  proof (cases "validate_req_hdr B (fs_sqe f) (fs_req_hdr f) (en_part E pfn q)")
    case (Ok x)
    then show ?thesis using assms(2) pfn refuse on_err_refused [OF live, where r = r and f' = f' and q' = q'] cmd
      by (cases "cmd_request_of B (fs_req_hdr f) buf (en_part E pfn q)")
         (auto simp: start_cmd_def Let_def split: if_splits)
  next
    case (Err e)
    then show ?thesis using assms(2) pfn on_err_refused [OF live, where r = r and f' = f' and q' = q'] by (simp add: start_cmd_def Let_def)
  next
    case Panic
    then show ?thesis using assms(2) pfn refuse by (simp add: start_cmd_def Let_def)
  qed
qed

lemma init_cmd_cases:
  assumes "live 0 f" and "fs_dma_buf f \<noteq> None" and "init_cmd B E io (f, q) = (r, f', q')"
  shows "r = Ok () \<and> live 0 f' \<and> fs_cmd f' \<noteq> None \<and> fs_state f' = St_Cmd \<or> refused r f'"
proof -
  obtain buf where buf: "fs_dma_buf f = Some buf" using assms(2) by auto
  have live: "live 0 (f\<lparr>fs_dma_buf := None\<rparr>)" "live 0 (f\<lparr>fs_dma_buf := None, fs_req_hdr := h\<rparr>)" for h
    using assms(1) by (simp_all add: live_def)
  show ?thesis
  proof (cases "fst (decode_hdr DdiReqHdr (decoder_new buf 0 (length buf)))")
    case (Ok v)
    then show ?thesis using assms(3) buf start_cmd_cases [OF live(2), where r = r and f' = f' and q' = q'] by (simp add: init_cmd_def Let_def)
  next
    case (Err e)
    then show ?thesis using assms(3) buf on_err_refused [OF live(1), where r = r and f' = f' and q' = q'] by (simp add: init_cmd_def Let_def)
  next
    case Panic
    then show ?thesis using assms(3) buf live(1) by (simp add: init_cmd_def Let_def refused_def)
  qed
qed

lemma end_dma_cases: "end_dma io tag = Ok () \<or> (\<exists>e. end_dma io tag = Err e)"
  by (auto simp: end_dma_def split: option.split)

lemma process_in_dma_good:
  assumes "live 0 f" and "fs_dma_buf f \<noteq> None" and "process_in_dma_complete B E io tag (f, q) = (r, f', q')"
  shows "good r f'"
proof (cases "end_dma io tag = Ok ()")
  case False
  then obtain e where "end_dma io tag = Err e" using end_dma_cases [of io tag] by auto
  then show ?thesis using assms(3) sends_good(1) [OF live_mono [OF assms(1)], where r = r and f' = f' and q' = q']
    by (simp add: process_in_dma_complete_def)
next
  case True
  obtain x g q1 where x: "init_cmd B E io (dma_in_done io f, q) = (x, g, q1)" by (cases "init_cmd B E io (dma_in_done io f, q)") auto
  have "live 0 (dma_in_done io f)" "fs_dma_buf (dma_in_done io f) \<noteq> None" using assms(1,2) by (auto simp: live_def dma_in_done_def)
  note c = init_cmd_cases [OF this x]
  show ?thesis
  proof (cases x)
    case (Ok y)
    then show ?thesis using c assms(3) True x process_cmd_event_good [where r = r and f' = f' and q' = q']
      by (auto simp: process_in_dma_complete_def refused_def)
  next
    case Panic
    then show ?thesis using c assms(3) True x live_counts [OF live_mono [of 0 g 1]]
      by (auto simp: process_in_dma_complete_def refused_def good_def)
  next
    case (Err e)
    then have g: "live 0 g" using c by (auto simp: refused_def)
    note err = sends_good(1) [OF live_mono [OF g], where r = r and f' = f' and q' = q']
    show ?thesis
    proof (cases "e = CmdError \<and> fs_dma_buf g \<noteq> None")
      case True
      then have buf: "fs_dma_buf g \<noteq> None" by simp
      show ?thesis
        by (cases rule: begin_out_dma_cases [OF g buf, of io tag q1])
           (use assms(3) x Err True \<open>end_dma io tag = Ok ()\<close> err in \<open>auto simp: process_in_dma_complete_def\<close>)
    next
      case False
      then have "fs_pfn g \<noteq> None" "e \<noteq> CmdError \<or> fs_dma_buf g = None" using g by (auto simp: live_def)
      then show ?thesis using assms(3) x Err True err
        by (cases "e = CmdError") (auto simp: process_in_dma_complete_def begin_out_dma_def)
    qed
  qed
qed

text \<open>The operations that send or start something never report the end of the request.\<close>

lemma then_fails: "(\<And>x s. \<not> is_ok (fst (k x s))) \<Longrightarrow> \<not> is_ok (fst (then_op m k s))"
  by (cases "m s"; cases "fst (m s)") (auto simp: then_op_def)

lemma send_err_fails: "\<not> is_ok (fst (send_err_cqe io e tag s))"
  by (cases s) (simp add: send_err_cqe_def then_fails)

lemma response_failed_fails: "\<not> is_ok (fst (response_failed E io tag e s))"
  by (cases s) (simp add: response_failed_def send_err_fails split: prod.split)

lemma start_response_fails: "\<not> is_ok (fst (start_response E io tag s))"
proof (cases s)
  case (Pair f q)
  have "\<not> is_ok (fst (case begin_out_dma io tag s of (Ok _, s) \<Rightarrow> (Err hsm_err.Pending, s)
      | (Err err, s) \<Rightarrow> response_failed E io tag err s | (Panic, s) \<Rightarrow> (Panic, s)))" for s :: "'a hsm_fsm \<times> 'b"
    by (auto simp: response_failed_fails split: prod.split outcome.split)
  then show ?thesis using Pair by (cases "fs_cmd f") (auto simp: start_response_def)
qed

lemma process_cmd_event_fails: "\<not> is_ok (fst (process_cmd_event E io event tag s))"
  by (cases s; cases "fs_cmd (fst s)")
     (auto simp: process_cmd_event_def Let_def start_response_fails intro!: then_fails split: prod.split if_splits)

lemma flush_fails: "\<not> is_ok (fst (hf_flush_session B E io tag s))"
  by (cases s; cases "fs_pfn (fst s)")
     (auto simp: hf_flush_session_def Let_def process_cmd_event_fails intro!: then_fails)

lemma flush_good:
  assumes "live 0 f" and "hf_flush_session B E io tag (f, q) = (r, f', q')"
  shows "good r f'"
proof -
  obtain pfn where pfn: "fs_pfn f = Some pfn" using assms(1) by (auto simp: live_def)
  let ?f = "f\<lparr>fs_session_flags := (fs_session_flags f)\<lparr>sf_id_valid := True, sf_ctrl := Ctrl_Close\<rparr>,
    fs_cmd := Some (cmd_new E pfn (Req_Flush (sqe_session_id (fs_sqe f)))), fs_state := St_Cmd\<rparr>"
  have "live 0 ?f" using assms(1) by (simp add: live_def)
  then show ?thesis
    using assms(2) pfn process_cmd_event_good [of ?f, where r = r and f' = f' and q' = q']
      sends_good(3) [OF live_mono [OF assms(1)], where r = r and f' = f' and q' = q']
    by (auto simp: hf_flush_session_def Let_def split: if_splits)
qed

lemma process_rx_entry_good:
  assumes "live 0 f" and "process_rx_entry B E io tag (f, q) = (r, f', q')"
  shows "good r f'"
proof (cases "validate_sqe (fs_sqe f)")
  case (Err e)
  then show ?thesis using assms(2) sends_good(1) [OF live_mono [OF assms(1)], where r = r and f' = f' and q' = q']
    by (simp add: process_rx_entry_def)
next
  case Panic
  then show ?thesis using assms live_counts [OF live_mono [OF assms(1)]] by (simp add: process_rx_entry_def good_def)
next
  case (Ok x)
  show ?thesis
  proof (cases "sqe_op (fs_sqe f) = Sqe_Flush")
    case True
    obtain y g q1 where y: "hf_flush_session B E io tag (f, q) = (y, g, q1)" by (cases "hf_flush_session B E io tag (f, q)") auto
    then have "r = y \<and> f' = g" using assms(2) Ok True flush_fails [of B E io tag "(f, q)"]
      by (cases y) (auto simp: process_rx_entry_def then_op_def)
    then show ?thesis using flush_good [OF assms(1) y] by simp
  next
    case False
    have live: "live 0 (f\<lparr>fs_dma_buf := b\<rparr>)" for b using assms(1) by (simp add: live_def)
    obtain pfn where pfn: "fs_pfn f = Some pfn" using assms(1) by (auto simp: live_def)
    have err: "good r f'" if "send_err_cqe io e tag (f\<lparr>fs_dma_buf := b\<rparr>, q) = (r, f', q')" for b e
      using sends_good(1) [OF live_mono [OF live] that] by simp
    have start: "good (Err hsm_err.Pending) (log_io (Log_Dma_In p a n t) (f\<lparr>fs_dma_buf := Some b, fs_state := St_DmaIn\<rparr>))" for p a n t b
      using assms(1) by (auto simp: good_def fsm_wf_def live_def)
    show ?thesis using assms(2) Ok False pfn err [where b = "fs_dma_buf f"] err start
      by (auto simp: process_rx_entry_def then_op_def begin_in_dma_def split: if_splits)
  qed
qed

lemma on_rx_ready_good:
  assumes "fs_log f = []" and "on_rx_ready B E io tag (f, q) = (r, f', q')"
  shows "good r f'"
proof (cases "begin_recv_sqe io")
  case (Ok desc)
  have zero: "completions g = 0" "responses g = 0" "rollbacks g = 0" if "fs_log g = []" for g :: "'a hsm_fsm"
    using that by (simp_all add: completions_def responses_def rollbacks_def)
  have live: "live 0 (f\<lparr>fs_pfn := Some p, fs_ioq := Some i, fs_sqe := s, fs_sqe_addr := a\<rparr>)" for p i s a
    using zero [OF assms(1)] by (simp add: live_def)
  show ?thesis
  proof (cases "hf_ioq E desc q")
    case (Ok ioq)
    then show ?thesis using assms(2) \<open>begin_recv_sqe io = Ok desc\<close> process_rx_entry_good [OF live, where r = r and f' = f' and q' = q']
      by (simp add: on_rx_ready_def Let_def)
  next
    case (Err e)
    then have "e \<in> final_errors" "e \<noteq> hsm_err.Pending" by (auto simp: hf_ioq_def ok_or_def final_errors_def split: if_splits option.splits)
    then show ?thesis using Err assms(2) \<open>begin_recv_sqe io = Ok desc\<close> zero [OF assms(1)] by (auto simp: on_rx_ready_def Let_def good_def)
  next
    case Panic
    then show ?thesis by (auto simp: hf_ioq_def ok_or_def split: if_splits option.splits)
  qed
qed (use assms in \<open>auto simp: on_rx_ready_def begin_recv_sqe_def good_def final_errors_def ok_or_def completions_def responses_def
      rollbacks_def split: if_splits option.splits\<close>)

lemma on_dma_out_err_good:
  assumes "live 1 f" and "fs_cmd f \<noteq> None" and "fs_err f \<noteq> None" and "fs_state f = St_DmaOutErr"
    and "on_dma_out_err E io event tag (f, q) = (r, f', q')"
  shows "good r f'"
proof -
  obtain c0 x c q1 where c: "fs_cmd f = Some c0" "cmd_on_event E event tag c0 q = (x, c, q1)"
    using assms(2) by (metis option.exhaust prod_cases3)
  have live: "live 1 (f\<lparr>fs_cmd := Some c\<rparr>)" using assms(1) by (simp add: live_def)
  then have "good Panic (f\<lparr>fs_cmd := Some c\<rparr>)" "good (Err hsm_err.Pending) (f\<lparr>fs_cmd := Some c\<rparr>)"
    using live_counts [OF live] assms(3,4) by (simp_all add: good_def fsm_wf_def)
  then show ?thesis using assms(5) c sends_good(1) [OF live, where r = r and f' = f' and q' = q']
    by (auto simp: on_dma_out_err_def Let_def split: if_splits)
qed

lemma wf_counts: "fsm_wf f \<Longrightarrow> completions f \<le> 1 \<and> responses f \<le> 1 \<and> rollbacks f \<le> 1"
  by (cases "fs_state f") (auto simp: fsm_wf_def live_def completions_def responses_def rollbacks_def)

lemma wf_idle: "fsm_wf f \<Longrightarrow> good (Err hsm_err.Pending) f \<and> good (Err IoTimeOut) f"
  using wf_counts [of f] by (simp add: good_def final_errors_def)

lemma hsm_on_event_good:
  assumes "fsm_wf f" and "hsm_on_event B E io event tag (f, q) = (r, f', q')"
  shows "good r f'"
proof (cases "fs_state f")
  case St_Init
  then show ?thesis using assms wf_idle [OF assms(1)] on_rx_ready_good [where r = r and f' = f' and q' = q']
    by (auto simp: hsm_on_event_def fsm_wf_def split: if_splits)
next
  case St_DmaIn
  then show ?thesis using assms wf_idle [OF assms(1)] process_in_dma_good [where r = r and f' = f' and q' = q']
    by (auto simp: hsm_on_event_def fsm_wf_def split: if_splits)
next
  case St_Cmd
  then show ?thesis using assms process_cmd_event_good [where r = r and f' = f' and q' = q']
    by (auto simp: hsm_on_event_def fsm_wf_def)
next
  case St_DmaOut
  then have live: "live 1 f" using assms(1) by (simp add: fsm_wf_def)
  have "good r f'" if "process_out_dma_complete E io tag (f, q) = (r, f', q')"
    using that end_dma_cases [of io tag] sends_good(2) [OF live] response_failed_good [OF live]
    by (auto simp: process_out_dma_complete_def)
  then show ?thesis using assms St_DmaOut wf_idle [OF assms(1)]
    by (auto simp: hsm_on_event_def fsm_wf_def split: if_splits)
next
  case St_DmaOutErr
  then show ?thesis using assms wf_idle [OF assms(1)] on_dma_out_err_good [where r = r and f' = f' and q' = q']
    by (auto simp: hsm_on_event_def fsm_wf_def split: if_splits)
next
  case St_Completion
  then show ?thesis using assms wf_counts [OF assms(1)]
    by (auto simp: hsm_on_event_def good_def fsm_wf_def final_errors_def end_recv_sqe_def split: if_splits option.splits)
qed

section \<open>A whole request\<close>

text \<open>
  The events of one request, each with the commands, the answers of the hardware and the state of the
  device at that moment. The scheduler drops a state machine that answers anything but Pending.
\<close>

fun fsm_run :: "bit_trait \<Rightarrow> u16 \<Rightarrow> (('c, 'q) hsm_env \<times> io_answers \<times> fsm_event \<times> 'q) list \<Rightarrow> 'c hsm_fsm \<Rightarrow> unit hsm_result \<times> 'c hsm_fsm" where
  "fsm_run B tag [] f = (Err hsm_err.Pending, f)"
| "fsm_run B tag ((E, io, event, q) # xs) f =
     (case hsm_on_event B E io event tag (f, q) of (r, f, _) \<Rightarrow>
        if r = Err hsm_err.Pending then fsm_run B tag xs f else (r, f))"

lemma new_wf: "fsm_wf hsm_fsm_new"
  by (simp add: fsm_wf_def hsm_fsm_new_def)

lemma fsm_run_good:
  assumes "fsm_wf f" and "fsm_run B tag xs f = (r, f')"
  shows "good r f'"
  using assms
proof (induction B tag xs f rule: fsm_run.induct)
  case (1 B tag f)
  then show ?case using wf_idle [of f] by simp
next
  case (2 B tag E io event q xs f)
  obtain x g q' where x: "hsm_on_event B E io event tag (f, q) = (x, g, q')" by (cases "hsm_on_event B E io event tag (f, q)") auto
  have g: "good x g" using hsm_on_event_good [OF "2.prems"(1) x] .
  show ?case
  proof (cases "x = Err hsm_err.Pending")
    case True
    then show ?thesis using "2.IH" [OF x [symmetric] refl True] g "2.prems"(2) x by (simp add: good_def)
  qed (use g "2.prems"(2) x in simp)
qed

text \<open>
  C14: A request never misses a part of its own state. Whatever the host sends, the hardware answers,
  the commands do and the scheduler delivers, from the first event to the last, the parts of a
  request that its state needs are there: its queue, its function, its buffer, its command. The
  only errors that reach the scheduler are those of the queue and the channel and a time-out, and a
  request that goes on is in a state that has its parts.
\<close>

theorem fsm_state_complete:
  "case fsm_run B tag xs hsm_fsm_new of (r, f) \<Rightarrow>
     (case r of
        Err e \<Rightarrow> e = hsm_err.Pending \<and> fsm_wf f \<or>
          e \<in> {IoChannelRecvNone, IoChannelRecvErr, PartitionNotEnabled, QueueNotEnabled, IoTimeOut, IoChannelSendError,
               IoChannelSendCompleteError, IoChannelSendCompleteNone}
      | _ \<Rightarrow> True)"
proof -
  obtain r f where r: "fsm_run B tag xs hsm_fsm_new = (r, f)" by fastforce
  show ?thesis using fsm_run_good [OF new_wf r] r by (auto simp: good_def final_errors_def split: outcome.splits if_splits)
qed

text \<open>
  C11: A request is completed once. In any run of events a request posts at most one completion,
  starts at most one transfer of a response to the host and rolls its command back at most once, and
  it reports success only after it posted its completion.
\<close>

theorem completed_once:
  "case fsm_run B tag xs hsm_fsm_new of (r, f) \<Rightarrow>
     completions f \<le> 1 \<and> responses f \<le> 1 \<and> rollbacks f \<le> 1 \<and> (case r of Ok _ \<Rightarrow> completions f = 1 | _ \<Rightarrow> True)"
proof -
  obtain r f where r: "fsm_run B tag xs hsm_fsm_new = (r, f)" by fastforce
  show ?thesis using fsm_run_good [OF new_wf r] r by (auto simp: good_def split: outcome.splits)
qed

section \<open>Admission\<close>

lemma user_session_enabled:
  assumes "user_session B i False p = Ok x"
  shows "user_session B i True p = Ok x \<and> snd x = i"
proof -
  have "get_entry t e True = Ok y" if "get_entry t e False = Ok y" for t e y
    using that by (auto simp: get_entry_def Let_def split: if_splits)
  then have "vault_key s a t k True = Ok y" if "vault_key s a t k False = Ok y" for s a t k y
    using that by (auto simp: vault_key_def ks_get_entry_def res_simps split: if_splits)
  then have "open_session_key s a k True = Ok y" if "open_session_key s a k False = Ok y" for s a k y
    using that by (auto simp: open_session_key_def res_simps)
  then show ?thesis using assms by (auto simp: user_session_def res_simps)
qed

lemma hijack_Ok:
  "validate_session_hijack_protection sqe hdr = Ok () \<Longrightarrow>
     sf_ctrl (sqe_flags sqe) = ctrl_of_op (rh_op hdr) \<and>
     rh_sess_id hdr = (if sf_id_valid (sqe_flags sqe) then Some (sqe_session_id sqe) else None)"
  by (auto simp: validate_session_hijack_protection_def res_simps split: if_splits option.splits)

lemma session_ops_user: "op \<in> set session_ops \<Longrightarrow> session_kind_of_op op = SK_User \<and> ctrl_of_op op = Ctrl_InSession"
  by (auto simp: session_ops_def session_kind_of_op_def ctrl_of_op_def)

lemma session_ops_renegotiate: "op \<in> set session_ops \<Longrightarrow> op \<noteq> Op_ReopenSession \<and> op \<noteq> Op_CloseSession"
  by (auto simp: session_ops_def)

lemma start_cmd_Ok:
  assumes "start_cmd B E io buf (f, q) = (Ok (), f', q')"
  obtains pfn req where "fs_pfn f = Some pfn" "validate_req_hdr B (fs_sqe f) (fs_req_hdr f) (en_part E pfn q) = Ok ()"
    "ctrl_of_op (rh_op (fs_req_hdr f)) = Ctrl_InSession \<Longrightarrow> is_partition_provisioned (en_part E pfn q)"
    "cmd_request_of B (fs_req_hdr f) buf (en_part E pfn q) = Ok req" "fs_cmd f' = Some (cmd_new E pfn req)"
    "fs_req_hdr f' = fs_req_hdr f" "q' = q"
proof -
  have err: "fsm_on_err io i st op s \<noteq> (Ok (), f', q')" for i st op and s :: "'a hsm_fsm \<times> 'b"
    by (cases s) (auto simp: fsm_on_err_def split: outcome.split)
  obtain pfn where pfn: "fs_pfn f = Some pfn" using assms by (cases "fs_pfn f") (auto simp: start_cmd_def)
  let ?p = "en_part E pfn q"
  have v: "validate_req_hdr B (fs_sqe f) (fs_req_hdr f) ?p = Ok ()"
    using assms pfn err by (cases "validate_req_hdr B (fs_sqe f) (fs_req_hdr f) ?p") (simp_all add: start_cmd_def Let_def)
  have prov: "\<not> (ctrl_of_op (rh_op (fs_req_hdr f)) = Ctrl_InSession \<and> \<not> is_partition_provisioned ?p)"
    using assms pfn err v by (auto simp: start_cmd_def Let_def split: if_splits)
  obtain req where req: "cmd_request_of B (fs_req_hdr f) buf ?p = Ok req"
    using assms pfn v prov by (cases "cmd_request_of B (fs_req_hdr f) buf ?p") (simp_all add: start_cmd_def Let_def)
  have "fs_cmd f' = Some (cmd_new E pfn req)" "fs_req_hdr f' = fs_req_hdr f" "q' = q"
    using assms pfn v prov req by (auto simp: start_cmd_def Let_def)
  with pfn v prov req show thesis by (intro that) auto
qed

text \<open>
  C12: Only an admitted request reaches a command. When a command is created, the header of its
  request was decoded from the transferred bytes, the function is enabled, the kind of session
  control and the session of the header are those of the queue entry, and a request in a session
  finds the partition provisioned. A command that works in a session gets a session that exists,
  is not locked, has the number of the queue entry and the revision of the header.
\<close>

theorem request_admitted:
  assumes "init_cmd B E io (f, q) = (Ok (), f', q')"
  shows "\<exists>buf pfn v req. fs_dma_buf f = Some buf \<and> fs_pfn f = Some pfn \<and>
    fst (decode_hdr DdiReqHdr (decoder_new buf 0 (length buf))) = Ok v \<and>
    (let hdr = req_hdr_of_value v; sqe = fs_sqe f; p = en_part E pfn q in
     fs_cmd f' = Some (cmd_new E pfn req) \<and> pt_enabled p \<and>
     sf_ctrl (sqe_flags sqe) = ctrl_of_op (rh_op hdr) \<and>
     rh_sess_id hdr = (if sf_id_valid (sqe_flags sqe) then Some (sqe_session_id sqe) else None) \<and>
     (ctrl_of_op (rh_op hdr) = Ctrl_InSession \<longrightarrow> is_partition_provisioned p) \<and>
     (rh_op hdr \<in> set session_ops \<longrightarrow> (\<exists>r. req = Req_InSession (rh_op hdr) buf (r, sqe_session_id sqe) \<and>
        user_session B (sqe_session_id sqe) False p = Ok (r, sqe_session_id sqe) \<and> rh_rev hdr = Some r)))"
proof -
  obtain buf v where buf: "fs_dma_buf f = Some buf" and v: "fst (decode_hdr DdiReqHdr (decoder_new buf 0 (length buf))) = Ok v"
    and start: "start_cmd B E io buf (f\<lparr>fs_dma_buf := None, fs_req_hdr := req_hdr_of_value v\<rparr>, q) = (Ok (), f', q')"
    using assms by (cases "fs_dma_buf f")
      (auto simp: init_cmd_def Let_def fsm_on_err_def split: outcome.splits)
  let ?hdr = "req_hdr_of_value v"
  obtain pfn req where s: "fs_pfn f = Some pfn" "validate_req_hdr B (fs_sqe f) ?hdr (en_part E pfn q) = Ok ()"
    "ctrl_of_op (rh_op ?hdr) = Ctrl_InSession \<Longrightarrow> is_partition_provisioned (en_part E pfn q)"
    "cmd_request_of B ?hdr buf (en_part E pfn q) = Ok req" "fs_cmd f' = Some (cmd_new E pfn req)"
    by (rule start_cmd_Ok [OF start], rule that) simp_all
  have v1: "pt_enabled (en_part E pfn q)" "validate_session_hijack_protection (fs_sqe f) ?hdr = Ok ()"
    using s(2) by (auto simp: validate_req_hdr_def res_simps split: if_splits)
  have "\<exists>r. req = Req_InSession (rh_op ?hdr) buf (r, sqe_session_id (fs_sqe f)) \<and>
      user_session B (sqe_session_id (fs_sqe f)) False (en_part E pfn q) = Ok (r, sqe_session_id (fs_sqe f)) \<and> rh_rev ?hdr = Some r"
    if op: "rh_op ?hdr \<in> set session_ops"
  proof -
    obtain x i where x: "rh_sess_id ?hdr = Some i" "user_session B i False (en_part E pfn q) = Ok x" "req = Req_InSession (rh_op ?hdr) buf x"
      using s(4) op by (cases "hf_user_session B ?hdr (en_part E pfn q)")
        (auto simp: cmd_request_of_def hf_user_session_def req_session_id_def ok_or_def res_simps split: option.splits)
    note u = user_session_enabled [OF x(2)]
    have "rh_rev ?hdr = Some (fst x)"
      using s(2) session_ops_user [OF op] session_ops_renegotiate [OF op] x(1) u
      by (auto simp: validate_req_hdr_def req_session_id_def ok_or_def res_simps split: if_splits option.splits)
    moreover have "i = sqe_session_id (fs_sqe f)" using hijack_Ok [OF v1(2)] x(1) by (simp split: if_splits)
    ultimately show ?thesis using x u by (cases x) auto
  qed
  then show ?thesis using buf v s v1 hijack_Ok [OF v1(2)] by (auto simp: Let_def)
qed

text \<open>A request for the revision, to a device whose commands do nothing.\<close>

definition echo_env :: "('q \<Rightarrow> partition) \<Rightarrow> (cmd_request, 'q) hsm_env" where
  "echo_env P = \<lparr>en_part = (\<lambda>_. P), en_set_part = (\<lambda>_ _ q. q), en_io_queue = (\<lambda>_ _ _. None), cmd_new = (\<lambda>_ req. req),
     cmd_on_event = (\<lambda>_ _ c p. (Ok (), c, p)), cmd_rollback = (\<lambda>_ c p. (Ok (), c, p)), cmd_take_response = (\<lambda>c. (None, c)),
     cmd_session_id = (\<lambda>_. None), cmd_app_vault_id = (\<lambda>_. None), cmd_retry = (\<lambda>_. False), cmd_requires_resource = (\<lambda>_ _ _. False),
     cmd_acquire_resource = (\<lambda>_ _ c. (Panic, c)), cmd_drop = (\<lambda>_ p. p)\<rparr>"

lemma echo_part: "en_part (echo_env P) pfn q = P q"
  by (simp add: echo_env_def)

definition idle_io :: io_answers where
  "idle_io = \<lparr>io_recv = None, io_alloc = True, io_begin_txn = True, io_end_txn = None, io_data = [], io_begin_send = True, io_end_send = None\<rparr>"

definition rev_request :: bytes where
  "rev_request = [162, 24, 0, 161, 24, 2, 26, 0, 0, 3, 234, 24, 1, 160]"

lemma rev_request_hdr:
  "fst (decode_hdr DdiReqHdr (decoder_new rev_request 0 14)) = Ok (VStruct [None, Some (VU32 1002), None])"
  by code_simp

lemma rev_request_admitted:
  "init_cmd plain_bits (echo_env (\<lambda>p. p)) io (hsm_fsm_new\<lparr>fs_pfn := Some 0, fs_dma_buf := Some rev_request\<rparr>, demo) =
     (Ok (), hsm_fsm_new\<lparr>fs_pfn := Some 0, fs_req_hdr := \<lparr>rh_rev = None, rh_op = Op_GetApiRev, rh_sess_id = None\<rparr>,
        fs_cmd := Some (Req_Plain Op_GetApiRev rev_request), fs_state := St_Cmd\<rparr>, demo)"
proof -
  have "length rev_request = 14" by (simp add: rev_request_def)
  moreover have "ddi_op_of_code 1002 = Op_GetApiRev" by code_simp
  moreover have "sqe_flags (sqe_of_entry (replicate 64 0)) = flags_of_byte 0" by code_simp
  moreover have "sf_ctrl (flags_of_byte 0) = Ctrl_NoSession" "\<not> sf_id_valid (flags_of_byte 0)" by code_simp+
  moreover have "pt_enabled demo" by (simp add: demo_def)
  ultimately show ?thesis
    by (simp add: init_cmd_def start_cmd_def rev_request_hdr Let_def hsm_fsm_new_def echo_env_def req_hdr_of_value_def
        fields_of_value_def u32_of_value_def ctrl_of_op_def validate_req_hdr_def validate_session_hijack_protection_def
        session_kind_of_op_def cmd_request_of_def session_ops_def plain_ops_def)
qed

theorem request_admitted_witness:
  "case init_cmd plain_bits (echo_env (\<lambda>p. p)) idle_io (hsm_fsm_new\<lparr>fs_pfn := Some 0, fs_dma_buf := Some rev_request\<rparr>, demo) of
     (r, f, p) \<Rightarrow> r = Ok () \<and> fs_cmd f = Some (Req_Plain Op_GetApiRev rev_request) \<and> pt_enabled demo"
  using request_admitted [OF rev_request_admitted [of idle_io]] by (auto simp: rev_request_admitted echo_part Let_def)

end
