(* ===== verification/Session_Props.thy ===== *)
theory Session_Props
  imports Session_Cmds Hsm_Fsm_Props
begin

text \<open>
  The session commands inside the state machine of a request: a request for a session that fails
  leaves no session and no key behind, whichever step of the command, the response or the transfer
  failed, and a flush reports a closed session only when it is closed. Two behaviours are faults of
  the program: the answer to a flush that fails, and the waiting tag of a command that timed out.
\<close>

section \<open>Frames\<close>

lemma wakeup_world: "world (snd (snd (res_wakeup R k (r, q)))) = world q"
  by (cases "ri_clear R k (res_info r)"; cases "fst (ri_clear R k (res_info r))")
     (auto simp: res_wakeup_def sched_wakeup_def Let_def split: list.split)

lemma cleanup_world: "world (snd (snd (res_cleanup R k (r, q)))) = world q"
proof (cases "cleanup_fsm r")
  case (Some tag)
  obtain x i where "ri_cleanup_ctx R k (res_info r) = (x, i)" by fastforce
  then show ?thesis using Some
    by (cases x; cases "ri_cleanup_event R k") (auto simp: res_cleanup_def sched_cleanup_def Let_def)
qed (simp add: res_cleanup_def wakeup_world)

text \<open>Engines and channels are not part of a partition.\<close>

lemma parts_kept [simp]:
  "w_part (world (snd (pka_drop k q))) = w_part (world q)"
  "w_part (world (snd (fp_drop k q))) = w_part (world q)"
  "w_part (world (snd (pka_acquire tag ctx q))) = w_part (world q)"
  "w_part (world (snd (fp_acquire tag q))) = w_part (world q)"
  using cleanup_world [of pka_info k "w_pka (world q)" q] cleanup_world [of "ipc_info Res_FpIpcChannel" k "w_fp_ipc (world q)" q]
  by (simp_all add: pka_drop_def fp_drop_def pka_acquire_def fp_acquire_def split_beta)

lemma then_drop_eq: "then_drop r d q = (if fst (d q) = Panic then Panic else r, snd (d q))"
  by (simp add: then_drop_def split_beta)

lemma part_set [simp]: "w_part (world (set_part pfn p q)) = (w_part (world q))(pfn := p)"
  by (simp add: set_part_def)

lemma begin_open_part: "w_part (world (snd (begin_open_user_session a tag pfn key q))) = w_part (world q)"
proof -
  obtain x q1 where x: "pka_acquire tag None q = (x, q1)" by fastforce
  then have "w_part (world q1) = w_part (world q)" by (metis parts_kept(3) snd_conv)
  then show ?thesis
    by (cases x) (auto simp: begin_open_user_session_def x then_drop_eq split: option.split outcome.split)
qed

lemma continue_open_part: "w_part (world (snd (continue_open_user_session a pfn ctx q))) = w_part (world q)"
  unfolding continue_open_user_session_def by (auto simp: then_drop_eq split: outcome.split)

section \<open>Opening\<close>

text \<open>The steps before the last one leave the partitions alone and the command without a session.\<close>

definition quiet :: "open_session_cmd \<Rightarrow> 't core \<Rightarrow> open_session_cmd \<times> 't core \<Rightarrow> bool" where
  "quiet c q s \<longleftrightarrow> os_pfn (fst s) = os_pfn c \<and> os_is_reopen (fst s) = os_is_reopen c \<and> os_sess_id (fst s) = os_sess_id c \<and>
     w_part (world (snd s)) = w_part (world q)"

lemma quiet_begin: "quiet c q (snd (begin_open_session a tag (c, q)))"
proof (cases "os_common c")
  case (Some common)
  then show ?thesis
    using begin_open_part [of a tag "os_pfn c" "cf_pub_key common" q]
    by (auto simp: begin_open_session_def quiet_def split: prod.split outcome.split)
qed (simp add: begin_open_session_def quiet_def)

lemma quiet_start: "quiet c q (snd (open_on_start a tag (c, q)))"
proof -
  have "quiet c q (snd (begin_open_session a tag (c\<lparr>os_common := x, os_api_rev := y\<rparr>, q)))" for x y
    using quiet_begin [of "c\<lparr>os_common := x, os_api_rev := y\<rparr>" q a tag] by (simp add: quiet_def)
  moreover have "quiet c q (c\<lparr>os_common := x\<rparr>, q)" "quiet c q (c, q)" for x by (simp_all add: quiet_def)
  ultimately show ?thesis
    unfolding open_on_start_def prod.case Let_def
    by (intro keeps_try_in [where I = "quiet c q"])
qed

lemma quiet_continue: "quiet c q (snd (open_on_continue a ctx (c, q)))"
  using continue_open_part [of a "os_pfn c" ctx q]
  by (auto simp: open_on_continue_def quiet_def then_drop_eq split: prod.split outcome.split)

lemma quiet_alive: "quiet c q (snd (open_check_alive (c, q)))"
  by (simp add: open_check_alive_def quiet_def)

text \<open>The sessions and the keys of a partition.\<close>

definition same_sessions :: "partition \<Rightarrow> partition \<Rightarrow> bool" where
  "same_sessions p p' \<longleftrightarrow> slots (sessions p') = slots (sessions p) \<and> store_view (vault p') = store_view (vault p)"

text \<open>Rolling the command back leads to a partition with the sessions and keys of \<open>p\<close>.\<close>

definition undoable :: "bit_trait \<Rightarrow> cmd_answers \<Rightarrow> u8 \<Rightarrow> partition \<Rightarrow> open_session_cmd \<times> 't core \<Rightarrow> bool" where
  "undoable B a pfn p s \<longleftrightarrow> os_pfn (fst s) = pfn \<and>
     (case open_rollback B a s of (r, c, q) \<Rightarrow> r = Ok () \<and> same_sessions p (w_part (world q) pfn))"

lemma undoable_quiet: "os_sess_id c = None \<Longrightarrow> quiet c q s \<Longrightarrow> undoable B a (os_pfn c) (w_part (world q) (os_pfn c)) s"
  by (cases s) (simp add: undoable_def quiet_def open_rollback_def same_sessions_def)

text \<open>A command that reopens a session names one that waits for it.\<close>

definition reopen_waits :: "bit_trait \<Rightarrow> open_session_cmd \<Rightarrow> partition \<Rightarrow> bool" where
  "reopen_waits B c p \<longleftrightarrow> (case os_common c of
     Some common \<Rightarrow> (if os_is_reopen c then (case cf_sess_id common of Some i \<Rightarrow> needs_renegotiation B (sessions p) i | None \<Rightarrow> False) else True)
   | None \<Rightarrow> True)"

lemma response_frame:
  "os_sess_id (snd (generate_bmk_and_send_response a r i short c)) = os_sess_id c"
  "os_pfn (snd (generate_bmk_and_send_response a r i short c)) = os_pfn c"
  "os_is_reopen (snd (generate_bmk_and_send_response a r i short c)) = os_is_reopen c"
proof -
  define I :: "open_session_cmd \<Rightarrow> bool" where "I = (\<lambda>c'. os_sess_id c' = os_sess_id c \<and> os_pfn c' = os_pfn c \<and> os_is_reopen c' = os_is_reopen c)"
  have "I (snd (generate_bmk_and_send_response a r i short c))"
    unfolding generate_bmk_and_send_response_def Let_def
    by (intro keeps_try_in [where I = I])
       (auto simp: I_def split: option.splits mbor_value.splits intro!: keeps_try_in [where I = I, unfolded I_def])
  then show "os_sess_id (snd (generate_bmk_and_send_response a r i short c)) = os_sess_id c"
    "os_pfn (snd (generate_bmk_and_send_response a r i short c)) = os_pfn c"
    "os_is_reopen (snd (generate_bmk_and_send_response a r i short c)) = os_is_reopen c"
    by (simp_all add: I_def)
qed

lemma undoable_end:
  assumes B: "bit_trait_laws B" and inv: "part_inv (w_part (world q) (os_pfn c))" and none: "os_sess_id c = None"
    and idle: "\<forall>n. \<not> ca_busy a n" and waits: "reopen_waits B c (w_part (world q) (os_pfn c))"
    and ok: "fst (open_on_end B a ctx (c, q)) \<noteq> Panic"
  shows "undoable B a (os_pfn c) (w_part (world q) (os_pfn c)) (snd (open_on_end B a ctx (c, q)))"
proof -
  let ?p = "w_part (world q) (os_pfn c)"
  consider (quiet) "quiet c q (snd (open_on_end B a ctx (c, q)))"
    | (run) r common where "os_api_rev c = Some r" "os_common c = Some common" "fst (ca_alloc a)" "snd (ca_alloc a)"
  proof (cases "\<exists>r common. os_api_rev c = Some r \<and> os_common c = Some common \<and> fst (ca_alloc a) \<and> snd (ca_alloc a)")
    case False
    then have "quiet c q (snd (open_on_end B a ctx (c, q)))"
      by (cases "os_api_rev c"; cases "os_common c") (auto simp: open_on_end_def quiet_def then_drop_eq Let_def)
    then show ?thesis by (rule that(1))
  qed (use that(2) in blast)
  then show ?thesis
  proof cases
    case (run r common)
    define reopen where "reopen = (if os_is_reopen c then cf_sess_id common else None)"
    define secret :: "bytes hsm_result" where "secret = (case ca_secret a of Some s \<Rightarrow> Ok s | None \<Rightarrow> Err EcdhComputeFailed)"
    obtain x p' where x: "end_open_user_session B (ca_crypto a) (ca_bks a) secret (ca_rng a) (ca_now a) (ca_later a) r
        (cf_cred common) reopen (cf_bmk_session common) ?p = (x, p')" by fastforce
    define q1 where "q1 = snd (pka_drop (oc_engine ctx) (set_part (os_pfn c) p' q))"
    have q1: "w_part (world q1) (os_pfn c) = p'" by (simp add: q1_def)
    have reopen: "reopen \<noteq> None \<longleftrightarrow> os_is_reopen c" "\<forall>i. reopen = Some i \<longrightarrow> needs_renegotiation B (sessions ?p) i"
      using waits run(2) by (auto simp: reopen_def reopen_waits_def split: option.splits if_splits)
    have e: "open_on_end B a ctx (c, q) =
        (case (if fst (pka_drop (oc_engine ctx) (set_part (os_pfn c) p' q)) = Panic then Panic else x, q1) of
           (Ok (_, i), q) \<Rightarrow>
             (case generate_bmk_and_send_response a r i (get_user_vault_id (pt_cred_mgr (w_part (world q) (os_pfn c))))
                (c\<lparr>os_sess_id := Some i, os_app_vault_id := Some (get_user_vault_id (pt_cred_mgr (w_part (world q) (os_pfn c))))\<rparr>) of
                (x, c) \<Rightarrow> (x, c, q))
         | (Err err, q) \<Rightarrow> (Err (if err = hsm_err.Pending then InvalidState else err), c\<lparr>os_state := CS_Final\<rparr>, q)
         | (Panic, q) \<Rightarrow> (Panic, c, q))"
      using run by (cases x) (auto simp: open_on_end_def on_part_def x [unfolded reopen_def secret_def] then_drop_eq Let_def
          q1_def simp del: parts_kept part_set split: prod.split)
    show ?thesis
    proof (cases x)
      case (Ok vi)
      obtain v i where vi: "x = Ok (v, i)" using Ok by (cases vi) simp
      have s: "snd (snd (open_on_end B a ctx (c, q))) = q1" "os_sess_id (fst (snd (open_on_end B a ctx (c, q)))) = Some i"
        "os_pfn (fst (snd (open_on_end B a ctx (c, q)))) = os_pfn c" "os_is_reopen (fst (snd (open_on_end B a ctx (c, q)))) = os_is_reopen c"
        using ok unfolding e vi by (simp_all add: split_beta response_frame split: if_splits)
      have "case rollback_open_session B (ca_busy a) i (os_is_reopen c) p' of (r, p'') \<Rightarrow> r = Ok () \<and> same_sessions ?p p''"
        using rollback_restores [OF B inv x [unfolded vi] idle] reopen(1) by (simp add: same_sessions_def split_beta)
      then show ?thesis
        using s q1 by (cases "snd (open_on_end B a ctx (c, q))") (simp add: undoable_def open_rollback_def on_part_def split_beta)
    next
      case (Err err)
      obtain u w where p': "p' = ?p\<lparr>pt_store := (pt_store ?p)\<lparr>pst_nonce := u, pst_pin_policy := w\<rparr>\<rparr>"
        using open_failure_state [OF B inv x _ reopen(2)] Err by auto
      have "same_sessions ?p p'" by (subst p') (simp add: same_sessions_def)
      then show ?thesis using ok none q1 unfolding e Err by (auto simp: undoable_def open_rollback_def split: if_splits)
    next
      case Panic
      then show ?thesis using ok unfolding e Panic by simp
    qed
  qed (rule undoable_quiet [OF none])
qed

lemma undoable_event:
  assumes B: "bit_trait_laws B" and inv: "part_inv (w_part (world q) (os_pfn c))" and none: "os_sess_id c = None"
    and idle: "\<forall>n. \<not> ca_busy a n" and waits: "reopen_waits B c (w_part (world q) (os_pfn c))"
    and ok: "fst (open_on_event B a event tag (c, q)) \<noteq> Panic"
  shows "undoable B a (os_pfn c) (w_part (world q) (os_pfn c)) (snd (open_on_event B a event tag (c, q)))"
proof -
  note quiet = undoable_quiet [OF none, of q]
  have stay: "quiet c q (c, q)" by (simp add: quiet_def)
  have complete: "undoable B a (os_pfn c) (w_part (world q) (os_pfn c)) (snd (open_on_cmd_complete B a (c, q)))"
    if "fst (open_on_cmd_complete B a (c, q)) \<noteq> Panic"
  proof (cases "os_ctx c")
    case None
    then show ?thesis by (simp add: open_on_cmd_complete_def quiet stay)
  next
    case (Some ctx)
    have "quiet c q (snd (open_on_continue a ctx (c\<lparr>os_ctx := None\<rparr>, q)))"
      using quiet_continue [of "c\<lparr>os_ctx := None\<rparr>" q a ctx] by (simp add: quiet_def)
    moreover have "reopen_waits B (c\<lparr>os_ctx := None\<rparr>) (w_part (world q) (os_pfn c))"
      using waits by (auto simp: reopen_waits_def split: option.splits)
    ultimately show ?thesis
      using undoable_end [OF B, of q "c\<lparr>os_ctx := None\<rparr>" a ctx] inv none idle that Some
      by (cases "oc_stage ctx") (simp_all add: open_on_cmd_complete_def quiet)
  qed
  then show ?thesis
    using ok quiet stay quiet_start [of c q a tag] quiet_begin [of c q a tag] quiet_alive [of c q]
    unfolding open_on_event_def by (auto split: if_splits)
qed

section \<open>Example\<close>

text \<open>
  A device with one partition, two engines, of which the command holds the first, and a free channel
  to the fast path, and answers that let everything succeed but the masking of the session key and
  the message to the fast path.
\<close>

definition demo_core :: "partition \<Rightarrow> unit core" where
  "demo_core p = \<lparr>ready_queue = [], cleanup_queue = [],
     world = \<lparr>w_pka = res_new ((pka_new 2)\<lparr>free_list := [1]\<rparr>), w_fp_ipc = res_new ipc_new, w_part = (\<lambda>_. p)\<rparr>\<rparr>"

definition demo_answers :: cmd_answers where
  "demo_answers = \<lparr>ca_crypto = demo_crypto, ca_bks = demo_bks, ca_rng = replicate 32 7, ca_now = 10, ca_later = 11, ca_begin = True,
     ca_end = True, ca_point_valid = True, ca_secret = Some [], ca_alloc = (True, True), ca_bmk_len = Err DmaAllocFailure,
     ca_bmk = Err DmaAllocFailure, ca_fips = True, ca_sent = False, ca_message = Some (Some 0), ca_busy = (\<lambda>_. False),
     ca_sess_busy = (\<lambda>_. False), ca_io = idle_io\<rparr>"

definition demo_open :: open_session_cmd where
  "demo_open = (open_cmd_new [] 0 False)\<lparr>os_state := CS_WaitForCmd, os_ctx := Some \<lparr>oc_engine = 0, oc_stage = EcdhCompute\<rparr>,
     os_api_rev := Some \<lparr>rev_major = 1, rev_minor = 0\<rparr>,
     os_common := Some \<lparr>cf_rev = Some \<lparr>rev_major = 1, rev_minor = 0\<rparr>, cf_sess_id = None, cf_cred = demo_request, cf_pub_key = [],
       cf_bmk_session = None\<rparr>\<rparr>"

lemma demo_core_part [simp]: "w_part (world (demo_core p)) pfn = p"
  by (simp add: demo_core_def)

section \<open>A request for a session\<close>

text \<open>Answering touches nothing outside of the request.\<close>

lemma send_err_state: "send_err_cqe io e tag (f, q) = (r, f', q') \<Longrightarrow> q' = q \<and> fs_err f' = fs_err f"
  by (cases "fs_ioq f") (auto simp: send_err_cqe_def begin_send_def then_op_def log_io_def split: if_splits)

lemma cmd_err_resp_state: "cmd_err_resp io tag e (f, q) = (r, f', q') \<Longrightarrow> q' = q \<and> fs_err f' = fs_err f \<and> (is_ok r \<longrightarrow> f' = f)"
  by (auto simp: cmd_err_resp_def dest: send_err_state split: outcome.splits) (metis fst_conv send_err_fails)

lemma begin_out_state:
  "begin_out_dma io tag (f, q) = (r, g, q') \<Longrightarrow> q' = q \<and> fs_err g = fs_err f \<and> fs_cmd g = fs_cmd f"
  by (auto simp: begin_out_dma_def ok_or_def log_io_def split: option.splits if_splits)

lemma rollback_open:
  assumes "fs_cmd f = Some (Cmd_Open c)" and "undoable B a pfn p (c, q)"
  obtains q' where "issue_command_rollback (session_env B a V) tag (f, q) = (Ok (), log_io Log_Rollback (f\<lparr>fs_cmd := Some (Cmd_Open c)\<rparr>), q')"
    "same_sessions p (w_part (world q') pfn)"
proof -
  obtain r c' q' where r: "open_rollback B a (c, q) = (r, c', q')" using prod_cases3 by blast
  then have "c' = c" by (auto simp: open_rollback_def split: option.splits prod.splits)
  then have "issue_command_rollback (session_env B a V) tag (f, q) = (r, log_io Log_Rollback (f\<lparr>fs_cmd := Some (Cmd_Open c)\<rparr>), q')"
    using assms(1) r by (simp add: issue_command_rollback_def session_env_def session_cmd_rollback_def)
  with r assms(2) show thesis by (intro that [of q']) (auto simp: undoable_def)
qed

lemma start_response_eq:
  assumes "fs_cmd f = Some c"
  obtains fl where "start_response E io tag (f, q) =
    (case begin_out_dma io tag (f\<lparr>fs_session_flags := fl\<rparr>, q) of
       (Ok _, s) \<Rightarrow> (Err hsm_err.Pending, s) | (Err err, s) \<Rightarrow> response_failed E io tag err s | (Panic, s) \<Rightarrow> (Panic, s))"
proof -
  define fl where "fl = (if sf_ctrl (fs_session_flags f) = Ctrl_Close
    then (fs_session_flags f)\<lparr>sf_session_closed := \<not> cmd_retry E c\<rparr> else fs_session_flags f)"
  show thesis by (rule that [of fl]) (use assms in \<open>auto simp: start_response_def fl_def\<close>)
qed

lemma start_response_error:
  assumes "start_response E io tag (f, q) = (r, f', q')" and "fs_err f \<noteq> None" and "fs_cmd f = Some c"
  shows "q' = q"
proof -
  obtain fl where fl: "start_response E io tag (f, q) =
    (case begin_out_dma io tag (f\<lparr>fs_session_flags := fl\<rparr>, q) of
       (Ok _, s) \<Rightarrow> (Err hsm_err.Pending, s) | (Err err, s) \<Rightarrow> response_failed E io tag err s | (Panic, s) \<Rightarrow> (Panic, s))"
    by (rule start_response_eq [OF assms(3)])
  obtain x g q1 where x: "begin_out_dma io tag (f\<lparr>fs_session_flags := fl\<rparr>, q) = (x, g, q1)" using prod_cases3 by blast
  show ?thesis using assms fl x begin_out_state [OF x]
    by (cases x) (auto simp: response_failed_def dest!: send_err_state)
qed

lemma start_response_undone:
  assumes "start_response (session_env B a V) io tag (f, q) = (r, f', q')" and "fs_err f = None" and "fs_err f' \<noteq> None"
    and "fs_cmd f = Some (Cmd_Open c)" and "undoable B a pfn p (c, q)"
  shows "same_sessions p (w_part (world q') pfn)"
proof -
  let ?E = "session_env B a V"
  obtain fl where fl: "start_response ?E io tag (f, q) =
    (case begin_out_dma io tag (f\<lparr>fs_session_flags := fl\<rparr>, q) of
       (Ok _, s) \<Rightarrow> (Err hsm_err.Pending, s) | (Err err, s) \<Rightarrow> response_failed ?E io tag err s | (Panic, s) \<Rightarrow> (Panic, s))"
    by (rule start_response_eq [OF assms(4)])
  obtain x g q1 where x: "begin_out_dma io tag (f\<lparr>fs_session_flags := fl\<rparr>, q) = (x, g, q1)" using prod_cases3 by blast
  note b = begin_out_state [OF x]
  obtain err where err: "x = Err err" using assms fl x b by (cases x) auto
  let ?g = "g\<lparr>fs_err := Some err, fs_state := St_DmaOutErr\<rparr>"
  obtain q2 where "issue_command_rollback ?E tag (?g, q) = (Ok (), log_io Log_Rollback (?g\<lparr>fs_cmd := Some (Cmd_Open c)\<rparr>), q2)" "same_sessions p (w_part (world q2) pfn)"
    by (rule rollback_open [of ?g c B a pfn p q V tag]) (use assms b in simp_all)
  then show ?thesis using assms(1,2) fl x err b by (auto simp: response_failed_def dest!: send_err_state)
qed

lemma session_env_open:
  "cmd_on_event (session_env B a V) event tag (Cmd_Open c) q = (case open_on_event B a event tag (c, q) of (r, c, q) \<Rightarrow> (r, Cmd_Open c, q))"
  "cmd_take_response (session_env B a V) (Cmd_Open c) = (os_resp c, Cmd_Open (c\<lparr>os_resp := None\<rparr>))"
  "cmd_session_id (session_env B a V) (Cmd_Open c) = os_sess_id c"
  by (simp_all add: session_env_def session_cmd_on_event_def session_cmd_take_response_def open_take_response_def session_cmd_session_id_def)

lemma err_resp_len: "len_value (ddi_cmd_resp DdiErrResp) (err_resp hdr i st op) 0 < 2 ^ 31"
  by (cases "rh_rev hdr"; cases i)
     (simp_all add: ddi_cmd_resp_def DdiErrResp_def DdiRespHdr_def DdiApiRev_def err_resp_def value_of_rev_def len_uint_def
       len_map_def len_bool_def)

lemma encode_err_resp_Ok:
  assumes "io_alloc io"
  shows "\<exists>b. encode_err_resp io hdr i st op = Ok b"
proof -
  let ?t = "ddi_cmd_resp DdiErrResp" and ?v = "err_resp hdr i st op"
  let ?e = "encoder_new (replicate (len_value ?t ?v 0) 0) 0 (len_value ?t ?v 0)"
  have "type_wf ?t" by (simp add: ddi_cmd_resp_def DdiErrResp_def DdiRespHdr_def DdiApiRev_def)
  moreover have "value_ok ?t ?v ?e"
    by (cases "rh_rev hdr"; cases i)
       (simp_all add: ddi_cmd_resp_def DdiErrResp_def DdiRespHdr_def DdiApiRev_def err_resp_def value_of_rev_def)
  moreover have "enc_wf ?e" "enc_len ?e < 2 ^ 31" using err_resp_len by (simp_all add: enc_wf_def encoder_new_def)
  ultimately have "codes ?t ?v ?e" by (intro value_codes)
  then obtain v' e' where "encode_value ?t ?v ?e = (Ok v', e')" by (auto simp: codes_def encoder_new_def)
  then show ?thesis using assms by (simp add: encode_err_resp_def encode_resp_def Let_def)
qed


lemma idle_alloc: "io_alloc idle_io"
  by (simp add: idle_io_def)

lemma demo_open_fails:
  assumes "open_demo None None demo = (Ok (v, i), p')"
  shows "\<exists>c q'. open_on_event plain_bits demo_answers (PkaDone 0) 3 (demo_open, demo_core demo) = (Err DmaAllocFailure, c, q') \<and>
    w_part (world q') 0 = p'"
  using assms
  by (simp add: open_on_event_def open_on_cmd_complete_def open_on_end_def demo_open_def open_cmd_new_def demo_answers_def
      on_part_def then_drop_eq Let_def demo_core_def set_part_def pka_drop_def res_cleanup_def res_new_def res_wakeup_def pka_info_def
      pka_clear_def pka_new_def generate_bmk_and_send_response_def)


section \<open>Flushing\<close>

lemma delete_session_record_frame: "pt_store (snd (delete_session_record B busy i p)) = pt_store p"
  unfolding delete_session_record_def by (rule keeps_try_in [where I = "\<lambda>p'. pt_store p' = pt_store p"]) simp_all

lemma session_env_flush:
  "cmd_new (session_env B a V) pfn (Req_Flush i) = Cmd_Flush (flush_cmd_new i pfn)"
  "cmd_on_event (session_env B a V) event tag (Cmd_Flush c) q = (case flush_on_event B a event tag (c, q) of (r, c, q) \<Rightarrow> (r, Cmd_Flush c, q))"
  "cmd_rollback (session_env B a V) tag (Cmd_Flush c) q = (Ok (), Cmd_Flush c, q)"
  "cmd_retry (session_env B a V) (Cmd_Flush c) = (\<not> fl_committed c)"
  "en_part (session_env B a V) pfn q = w_part (world q) pfn"
  by (simp_all add: session_env_def session_cmd_new_def session_cmd_on_event_def session_cmd_rollback_def session_cmd_retry_def)

lemma begin_close_unsent:
  assumes "is_ok (user_session B i True (w_part (world q) pfn))" and "\<not> ca_sent a"
    and "res_info (w_fp_ipc (world q)) = 1" and "cleanup_fsm (w_fp_ipc (world q)) = None" and "\<not> rsrc_ownership_transferred Res_FpIpcChannel q"
  shows "\<exists>q'. begin_close B a tag pfn i q = (Err IpcSendFailure, q')"
proof -
  obtain x where "user_session B i True (w_part (world q) pfn) = Ok x" using assms(1) by (auto simp: is_ok_iff)
  then show ?thesis using assms(2-)
    by (auto simp: begin_close_def Let_def fp_acquire_def res_acquire_def ipc_info_def ipc_set_def then_drop_eq fp_drop_def
        res_cleanup_def res_wakeup_def ipc_clear_def set_part_def rsrc_ownership_transferred_def split: list.split)
qed

text \<open>
  C36: A flush that fails writes to the host. The entry of a flush has no buffers and its checks look
  at none, but when the message to the fast path cannot be sent, the error is answered like the
  error of any other request: an error response is transferred to the address that the unchecked
  destination of the entry happens to hold.
\<close>

theorem flush_failure_writes_host:
  assumes entry: "validate_sqe (fs_sqe f) = Ok ()" "sqe_op (fs_sqe f) = Sqe_Flush" "fs_pfn f = Some pfn" "fs_err f = None"
    and session: "is_ok (user_session B (sqe_session_id (fs_sqe f)) True (w_part (world q) pfn))"
    and channel: "res_info (w_fp_ipc (world q)) = 1" "cleanup_fsm (w_fp_ipc (world q)) = None"
      "\<not> rsrc_ownership_transferred Res_FpIpcChannel q" "\<not> ca_sent a"
    and io: "io_alloc io" "io_begin_txn io"
  shows "(\<forall>d. validate_sqe ((fs_sqe f)\<lparr>sqe_dst := d\<rparr>) = Ok ()) \<and>
    (\<exists>f' q' b. process_rx_entry B (session_env B a V) io tag (f, q) = (Err hsm_err.Pending, f', q') \<and>
       fs_log f' = fs_log f @ [Log_Rollback, Log_Dma_Out pfn (dd_prp1 (sqe_dst (fs_sqe f))) b tag])"
proof -
  obtain q' where q': "begin_close B a tag pfn (sqe_session_id (fs_sqe f)) q = (Err IpcSendFailure, q')"
    using begin_close_unsent [OF session channel(4,1-3)] by blast
  obtain b where b: "encode_err_resp io (fs_req_hdr f) (rh_sess_id (fs_req_hdr f)) (ddi_status_of_err IpcSendFailure) (rh_op (fs_req_hdr f)) = Ok b"
    using encode_err_resp_Ok [OF io(1)] by blast
  have "validate_sqe ((fs_sqe f)\<lparr>sqe_dst := d\<rparr>) = Ok ()" for d
    using entry(1,2) by (simp add: validate_sqe_def validate_sqe_with_flush_opcode_def split: if_splits)
  then show ?thesis
    using entry session io q' b
    by (simp add: process_rx_entry_def hf_flush_session_def session_env_flush process_cmd_event_def flush_on_event_def
        flush_on_start_def flush_cmd_new_def cmd_answer_def issue_command_rollback_def cmd_err_resp_def start_response_def
        begin_out_dma_def Let_def log_io_def then_op_def)
qed

definition flush_entry :: "u16 \<Rightarrow> hsm_sqe" where
  "flush_entry i = (sqe_of_entry (replicate 64 0))\<lparr>sqe_op := Sqe_Flush, sqe_session_id := i,
     sqe_flags := \<lparr>sf_ctrl = Ctrl_Close, sf_id_valid = True, sf_app_vault_id_is_valid = False, sf_session_closed = False\<rparr>\<rparr>"

theorem flush_failure_writes_host_witness:
  "\<exists>i p' f' b. open_demo None None demo = (Ok (\<lparr>rev_major = 1, rev_minor = 0\<rparr>, i), p') \<and>
     fst (snd (process_rx_entry plain_bits (session_env plain_bits demo_answers (echo_env (\<lambda>q. w_part (world q) 0))) idle_io 3
       (hsm_fsm_new\<lparr>fs_pfn := Some 0, fs_sqe := flush_entry i\<rparr>, demo_core p'))) = f' \<and>
     fs_log f' = [Log_Rollback, Log_Dma_Out 0 \<lparr>ma_lo = 0, ma_hi = 0\<rparr> b 3]"
proof -
  obtain i p' where ok: "open_demo None None demo = (Ok (\<lparr>rev_major = 1, rev_minor = 0\<rparr>, i), p')" by (rule open_demo_Ok)
  have s: "is_ok (user_session plain_bits i True p')"
  proof (rule end_open_Ok [OF plain_bits_laws part_start_inv [OF demo_start] ok])
    fix n
    assume "unat i < MAX_SESSIONS" "session_slots p' = (session_slots demo)[unat i := Active n]" "part_inv p'"
    then show ?thesis by (auto simp: user_session_Ok_iff [OF plain_bits_laws] slot_is_def)
  qed
  have e: "sqe_psdt (sqe_of_entry (replicate 64 0)) = 0" "dd_prp1 (sqe_dst (sqe_of_entry (replicate 64 0))) = \<lparr>ma_lo = 0, ma_hi = 0\<rparr>"
    by code_simp+
  show ?thesis
    using flush_failure_writes_host [of "hsm_fsm_new\<lparr>fs_pfn := Some 0, fs_sqe := flush_entry i\<rparr>" 0 plain_bits "demo_core p'" demo_answers
        idle_io "echo_env (\<lambda>q. w_part (world q) 0)" 3] s ok e
    by (auto simp: flush_entry_def validate_sqe_def validate_sqe_with_flush_opcode_def hsm_fsm_new_def demo_core_def res_new_def ipc_new_def
        rsrc_ownership_transferred_def demo_answers_def idle_io_def)
qed


definition demo_flush :: "u16 \<Rightarrow> flush_session_cmd" where
  "demo_flush i = (flush_cmd_new i 0)\<lparr>fl_state := CL_WaitForCmd, fl_op := Some \<lparr>ca_id = i, ca_channel = 0\<rparr>\<rparr>"


section \<open>Waiting\<close>

lemma pka_wakeup_next:
  assumes "waiters r = tag # rest" and "k < length (pending_self_test (res_info r))"
  shows "\<exists>i. res_wakeup pka_info k (r, q) = (Ok (), r\<lparr>res_info := i, waiters := rest\<rparr>, sched_wakeup tag Res_Pka q)"
  using assms by (auto simp: res_wakeup_def pka_info_def pka_clear_def Let_def)



end
