(* ===== verification/Spec2Isabelle.thy ===== *)
theory Spec2Isabelle
  imports Table_Props Store_Props Vault_Props Session_Table Credential_Mgr Bks_Table Ddi_Codec_Props Dma_Heap Partition_Props Range_Check Cdma_Vault Session_Props
begin

text \<open>
  Verification of the HSM firmware, under
  \<^verbatim>\<open>src/projects/microsoft/hsp/manticore/cp/hsm\<close>. All paths below are relative to that directory.

  \<^bold>\<open>The program.\<close> The HSM core serves up to 65 partitions, one per PCIe function. A host sends a
  request, which is copied into a DMA buffer, decoded, and run against its partition; the response
  is encoded into a buffer and copied back. A partition owns a set of the 65 key tables of the
  device (its key vault), a table of eight sessions, one user credential with a PIN policy, and a
  persistent store that survives firmware updates.

  \<^bold>\<open>Conventions.\<close> \<open>Hsm_Prelude\<close> has the types shared by all theories. A Rust result is
  \<open>Ok\<close>, \<open>Err\<close> with a constructor of \<open>hsm_err\<close> (\<^verbatim>\<open>hsm/src/error.rs\<close>), or \<open>Panic\<close>, which stands
  for every panic of the source: a slice or index out of range, a failed \<open>unwrap\<close>, an overflow in
  checked arithmetic, \<open>unreachable\<close>. \<open>and_then\<close>, \<open>try_in\<close> and \<open>then_op\<close> are the question mark operator
  in a function without state, at a point of a function with state, and between two operations on
  the state. Integers keep their width. Functions and fields keep the names of the source, with
  a prefix where a name is taken.

  \<^bold>\<open>Key store\<close> (\<^verbatim>\<open>hsm/src/partition/vault/store\<close>). \<open>Vault_Entry\<close>: kinds, flags and metadata of a
  key and the numbering of keys. \<open>Block_Tracker\<close>: the used blocks of a table. \<open>Physical_Table\<close>:
  one table, with its bytes, so that erasure is visible. \<open>Key_Store\<close>: the tables of a partition,
  selected by a mask out of the ones all partitions share. \<open>Key_Map\<close> is the abstract store, a map
  from key numbers to keys, and the contract \<open>key_map\<close>; \<open>Table_Correct\<close> and \<open>Key_Store\<close> show that
  a table and the whole store implement it, by a simulation for every operation. \<open>Table_Props\<close> and
  \<open>Store_Props\<close>: an added key occupies free blocks and survives, removed keys leave no bytes,
  partitions do not see each other's keys, tags are unique, bulk removal is exact.

  \<^bold>\<open>Key vault\<close> (\<^verbatim>\<open>hsm/src/partition/vault\<close>). \<open>Vault_Keys\<close>: the typed keys and their import records,
  with the contract \<open>typed_key\<close>. \<open>Key_Vault\<close>: import, open and delete on behalf of an application and
  a session. \<open>Vault_Props\<close>: exactly which keys a session can open, that imported keys read back,
  what deletion checks.

  \<^bold>\<open>Partition\<close> (\<^verbatim>\<open>hsm/src/partition\<close>). \<open>Session_Table\<close>: the bit masks and the array of
  \<^verbatim>\<open>session_table.rs\<close>, refining eight slots that are free, pending or active. \<open>Pin_Policy\<close>:
  the state machine of \<^verbatim>\<open>pin_policy_mgr.rs\<close> and how slow guessing is. \<open>Credential_Mgr\<close> and
  \<open>Bks_Table\<close>: \<^verbatim>\<open>cred_mgr.rs\<close> and \<^verbatim>\<open>bks_table.rs\<close>. \<open>Partition\<close> puts them together: the state and
  life cycle of \<^verbatim>\<open>state.rs\<close>, and the commands of \<^verbatim>\<open>part.rs\<close> and
  \<^verbatim>\<open>session/app_sess\<close> on the credential, the sessions and the deletion of keys.
  \<open>Partition_Inv\<close>: the invariant, that every active session has its own record in the
  vault, and that every command keeps it. \<open>Partition_Props\<close>: the step relation of the commands and what
  holds along every run: only an authorized request opens a session, a verified request cannot be
  replayed, a disabled partition stays closed until a credential is established, opening,
  rolling back and closing change exactly what they should, and a saved partition is restored.

  \<^bold>\<open>Device interface\<close> (\<^verbatim>\<open>serde/ddi\<close>). \<open>Ddi_Types\<close>: the open enumerations. \<open>Mbor\<close> and
  \<open>Mbor_Codec\<close>: the binary representation, encoder and decoder over buffers, with the contract
  \<open>mbor_codec\<close> of a primitive. \<open>Ddi_Codec\<close>: the code that the derive macro writes for structs, as
  functions of a description of the struct. \<open>Ddi_Messages\<close>: the description of every request and
  response. \<open>Ddi_Codec_Correct\<close> and \<open>Ddi_Codec_Props\<close>: messages round trip, the length computation
  is exact, decoding untrusted bytes stays in the buffer; every response fits in a page.
  \<open>Dma_Heap\<close> (\<^verbatim>\<open>hsm/src/heap.rs\<close>): the pool of buffers; live buffers do not overlap and start zeroed.

  \<^bold>\<open>Commands\<close> (\<^verbatim>\<open>hsm/src/cmd_scheduler\<close>, \<^verbatim>\<open>hsm/src/resource\<close>). \<open>Cmd_Scheduler\<close>: the slots and tags of the
  running state machines, the delivery of events, the queues of clean-ups and wake-ups, ticks and draining.
  A tag belongs to one command, a drain is called once and only when nothing runs, a tick ends and
  reaches every inactive slot once. \<open>Cmd_Resource\<close>: engines and channels, the commands that wait for
  them, and the wiping of an engine (\<^verbatim>\<open>fsm/res_cleanup_fsm.rs\<close>), with the contract \<open>resource_pool\<close>;
  an engine has one holder and is wiped before the next.

  \<^bold>\<open>Requests\<close> (\<^verbatim>\<open>hsm/src/fsm\<close>). \<open>Hsm_Fsm\<close>: the state machine of one request in \<^verbatim>\<open>hsm_fsm.rs\<close> and the
  queue entries of \<^verbatim>\<open>fsm/mod.rs\<close>. A request owns the parts its state needs; \<open>fs_log\<close> records
  what it asked of the hardware and is not part of the program. \<open>Hsm_Status\<close>: the status of every
  error (\<^verbatim>\<open>error.rs\<close>). \<open>Hsm_Fsm_Props\<close>: an invariant of one event, lifted to every run of
  events: no part is missing, one completion, one response and one rollback at most; and what has been
  checked when a command is created. \<open>Session_Cmds\<close>: the commands of \<^verbatim>\<open>open_session.rs\<close>,
  \<^verbatim>\<open>close_session.rs\<close>, \<^verbatim>\<open>flush_session.rs\<close> and \<^verbatim>\<open>unsupported.rs\<close>, as an environment of the request.
  \<open>Session_Props\<close> composes all of it with the partition: a request for a session that fails anywhere
  leaves the sessions and keys as they were, a flush only reports a session closed that is, a
  flush that fails writes to an unchecked host address, and a command that gave up waiting keeps its
  place in the queue.

  \<^bold>\<open>Checks and slots of keys.\<close> \<open>Range_Check\<close>: the comparisons of points, RSA inputs and scalars with
  their bounds (\<^verbatim>\<open>ecc_key_validation.rs\<close>, \<^verbatim>\<open>session/app_sess/rsa.rs\<close> and \<^verbatim>\<open>ecc.rs\<close>), each equal
  to a comparison of numbers. \<open>Cdma_Vault\<close>: the slots for bulk keys of \<^verbatim>\<open>cdma_vault.rs\<close>, as a set.

  \<^bold>\<open>Parameters.\<close> Code outside the repository is an argument of the definitions that use it. The
  \<^verbatim>\<open>bitfield\<close> crate is the record \<open>bit_trait\<close> with \<open>bit_trait_laws\<close>, which say that it reads and
  writes single bits; \<open>plain_bits\<close> satisfies them. The allocator crate is \<open>heap_crate\<close> with
  \<open>heap_crate_laws\<close>, which say that allocations are disjoint; \<open>stack_heap\<close> satisfies them. The
  cryptographic engines and key derivations of a partition are \<open>part_crypto\<close>, without any law: no
  theorem depends on what they compute. Random bytes and time stamps are arguments of the calls.
  What the channels, the DMA engine and the public-key engines answer during one event is a record
  (\<open>io_answers\<close>, \<open>cmd_answers\<close>), again without any law. The commands that are not modelled are the
  functions of a record \<open>hsm_env\<close>, about which the properties of a request assume nothing.

  \<^bold>\<open>Bounds.\<close> Loops over tables, slots, blocks, bytes and messages are structural recursions or folds. The
  loop of a tick clears one bit of a word of 128 bits per round, and its termination is proved; no definition needs fuel.
  Runs of events, commands and resource operations have any length. Table and session counts, block
  sizes and buffer lengths are the constants of the source.

  \<^bold>\<open>Not modelled.\<close> The arithmetic of the cryptographic commands is done by hardware engines that
  are driven through registers; their drivers (\<^verbatim>\<open>drivers\<close>, \<^verbatim>\<open>reg\<close>) are volatile accesses. The other
  commands of \<^verbatim>\<open>hsm/src/fsm\<close>, and the operations of \<^verbatim>\<open>session/app_sess\<close>, \<^verbatim>\<open>lm_key_derive\<close>,
  \<^verbatim>\<open>key_attestation\<close> and \<^verbatim>\<open>x509\<close> that they call, sequence jobs of these engines; their effects on the
  credential, the sessions and the vault are modelled, their job sequences are not. Giving a queue
  entry back to the host when a request is dropped is an argument of \<open>hsm_cmd_fsm\<close>. The
  messages between the cores are only modelled by the status they carry. The admin core, start-up,
  the event loop, logging, crash dumps and the self tests are outside the scope, as are the test
  hooks that are compiled in on request only.
\<close>

end
